theory Spec2Isabelle
  imports Complex_Main "HOL-Library.AList"
begin

section \<open>CIFTI-2 axes: a shallow embedding of \<^verbatim>\<open>nibabel/cifti2/cifti2_axes.py\<close>\<close>

text \<open>
  The module describes the rows and columns of a CIFTI matrix by five kinds of axis
  (\<^verbatim>\<open>BrainModel\<close>, \<^verbatim>\<open>Parcels\<close>, \<^verbatim>\<open>Scalar\<close>, \<^verbatim>\<open>Label\<close>, \<^verbatim>\<open>Series\<close>).
  Every Python function becomes a HOL function of the same name; an exception becomes
  the left summand of \<open>error + 'a\<close>.

  Conventions of the embedding.
  \<^item> Python \<^verbatim>\<open>int\<close> is \<open>int\<close>; \<^verbatim>\<open>//\<close> is \<open>div\<close> (both round towards minus infinity).
  \<^item> Python \<^verbatim>\<open>float\<close> (series start and step, affine entries) is idealised as \<open>real\<close>:
    rounding, infinities and NaN are outside the model.
  \<^item> The entries of a numpy integer array (64 bits) are idealised as \<open>int\<close>; where the
    source narrows them to 32 bits (\<^verbatim>\<open>Parcels.from_mapping\<close>) the wrap-around is written
    out.
  \<^item> A one-dimensional numpy array is a list; an \<open>(N, 3)\<close> integer array is a list of
    triples; the \<open>(4, 4)\<close> affine is a list of rows whose shape the setters check.
  \<^item> A \<^verbatim>\<open>dict\<close> is an association list read through \<open>map_of\<close>; dictionary equality
    compares the two lookup functions on all keys.
  \<^item> Strings are ASCII; \<^verbatim>\<open>str.lower\<close> and \<^verbatim>\<open>str.upper\<close> act on the 26 letters.
\<close>

subsection \<open>Exceptions\<close>

datatype error =
    ValueError string
  | IndexError string
  | KeyError string
  | AttributeError string
  | ZeroDivisionError

subsection \<open>Strings\<close>

definition lowercase_letters :: string where
  "lowercase_letters = ''abcdefghijklmnopqrstuvwxyz''"

definition uppercase_letters :: string where
  "uppercase_letters = ''ABCDEFGHIJKLMNOPQRSTUVWXYZ''"

definition upper_char :: "char \<Rightarrow> char" where
  "upper_char c =
     (case map_of (zip lowercase_letters uppercase_letters) c of Some u \<Rightarrow> u | None \<Rightarrow> c)"

definition lower_char :: "char \<Rightarrow> char" where
  "lower_char c =
     (case map_of (zip uppercase_letters lowercase_letters) c of Some l \<Rightarrow> l | None \<Rightarrow> c)"

definition upper :: "string \<Rightarrow> string" where
  "upper s = map upper_char s"

definition lower :: "string \<Rightarrow> string" where
  "lower s = map lower_char s"

text \<open>\<^verbatim>\<open>s[-n:]\<close> for \<open>n > 0\<close>: the last \<open>n\<close> characters, or all of \<open>s\<close> when it is shorter.\<close>

definition last_chars :: "nat \<Rightarrow> string \<Rightarrow> string" where
  "last_chars n s = drop (length s - n) s"

subsection \<open>Structure names: \<^verbatim>\<open>BrainModel.to_cifti_brain_structure_name\<close>\<close>

text \<open>
  The tuple \<^verbatim>\<open>cifti2.CIFTI_BRAIN_STRUCTURES\<close> lives in \<^verbatim>\<open>cifti2.py\<close>, outside the
  sources at hand, so every function that consults it takes it as the parameter
  \<open>structures\<close>. Closed examples use \<open>example_structures\<close>.
\<close>

text \<open>
  Modelled from the spec: the fixed vocabulary of structure names
  (\<^verbatim>\<open>cifti2.CIFTI_BRAIN_STRUCTURES\<close>) is missing. These five members are the ones
  the spec's examples and the source's docstrings and default arguments name
  (\<^verbatim>\<open>'Cortex'\<close>, \<^verbatim>\<open>'CortexLeft'\<close>, \<^verbatim>\<open>'CortexRight'\<close>, \<^verbatim>\<open>'thalamus_left'\<close>,
  \<^verbatim>\<open>'other'\<close>); they stand in for the vocabulary in closed examples only.
\<close>

definition example_structures :: "string list" where
  "example_structures =
     [''CIFTI_STRUCTURE_CORTEX'', ''CIFTI_STRUCTURE_CORTEX_LEFT'',
      ''CIFTI_STRUCTURE_CORTEX_RIGHT'', ''CIFTI_STRUCTURE_THALAMUS_LEFT'',
      ''CIFTI_STRUCTURE_OTHER'']"

datatype name_arg = NameStr string | NameTuple "string list"

definition orient_names :: "string list" where
  "orient_names = [''left'', ''right'', ''both'']"

text \<open>
  The \<^verbatim>\<open>for poss_orient in orient_names: ... else: ...\<close> loop of the string branch.
  It returns \<open>(orientation, structure)\<close>. \<^verbatim>\<open>name[idx]\<close> and \<^verbatim>\<open>name[-idx - 1]\<close> raise
  \<^verbatim>\<open>IndexError\<close> when the name is nothing but the orientation word.
\<close>

fun find_orientation :: "string \<Rightarrow> string list \<Rightarrow> error + (string \<times> string)" where
  "find_orientation name [] = Inr (''both'', name)"
| "find_orientation name (poss_orient # rest) =
     (let idx = length poss_orient in
      if poss_orient = take idx (lower name) then
        (if length name \<le> idx then Inl (IndexError ''string index out of range'')
         else if name ! idx \<in> set ''_ '' then Inr (poss_orient, drop (idx + 1) name)
         else Inr (poss_orient, drop idx name))
      else if poss_orient = last_chars idx (lower name) then
        (if length name < idx + 1 then Inl (IndexError ''string index out of range'')
         else if name ! (length name - idx - 1) \<in> set ''_ ''
           then Inr (poss_orient, take (length name - idx - 1) name)
         else Inr (poss_orient, take (length name - idx) name))
      else find_orientation name rest)"

text \<open>The two tests of the loop: the word \<open>p\<close> starts the lower-cased name, or ends it.\<close>

definition starts_or_ends_with :: "string \<Rightarrow> string \<Rightarrow> bool" where
  "starts_or_ends_with p name \<longleftrightarrow>
     p = take (length p) (lower name) \<or> p = last_chars (length p) (lower name)"

definition proposed_name :: "string \<Rightarrow> string \<Rightarrow> string" where
  "proposed_name structure orientation =
     (if lower orientation = ''both'' then ''CIFTI_STRUCTURE_'' @ upper structure
      else ''CIFTI_STRUCTURE_'' @ upper structure @ ''_'' @ upper orientation)"

definition check_proposed :: "string list \<Rightarrow> string \<Rightarrow> string \<Rightarrow> error + string" where
  "check_proposed structures structure orientation =
     (if proposed_name structure orientation \<notin> set structures
      then Inl (ValueError ''not a valid CIFTI brain structure'')
      else Inr (proposed_name structure orientation))"

definition to_cifti_brain_structure_name :: "string list \<Rightarrow> name_arg \<Rightarrow> error + string" where
  "to_cifti_brain_structure_name structures name =
     (case name of
        NameStr s \<Rightarrow>
          if s \<in> set structures then Inr s
          else (case find_orientation s orient_names of
                  Inl e \<Rightarrow> Inl e
                | Inr (orientation, structure) \<Rightarrow>
                    check_proposed structures structure orientation)
      | NameTuple t \<Rightarrow>
          if length t = 1 then check_proposed structures (t ! 0) ''both''
          else if length t \<noteq> 2 then Inl (ValueError ''wrong number of values to unpack'')
          else if lower (t ! 0) \<in> set orient_names
            then check_proposed structures (t ! 1) (t ! 0)
          else check_proposed structures (t ! 0) (t ! 1))"

subsection \<open>\<^verbatim>\<open>Series\<close>\<close>

record Series =
  series_start :: real
  series_step :: real
  series_size :: int
  series_unit :: string

text \<open>\<^verbatim>\<open>Series.__init__\<close>; the only check is the \<^verbatim>\<open>unit\<close> setter's.\<close>

definition Series_init :: "real \<Rightarrow> real \<Rightarrow> int \<Rightarrow> string \<Rightarrow> error + Series" where
  "Series_init start step size' unit' =
     (if upper unit' \<notin> set [''SECOND'', ''HERTZ'', ''METER'', ''RADIAN'']
      then Inl (ValueError ''Series unit should be one of second, hertz, meter, or radian'')
      else Inr \<lparr>series_start = start, series_step = step, series_size = size',
                series_unit = upper unit'\<rparr>)"

text \<open>What \<^verbatim>\<open>__getitem__\<close> is indexed with: a \<^verbatim>\<open>slice(start, stop, step)\<close>, an \<^verbatim>\<open>int\<close>,
  or anything else.\<close>

datatype item = Slice "int option" "int option" "int option" | Index int | OtherItem

datatype series_result = SubSeries Series | TimePoint real

definition Series_get_element :: "Series \<Rightarrow> int \<Rightarrow> error + real" where
  "Series_get_element self index =
     (let index = (if index < 0 then series_size self + index else index) in
      if index \<ge> series_size self
      then Inl (IndexError ''index is out of range for get_series'')
      else Inr (series_start self + series_step self * real_of_int index))"

definition Series_getitem :: "Series \<Rightarrow> item \<Rightarrow> error + series_result" where
  "Series_getitem self it =
     (case it of
        Slice item_start item_stop item_step \<Rightarrow>
          (let step = (case item_step of None \<Rightarrow> 1 | Some s \<Rightarrow> s);
               idx_start = (case item_start of
                              None \<Rightarrow> (if step < 0 then series_size self - 1 else 0)
                            | Some s \<Rightarrow> (if s \<ge> 0 then s else series_size self + s));
               idx_end = (case item_stop of
                            None \<Rightarrow> (if step < 0 then - 1 else series_size self)
                          | Some s \<Rightarrow> (if s \<ge> 0 then s else series_size self + s));
               idx_start = (if idx_start > series_size self then series_size self - 1
                            else idx_start);
               idx_end = (if idx_end > series_size self then series_size self else idx_end)
           in if step = 0 then Inl ZeroDivisionError
              else
                (let nelements = (idx_end - idx_start) div step;
                     nelements = (if nelements < 0 then 0 else nelements)
                 in map_sum id SubSeries
                      (Series_init (real_of_int idx_start * series_step self + series_start self)
                         (series_step self * real_of_int step) nelements (series_unit self))))
      | Index i \<Rightarrow> map_sum id TimePoint (Series_get_element self i)
      | OtherItem \<Rightarrow>
          Inl (IndexError ''Series can only be indexed with integers or slices''))"

text \<open>
  The reference the slicing is held against: Python's own slice semantics, as
  \<^verbatim>\<open>slice.indices(n)\<close> and \<^verbatim>\<open>len(range(start, stop, step))\<close> document them.
  \<open>standard_slice_indices\<close> lists the positions a sequence of length \<open>n\<close> selects.
\<close>

definition standard_slice_bounds :: "int \<Rightarrow> item \<Rightarrow> (int \<times> int \<times> int) option" where
  "standard_slice_bounds n it =
     (case it of
        Slice item_start item_stop item_step \<Rightarrow>
          (let step = (case item_step of None \<Rightarrow> 1 | Some s \<Rightarrow> s);
               lo = (if step < 0 then - 1 else 0);
               hi = (if step < 0 then n - 1 else n);
               clamp = (\<lambda>v. if v < 0 then max (v + n) lo else min v hi);
               start = (case item_start of None \<Rightarrow> (if step < 0 then hi else lo)
                        | Some s \<Rightarrow> clamp s);
               stop = (case item_stop of None \<Rightarrow> (if step < 0 then lo else hi)
                       | Some s \<Rightarrow> clamp s)
           in if step = 0 then None else Some (start, stop, step))
      | _ \<Rightarrow> None)"

definition standard_slice_length :: "int \<Rightarrow> item \<Rightarrow> int option" where
  "standard_slice_length n it =
     (case standard_slice_bounds n it of
        None \<Rightarrow> None
      | Some (start, stop, step) \<Rightarrow>
          Some (if step > 0 then (if start < stop then (stop - start - 1) div step + 1 else 0)
                else (if stop < start then (start - stop - 1) div (- step) + 1 else 0)))"

definition standard_slice_indices :: "int \<Rightarrow> item \<Rightarrow> int list option" where
  "standard_slice_indices n it =
     (case (standard_slice_bounds n it, standard_slice_length n it) of
        (Some (start, stop, step), Some len) \<Rightarrow>
          Some (map (\<lambda>k. start + int k * step) [0..<nat len])
      | _ \<Rightarrow> None)"

subsection \<open>Dictionaries and numpy helpers\<close>

type_synonym 'v dict = "(string \<times> 'v) list"

definition dict_keys :: "('k \<times> 'v) list \<Rightarrow> 'k list" where
  "dict_keys d = map fst d"

text \<open>\<^verbatim>\<open>d1 == d2\<close> on dictionaries: the same keys with the same values, in any order.\<close>

definition dict_eq :: "('k \<times> 'v) list \<Rightarrow> ('k \<times> 'v) list \<Rightarrow> bool" where
  "dict_eq d1 d2 = list_all (\<lambda>k. map_of d1 k = map_of d2 k) (dict_keys d1 @ dict_keys d2)"

text \<open>Filling a dictionary entry by entry, \<^verbatim>\<open>d[k] = v\<close> for each pair in turn.\<close>

definition dict_of_items :: "('k \<times> 'v) list \<Rightarrow> ('k \<times> 'v) list" where
  "dict_of_items items = fold (\<lambda>(k, v) d. AList.update k v d) items []"

text \<open>Mapping a function that may raise over a list: the first exception wins.\<close>

fun map_result :: "('a \<Rightarrow> error + 'b) \<Rightarrow> 'a list \<Rightarrow> error + 'b list" where
  "map_result f [] = Inr []"
| "map_result f (x # xs) =
     (case f x of
        Inl e \<Rightarrow> Inl e
      | Inr y \<Rightarrow> (case map_result f xs of Inl e \<Rightarrow> Inl e | Inr ys \<Rightarrow> Inr (y # ys)))"

text \<open>
  \<^verbatim>\<open>arr[mask]\<close> with a boolean mask: numpy raises \<^verbatim>\<open>IndexError\<close> unless the mask is as
  long as the array's first axis.
\<close>

definition mask_select :: "bool list \<Rightarrow> 'a list \<Rightarrow> error + 'a list" where
  "mask_select msk xs =
     (if length msk \<noteq> length xs
      then Inl (IndexError ''boolean index did not match indexed array'')
      else Inr (map snd (filter fst (zip msk xs))))"

text \<open>\<^verbatim>\<open>xs[start:stop]\<close> and \<^verbatim>\<open>xs[start:]\<close> for non-negative bounds, the only slices
  \<^verbatim>\<open>iter_structures\<close> takes.\<close>

type_synonym range_slice = "nat \<times> nat option"

definition slice_list :: "range_slice \<Rightarrow> 'a list \<Rightarrow> 'a list" where
  "slice_list sl xs =
     (case sl of (start, None) \<Rightarrow> drop start xs
               | (start, Some stop) \<Rightarrow> drop start (take stop xs))"

text \<open>The half-open index range a slice selects from an axis of length \<open>n\<close>.\<close>

definition slice_range :: "nat \<Rightarrow> range_slice \<Rightarrow> nat \<times> nat" where
  "slice_range n sl =
     (case sl of (start, None) \<Rightarrow> (start, n)
               | (start, Some stop) \<Rightarrow> (start, min stop n))"

subsection \<open>\<^verbatim>\<open>BrainModel\<close>\<close>

type_synonym voxel = "int \<times> int \<times> int"
type_synonym affine = "real list list"

record BrainModel =
  bm_name :: "string list"
  bm_voxel :: "voxel list"
  bm_vertex :: "int list"
  bm_affine :: "affine option"
  bm_volume_shape :: "int list option"
  bm_nvertices :: "int dict"

text \<open>The \<^verbatim>\<open>affine\<close> and \<^verbatim>\<open>volume_shape\<close> setters (the entries of a volume shape are
  integers by their type here).\<close>

definition affine_setter :: "affine option \<Rightarrow> error + affine option" where
  "affine_setter v =
     (case v of
        None \<Rightarrow> Inr None
      | Some a \<Rightarrow>
          if list_ex (\<lambda>n. n \<noteq> 4) (length a # map length a)
          then Inl (ValueError ''Affine transformation should be a 4x4 array'')
          else Inr (Some a))"

definition volume_shape_setter :: "int list option \<Rightarrow> error + int list option" where
  "volume_shape_setter v =
     (case v of
        None \<Rightarrow> Inr None
      | Some s \<Rightarrow>
          if length s \<noteq> 3
          then Inl (ValueError ''Volume shape should be a tuple of length 3'')
          else Inr (Some s))"

text \<open>The \<^verbatim>\<open>name\<close> setter canonicalises every entry.\<close>

definition name_setter :: "string list \<Rightarrow> string list \<Rightarrow> error + string list" where
  "name_setter structures values' =
     map_result (\<lambda>n. to_cifti_brain_structure_name structures (NameStr n)) values'"

text \<open>
  The \<^verbatim>\<open>is_surface\<close> property, \<^verbatim>\<open>np.vectorize(lambda name: name in nvertices.keys())(name)\<close>.
  \<^verbatim>\<open>np.vectorize\<close> without \<^verbatim>\<open>otypes\<close> refuses an input of size 0 with a \<^verbatim>\<open>ValueError\<close>.
\<close>

definition surface_mask :: "int dict \<Rightarrow> string list \<Rightarrow> bool list" where
  "surface_mask nvertices names = map (\<lambda>n. n \<in> set (dict_keys nvertices)) names"

definition is_surface :: "int dict \<Rightarrow> string list \<Rightarrow> error + bool list" where
  "is_surface nvertices names =
     (if names = []
      then Inl (ValueError ''cannot call vectorize on size 0 inputs unless otypes is set'')
      else Inr (surface_mask nvertices names))"

text \<open>\<^verbatim>\<open>for name in list(nvertices.keys()): if name not in self.name: del nvertices[name]\<close>\<close>

definition prune_nvertices :: "string list \<Rightarrow> int dict \<Rightarrow> int dict" where
  "prune_nvertices names nvertices =
     fold (\<lambda>k d. if k \<notin> set names then AList.delete k d else d) (dict_keys nvertices) nvertices"

datatype bm_name_arg = OneName string | NameArray "string list"

definition voxel_negative :: "voxel \<Rightarrow> bool" where
  "voxel_negative v = (case v of (i, j, k) \<Rightarrow> i < 0 \<or> j < 0 \<or> k < 0)"

text \<open>\<^verbatim>\<open>BrainModel.__init__\<close>, check by check in the source's order.\<close>

definition BrainModel_init ::
  "string list \<Rightarrow> bm_name_arg \<Rightarrow> voxel list option \<Rightarrow> int list option \<Rightarrow> affine option \<Rightarrow>
   int list option \<Rightarrow> int dict option \<Rightarrow> error + BrainModel" where
  "BrainModel_init structures name voxel vertex affine volume_shape nvertices =
     (if voxel = None \<and> vertex = None
      then Inl (ValueError ''Voxel and vertex indices not defined'')
      else
       (let nelements = (case voxel of None \<Rightarrow> length (the vertex) | Some v \<Rightarrow> length v);
            voxel' = (case voxel of None \<Rightarrow> replicate nelements (- 1, - 1, - 1) | Some v \<Rightarrow> v);
            vertex' = (case vertex of None \<Rightarrow> replicate nelements (- 1) | Some v \<Rightarrow> v)
        in
        case (case name of
                OneName s \<Rightarrow>
                  map_sum id (replicate (length vertex'))
                    (to_cifti_brain_structure_name structures (NameStr s))
              | NameArray ns \<Rightarrow> Inr ns) of
          Inl e \<Rightarrow> Inl e
        | Inr name' \<Rightarrow>
        case name_setter structures name' of
          Inl e \<Rightarrow> Inl e
        | Inr names \<Rightarrow>
        (let nv = prune_nvertices names (case nvertices of None \<Rightarrow> [] | Some d \<Rightarrow> d) in
        case is_surface nv names of
          Inl e \<Rightarrow> Inl e
        | Inr surf \<Rightarrow>
        case (if list_all id surf then Inr None else affine_setter affine) of
          Inl e \<Rightarrow> Inl e
        | Inr affine' \<Rightarrow>
        case (if list_all id surf then Inr None else volume_shape_setter volume_shape) of
          Inl e \<Rightarrow> Inl e
        | Inr volume_shape' \<Rightarrow>
        case mask_select surf vertex' of
          Inl e \<Rightarrow> Inl e
        | Inr surface_vertices \<Rightarrow>
        if list_ex (\<lambda>v. v < 0) surface_vertices
        then Inl (ValueError ''Undefined vertex indices found for surface elements'')
        else
        case mask_select (map Not surf) voxel' of
          Inl e \<Rightarrow> Inl e
        | Inr volume_voxels \<Rightarrow>
        if list_ex voxel_negative volume_voxels
        then Inl (ValueError ''Undefined voxel indices found for volumetric elements'')
        else if list_ex (\<lambda>n. n \<noteq> length names)
                  [length names, length voxel', length vertex']
        then Inl (ValueError ''Input has incorrect shape for Label axis'')
        else Inr \<lparr>bm_name = names, bm_voxel = voxel', bm_vertex = vertex',
                   bm_affine = affine', bm_volume_shape = volume_shape', bm_nvertices = nv\<rparr>)))"

text \<open>
  What a successful run of the constructor guarantees of the axis it returns: the axis
  is not empty, its names are canonical, the three arrays agree in length, the keys of
  \<^verbatim>\<open>nvertices\<close> occur among the names, surface elements have a vertex index and
  volumetric elements a voxel index, the geometry has passed its setters, and a pure
  surface axis carries no geometry.
\<close>

definition bm_valid :: "string list \<Rightarrow> BrainModel \<Rightarrow> bool" where
  "bm_valid structures bm \<longleftrightarrow>
     bm_name bm \<noteq> [] \<and> set (bm_name bm) \<subseteq> set structures \<and>
     length (bm_voxel bm) = length (bm_name bm) \<and>
     length (bm_vertex bm) = length (bm_name bm) \<and>
     set (dict_keys (bm_nvertices bm)) \<subseteq> set (bm_name bm) \<and>
     (\<forall>i < length (bm_name bm).
        if bm_name bm ! i \<in> set (dict_keys (bm_nvertices bm))
        then 0 \<le> bm_vertex bm ! i else \<not> voxel_negative (bm_voxel bm ! i)) \<and>
     affine_setter (bm_affine bm) = Inr (bm_affine bm) \<and>
     volume_shape_setter (bm_volume_shape bm) = Inr (bm_volume_shape bm) \<and>
     (set (bm_name bm) \<subseteq> set (dict_keys (bm_nvertices bm)) \<longrightarrow>
        bm_affine bm = None \<and> bm_volume_shape bm = None)"

text \<open>\<^verbatim>\<open>BrainModel.__getitem__\<close> on a slice: a new axis through the constructor.\<close>

definition BrainModel_getitem_slice ::
  "string list \<Rightarrow> BrainModel \<Rightarrow> range_slice \<Rightarrow> error + BrainModel" where
  "BrainModel_getitem_slice structures self sl =
     BrainModel_init structures (NameArray (slice_list sl (bm_name self)))
       (Some (slice_list sl (bm_voxel self))) (Some (slice_list sl (bm_vertex self)))
       (bm_affine self) (bm_volume_shape self) (Some (bm_nvertices self))"

text \<open>
  \<^verbatim>\<open>BrainModel.iter_structures\<close>. The generator is run to its end and its yields are
  collected; an exception inside it ends the run. \<open>iter_structures_loop\<close> is the
  \<^verbatim>\<open>for idx_current, name in enumerate(self.name)\<close> loop with the rest of the names
  still to visit, followed by the final \<^verbatim>\<open>yield\<close>.
\<close>

fun iter_structures_loop ::
  "string list \<Rightarrow> BrainModel \<Rightarrow> nat \<Rightarrow> string list \<Rightarrow> nat \<Rightarrow> string \<Rightarrow>
   error + (string \<times> range_slice \<times> BrainModel) list" where
  "iter_structures_loop structures self idx_current [] idx_start start_name =
     (case BrainModel_getitem_slice structures self (idx_start, None) of
        Inl e \<Rightarrow> Inl e
      | Inr bm \<Rightarrow> Inr [(start_name, (idx_start, None), bm)])"
| "iter_structures_loop structures self idx_current (name # rest) idx_start start_name =
     (if start_name \<noteq> name then
        (case BrainModel_getitem_slice structures self (idx_start, Some idx_current) of
           Inl e \<Rightarrow> Inl e
         | Inr bm \<Rightarrow>
             (case iter_structures_loop structures self (idx_current + 1) rest idx_current
                     (bm_name self ! idx_current) of
                Inl e \<Rightarrow> Inl e
              | Inr later \<Rightarrow> Inr ((start_name, (idx_start, Some idx_current), bm) # later)))
      else iter_structures_loop structures self (idx_current + 1) rest idx_start start_name)"

definition iter_structures ::
  "string list \<Rightarrow> BrainModel \<Rightarrow> error + (string \<times> range_slice \<times> BrainModel) list" where
  "iter_structures structures self =
     (if bm_name self = [] then Inl (IndexError ''index 0 is out of bounds for axis 0 with size 0'')
      else iter_structures_loop structures self 0 (bm_name self) 0 (bm_name self ! 0))"

text \<open>
  The reference \<^verbatim>\<open>iter_structures\<close> is held against: \<open>maximal_runs names a rs\<close> says
  that \<open>rs\<close> lists, in order, the maximal runs of consecutive equal names from
  position \<open>a\<close> to the end. A run \<open>(n, b, c)\<close> covers the half-open range \<open>[b, c)\<close>: it
  starts where the one before ended, is not empty, holds the name \<open>n\<close> throughout, and
  stops at the end of the names or in front of a different name.
\<close>

fun maximal_runs :: "string list \<Rightarrow> nat \<Rightarrow> (string \<times> nat \<times> nat) list \<Rightarrow> bool" where
  "maximal_runs names a [] = (a = length names)"
| "maximal_runs names a ((n, b, c) # rs) =
     (b = a \<and> b < c \<and> c \<le> length names \<and> list_all (\<lambda>i. names ! i = n) [b..<c] \<and>
      (c = length names \<or> names ! c \<noteq> n) \<and> maximal_runs names c rs)"

text \<open>A yielded triple read as \<open>(name, [start, stop))\<close>, and what is checked of its sub-axis:
  it is the slice of the axis that \<^verbatim>\<open>__getitem__\<close> returns for the yielded slice.\<close>

definition yield_range ::
  "nat \<Rightarrow> string \<times> range_slice \<times> BrainModel \<Rightarrow> string \<times> nat \<times> nat" where
  "yield_range n y = (case y of (name, sl, sub) \<Rightarrow> (name, slice_range n sl))"

definition yield_ok ::
  "string list \<Rightarrow> BrainModel \<Rightarrow> string \<times> range_slice \<times> BrainModel \<Rightarrow> bool" where
  "yield_ok structures bm y =
     (case y of (n, sl, sub) \<Rightarrow>
        BrainModel_getitem_slice structures bm sl = Inr sub \<and>
        bm_name sub = slice_list sl (bm_name bm) \<and>
        bm_voxel sub = slice_list sl (bm_voxel bm) \<and>
        bm_vertex sub = slice_list sl (bm_vertex bm))"

text \<open>
  \<^verbatim>\<open>abs(a - b).max() < 1e-8\<close> and \<^verbatim>\<open>(a != b).all()\<close> on two affines. Both are reached
  only with two \<open>(4, 4)\<close> arrays, the shape the setter has checked.
\<close>

definition affine_close :: "affine \<Rightarrow> affine \<Rightarrow> bool" where
  "affine_close a b = (Max (set (map2 (\<lambda>x y. \<bar>x - y\<bar>) (concat a) (concat b))) < 1 / 10 ^ 8)"

definition affine_all_differ :: "affine \<Rightarrow> affine \<Rightarrow> bool" where
  "affine_all_differ a b = list_all (\<lambda>(x, y). x \<noteq> y) (zip (concat a) (concat b))"

text \<open>
  \<^verbatim>\<open>BrainModel.__eq__\<close> against another \<^verbatim>\<open>BrainModel\<close>. Python's \<^verbatim>\<open>and\<close> evaluates
  left to right and stops at the first false operand.
\<close>

definition BrainModel_eq :: "BrainModel \<Rightarrow> BrainModel \<Rightarrow> error + bool" where
  "BrainModel_eq self other =
     (if length (bm_name self) \<noteq> length (bm_name other) then Inr False
      else if (bm_affine self = None) \<noteq> (bm_affine other = None) then Inr False
      else if \<not> ((bm_affine self = None \<and> bm_affine other = None) \<or>
                  (affine_close (the (bm_affine self)) (the (bm_affine other)) \<and>
                   bm_volume_shape self = bm_volume_shape other)) then Inr False
      else if \<not> dict_eq (bm_nvertices self) (bm_nvertices other) then Inr False
      else if bm_name self \<noteq> bm_name other then Inr False
      else
        case is_surface (bm_nvertices self) (bm_name self) of Inl e \<Rightarrow> Inl e | Inr surf1 \<Rightarrow>
        case mask_select (map Not surf1) (bm_voxel self) of Inl e \<Rightarrow> Inl e | Inr voxel1 \<Rightarrow>
        case is_surface (bm_nvertices other) (bm_name other) of Inl e \<Rightarrow> Inl e | Inr surf2 \<Rightarrow>
        case mask_select (map Not surf2) (bm_voxel other) of Inl e \<Rightarrow> Inl e | Inr voxel2 \<Rightarrow>
        if voxel1 \<noteq> voxel2 then Inr False
        else
        case mask_select (map Not surf1) (bm_vertex self) of Inl e \<Rightarrow> Inl e | Inr vertex1 \<Rightarrow>
        case mask_select (map Not surf2) (bm_vertex other) of Inl e \<Rightarrow> Inl e | Inr vertex2 \<Rightarrow>
        Inr (vertex1 = vertex2))"

text \<open>
  The conditions equality is held against. \<open>affine_within_tolerance\<close>: every entry of
  the two affines differs by less than \<open>1e-8\<close>. \<open>same_elements\<close>: the same length, the same
  names, the same \<^verbatim>\<open>nvertices\<close>, the same surface/volume classification of every
  element, and the same voxel indices on the volumetric elements. \<open>same_geometry\<close>: both
  affines absent, or both present, within tolerance, with equal volume shapes.
\<close>

definition affine_within_tolerance :: "affine \<Rightarrow> affine \<Rightarrow> bool" where
  "affine_within_tolerance a b = list_all2 (list_all2 (\<lambda>x y. \<bar>x - y\<bar> < 1 / 10 ^ 8)) a b"

definition same_elements :: "BrainModel \<Rightarrow> BrainModel \<Rightarrow> bool" where
  "same_elements x y \<longleftrightarrow>
     length (bm_name x) = length (bm_name y) \<and>
     bm_name x = bm_name y \<and>
     dict_eq (bm_nvertices x) (bm_nvertices y) \<and>
     surface_mask (bm_nvertices x) (bm_name x) = surface_mask (bm_nvertices y) (bm_name y) \<and>
     (\<forall>i < length (bm_name x).
        \<not> surface_mask (bm_nvertices x) (bm_name x) ! i \<longrightarrow> bm_voxel x ! i = bm_voxel y ! i)"

definition same_geometry :: "BrainModel \<Rightarrow> BrainModel \<Rightarrow> bool" where
  "same_geometry x y =
     (case (bm_affine x, bm_affine y) of
        (None, None) \<Rightarrow> True
      | (Some a, Some b) \<Rightarrow>
          affine_within_tolerance a b \<and> bm_volume_shape x = bm_volume_shape y
      | _ \<Rightarrow> False)"

text \<open>The merge of the two \<^verbatim>\<open>nvertices\<close> dictionaries in \<^verbatim>\<open>__add__\<close>.\<close>

fun merge_nvertices :: "string \<Rightarrow> int dict \<Rightarrow> int dict \<Rightarrow> error + int dict" where
  "merge_nvertices what nvertices [] = Inr nvertices"
| "merge_nvertices what nvertices ((name, v) # rest) =
     (if name \<in> set (dict_keys nvertices) \<and> map_of nvertices name \<noteq> Some v
      then Inl (ValueError (''Trying to concatenate two '' @ what @
                            '' with inconsistent number of vertices''))
      else merge_nvertices what (AList.update name v nvertices) rest)"

text \<open>\<^verbatim>\<open>BrainModel.__add__\<close> with another \<^verbatim>\<open>BrainModel\<close>.\<close>

definition BrainModel_add :: "string list \<Rightarrow> BrainModel \<Rightarrow> BrainModel \<Rightarrow> error + BrainModel" where
  "BrainModel_add structures self other =
     (if bm_affine self \<noteq> None \<and> bm_affine other \<noteq> None \<and>
         (affine_all_differ (the (bm_affine other)) (the (bm_affine self)) \<or>
          bm_volume_shape other \<noteq> bm_volume_shape self)
      then Inl (ValueError
                 ''Trying to concatenate two BrainModels defined in a different brain volume'')
      else
        (let affine = (if bm_affine self = None then bm_affine other else bm_affine self);
             shape = (if bm_affine self = None then bm_volume_shape other
                      else bm_volume_shape self)
         in case merge_nvertices ''BrainModels'' (bm_nvertices self) (bm_nvertices other) of
              Inl e \<Rightarrow> Inl e
            | Inr nvertices \<Rightarrow>
                BrainModel_init structures (NameArray (bm_name self @ bm_name other))
                  (Some (bm_voxel self @ bm_voxel other))
                  (Some (bm_vertex self @ bm_vertex other)) affine shape (Some nvertices)))"

subsection \<open>Mapping descriptors\<close>

text \<open>
  Modelled from the spec: the descriptor classes of \<^verbatim>\<open>cifti2.py\<close>
  (\<^verbatim>\<open>Cifti2MatrixIndicesMap\<close>, \<^verbatim>\<open>Cifti2NamedMap\<close>, \<^verbatim>\<open>Cifti2BrainModel\<close>, \<^verbatim>\<open>Cifti2Parcel\<close>,
  \<^verbatim>\<open>Cifti2Surface\<close>, \<^verbatim>\<open>Cifti2Volume\<close> and the containers they hold) are missing. The
  spec describes them as collaborators read and written through field accessors, so each
  is a record of the fields the axes read and write, and a constructor stores its
  arguments unchanged. A matrix indices map keeps its children in one list per kind,
  which is what the accessors \<^verbatim>\<open>named_maps\<close>, \<^verbatim>\<open>brain_models\<close>, \<^verbatim>\<open>parcels\<close>,
  \<^verbatim>\<open>surfaces\<close> and \<^verbatim>\<open>volume\<close> return.
\<close>

type_synonym rgba = "real \<times> real \<times> real \<times> real"
type_synonym label_table = "(int \<times> string \<times> rgba) list"

record named_map =
  map_name :: string
  metadata :: "string dict option"
  nm_label_table :: "label_table option"

record cifti_brain_model =
  index_offset :: nat
  index_count :: nat
  model_type :: string
  brain_structure :: string
  surface_number_of_vertices :: "int option"
  voxel_indices_ijk :: "voxel list option"
  vertex_indices :: "int list option"

record cifti_volume =
  volume_dimensions :: "int list option"
  transformation_matrix :: "affine option"

record cifti_parcel =
  parcel_name :: string
  parcel_voxel_indices_ijk :: "voxel list option"
  parcel_vertices :: "(string \<times> int list) list"

record mim =
  applies_to_matrix_dimension :: "nat list"
  indices_map_to_data_type :: string
  series_exponent :: "int option"
  mim_series_start :: "real option"
  mim_series_step :: "real option"
  number_of_series_points :: "int option"
  mim_series_unit :: "string option"
  named_maps :: "named_map list"
  brain_models :: "cifti_brain_model list"
  parcels :: "cifti_parcel list"
  surfaces :: "(string \<times> int) list"
  volume :: "cifti_volume option"

text \<open>\<^verbatim>\<open>cifti2.Cifti2MatrixIndicesMap([dim], index_type)\<close>: a map with no children yet.\<close>

definition Cifti2MatrixIndicesMap :: "nat list \<Rightarrow> string \<Rightarrow> mim" where
  "Cifti2MatrixIndicesMap dims index_type =
     \<lparr>applies_to_matrix_dimension = dims, indices_map_to_data_type = index_type,
      series_exponent = None, mim_series_start = None, mim_series_step = None,
      number_of_series_points = None, mim_series_unit = None, named_maps = [],
      brain_models = [], parcels = [], surfaces = [], volume = None\<rparr>"

text \<open>\<^verbatim>\<open>cifti2.Cifti2MetaData(meta)\<close>: the metadata object of \<^verbatim>\<open>None\<close> is empty.\<close>

definition Cifti2MetaData :: "string dict option \<Rightarrow> string dict" where
  "Cifti2MetaData m = (case m of None \<Rightarrow> [] | Some d \<Rightarrow> d)"

subsection \<open>\<^verbatim>\<open>BrainModel.to_mapping\<close> and \<^verbatim>\<open>BrainModel.from_mapping\<close>\<close>

text \<open>The body of the loop over \<^verbatim>\<open>self.iter_structures()\<close>.\<close>

fun bm_to_mapping_loop ::
  "BrainModel \<Rightarrow> (string \<times> range_slice \<times> BrainModel) list \<Rightarrow> mim \<Rightarrow> error + mim" where
  "bm_to_mapping_loop self [] m = Inr m"
| "bm_to_mapping_loop self ((name, to_slice, bm) # rest) m =
     (if name \<in> set (dict_keys (bm_nvertices self)) then
        (case map_of (bm_nvertices self) name of
           None \<Rightarrow> Inl (KeyError name)
         | Some nvertex \<Rightarrow>
             bm_to_mapping_loop self rest
               (m\<lparr>brain_models := brain_models m @
                    [\<lparr>index_offset = fst to_slice, index_count = length (bm_name bm),
                      model_type = ''CIFTI_MODEL_TYPE_SURFACE'', brain_structure = name,
                      surface_number_of_vertices = Some nvertex, voxel_indices_ijk = None,
                      vertex_indices = Some (bm_vertex bm)\<rparr>]\<rparr>))
      else
        bm_to_mapping_loop self rest
          (m\<lparr>volume := (case volume m of
                          None \<Rightarrow> Some \<lparr>volume_dimensions = bm_volume_shape self,
                                         transformation_matrix = bm_affine self\<rparr>
                        | Some v \<Rightarrow> Some v),
             brain_models := brain_models m @
               [\<lparr>index_offset = fst to_slice, index_count = length (bm_name bm),
                 model_type = ''CIFTI_MODEL_TYPE_VOXELS'', brain_structure = name,
                 surface_number_of_vertices = None, voxel_indices_ijk = Some (bm_voxel bm),
                 vertex_indices = None\<rparr>]\<rparr>))"

definition BrainModel_to_mapping :: "string list \<Rightarrow> BrainModel \<Rightarrow> nat \<Rightarrow> error + mim" where
  "BrainModel_to_mapping structures self dim' =
     (case iter_structures structures self of
        Inl e \<Rightarrow> Inl e
      | Inr ys \<Rightarrow>
          bm_to_mapping_loop self ys
            (Cifti2MatrixIndicesMap [dim'] ''CIFTI_INDEX_TYPE_BRAIN_MODELS''))"

text \<open>
  \<^verbatim>\<open>arr[start:stop] = values\<close> on a numpy array: the values must be as many as the
  slice is long, or a single one that is broadcast.
\<close>

definition assign_slice :: "'a list \<Rightarrow> nat \<Rightarrow> nat \<Rightarrow> 'a list \<Rightarrow> error + 'a list" where
  "assign_slice arr start stop vals =
     (let stop' = min stop (length arr); start' = min start stop'; n = stop' - start' in
      if length vals = n then Inr (take start' arr @ vals @ drop stop' arr)
      else if length vals = 1 then Inr (take start' arr @ replicate n (hd vals) @ drop stop' arr)
      else Inl (ValueError ''could not broadcast input array''))"

text \<open>The state of the loop of \<^verbatim>\<open>from_mapping\<close>: the arrays and dictionaries it fills.\<close>

record from_mapping_state =
  fm_voxel :: "voxel list"
  fm_vertex :: "int list"
  fm_name :: "string list"
  fm_nvertices :: "int dict"
  fm_affine :: "affine option"
  fm_shape :: "int list option"

fun bm_from_mapping_loop ::
  "mim \<Rightarrow> cifti_brain_model list \<Rightarrow> from_mapping_state \<Rightarrow> error + from_mapping_state" where
  "bm_from_mapping_loop m [] st = Inr st"
| "bm_from_mapping_loop m (bm # rest) st =
     (let index_end = index_offset bm + index_count bm;
          st1 = st\<lparr>fm_name := fm_name st @ replicate (index_count bm) (brain_structure bm)\<rparr>
      in
      if model_type bm = ''CIFTI_MODEL_TYPE_SURFACE'' then
        (case (vertex_indices bm, surface_number_of_vertices bm) of
           (Some vs, Some n) \<Rightarrow>
             (case assign_slice (fm_vertex st1) (index_offset bm) index_end vs of
                Inl e \<Rightarrow> Inl e
              | Inr vertex \<Rightarrow>
                  bm_from_mapping_loop m rest
                    (st1\<lparr>fm_vertex := vertex,
                         fm_nvertices := AList.update (brain_structure bm) n
                                           (fm_nvertices st1)\<rparr>))
         | _ \<Rightarrow> Inl (ValueError ''surface brain model without vertices''))
      else
        (case voxel_indices_ijk bm of
           None \<Rightarrow> Inl (ValueError ''volume brain model without voxels'')
         | Some vox \<Rightarrow>
             (case assign_slice (fm_voxel st1) (index_offset bm) index_end vox of
                Inl e \<Rightarrow> Inl e
              | Inr voxel \<Rightarrow>
                  (case volume m of
                     None \<Rightarrow> Inl (AttributeError ''NoneType object has no attribute'')
                   | Some v \<Rightarrow>
                       (case fm_affine st1 of
                          None \<Rightarrow>
                            bm_from_mapping_loop m rest
                              (st1\<lparr>fm_voxel := voxel, fm_shape := volume_dimensions v,
                                   fm_affine := transformation_matrix v\<rparr>)
                        | Some a \<Rightarrow>
                            if fm_shape st1 = volume_dimensions v then
                              if transformation_matrix v = Some a
                              then bm_from_mapping_loop m rest (st1\<lparr>fm_voxel := voxel\<rparr>)
                              else Inl (ValueError
                                    ''All volume masks should have the same affine'')
                            else Inl (ValueError
                                  ''All volume masks should be defined in the same volume''))))))"

definition BrainModel_from_mapping :: "string list \<Rightarrow> mim \<Rightarrow> error + BrainModel" where
  "BrainModel_from_mapping structures m =
     (let nbm = sum_list (map index_count (brain_models m)) in
      case bm_from_mapping_loop m (brain_models m)
             \<lparr>fm_voxel = replicate nbm (- 1, - 1, - 1), fm_vertex = replicate nbm (- 1),
              fm_name = [], fm_nvertices = [], fm_affine = None, fm_shape = None\<rparr> of
        Inl e \<Rightarrow> Inl e
      | Inr st \<Rightarrow>
          BrainModel_init structures (NameArray (fm_name st)) (Some (fm_voxel st))
            (Some (fm_vertex st)) (fm_affine st) (fm_shape st) (Some (fm_nvertices st)))"

subsection \<open>\<^verbatim>\<open>Parcels\<close>\<close>

text \<open>
  An entry of the object array \<^verbatim>\<open>self.voxels\<close>: a \<open>(k, 3)\<close> integer array (what
  \<^verbatim>\<open>from_mapping\<close> and \<^verbatim>\<open>from_brain_models\<close> store), or a Python list of \<open>k\<close> index
  triples. The vertex indices of a structure, the values of the dictionaries in
  \<^verbatim>\<open>self.vertices\<close>, are integer arrays.
\<close>

datatype voxel_seq = VoxArray "voxel list" | VoxList "voxel list"

fun seq_voxels :: "voxel_seq \<Rightarrow> voxel list" where
  "seq_voxels (VoxArray v) = v"
| "seq_voxels (VoxList v) = v"

record Parcels =
  pc_name :: "string list"
  pc_voxels :: "voxel_seq list"
  pc_vertices :: "(int list) dict list"
  pc_affine :: "affine option"
  pc_volume_shape :: "int list option"
  pc_nvertices :: "int dict"

text \<open>
  The \<^verbatim>\<open>voxels\<close> argument of the constructor: the \<open>(N, )\<close> object array that the
  docstring asks for, or a nested list of index triples. \<^verbatim>\<open>np.asarray(voxels,
  dtype='object')\<close> returns an object array as it is. It stacks a nested list whose
  sublists are equally long into an array of two or three dimensions (\<open>None\<close> here,
  since the shape check of the constructor then fails), and turns any other nested list
  into an \<open>(N, )\<close> object array of Python lists.
\<close>

datatype voxels_arg = ObjectArray "voxel_seq list" | NestedList "voxel list list"

definition asarray_object :: "voxels_arg \<Rightarrow> voxel_seq list option" where
  "asarray_object voxels =
     (case voxels of
        ObjectArray a \<Rightarrow> Some a
      | NestedList l \<Rightarrow>
          if l = [] then Some []
          else if list_all (\<lambda>x. length x = length (hd l)) l then None
          else Some (map VoxList l))"

text \<open>\<^verbatim>\<open>Parcels.__init__\<close>: the two setters, then the three shape checks
  (\<^verbatim>\<open>shape != (self.size, )\<close> for \<^verbatim>\<open>name\<close>, \<^verbatim>\<open>voxels\<close> and \<^verbatim>\<open>vertices\<close>).\<close>

definition Parcels_init ::
  "string list \<Rightarrow> voxels_arg \<Rightarrow> (int list) dict list \<Rightarrow> affine option \<Rightarrow>
   int list option \<Rightarrow> int dict option \<Rightarrow> error + Parcels" where
  "Parcels_init name voxels vertices affine volume_shape nvertices =
     (case affine_setter affine of
        Inl e \<Rightarrow> Inl e
      | Inr affine' \<Rightarrow>
        case volume_shape_setter volume_shape of
          Inl e \<Rightarrow> Inl e
        | Inr volume_shape' \<Rightarrow>
          case asarray_object voxels of
            None \<Rightarrow> Inl (ValueError ''Input has incorrect shape for Label axis'')
          | Some voxels' \<Rightarrow>
              if list_ex (\<lambda>n. n \<noteq> length name)
                   [length name, length voxels', length vertices]
              then Inl (ValueError ''Input has incorrect shape for Label axis'')
              else Inr \<lparr>pc_name = name, pc_voxels = voxels', pc_vertices = vertices,
                         pc_affine = affine', pc_volume_shape = volume_shape',
                         pc_nvertices = (case nvertices of None \<Rightarrow> [] | Some d \<Rightarrow> d)\<rparr>)"

text \<open>
  \<^verbatim>\<open>(a != b).any()\<close> and \<^verbatim>\<open>(a != b).all()\<close> on two numpy arrays, compared along their
  first axis (a row of an \<open>(n, 3)\<close> array differs from another when a component does).
  Arrays of the same length are compared element by element, an array of length 1 is
  broadcast against the other, and any other pair of lengths raises.
\<close>

definition np_ne :: "'a list \<Rightarrow> 'a list \<Rightarrow> error + bool list" where
  "np_ne a b =
     (if length a = length b then Inr (map2 (\<lambda>x y. x \<noteq> y) a b)
      else if length a = 1 then Inr (map (\<lambda>y. hd a \<noteq> y) b)
      else if length b = 1 then Inr (map (\<lambda>x. x \<noteq> hd b) a)
      else Inl (ValueError ''operands could not be broadcast together''))"

definition np_ne_any :: "'a list \<Rightarrow> 'a list \<Rightarrow> error + bool" where
  "np_ne_any a b = map_sum id (list_ex id) (np_ne a b)"

definition np_ne_all :: "'a list \<Rightarrow> 'a list \<Rightarrow> error + bool" where
  "np_ne_all a b = map_sum id (list_all id) (np_ne a b)"

text \<open>
  \<^verbatim>\<open>(vox1 != vox2).any()\<close> on two entries of the voxel arrays. Two arrays are compared
  by numpy. \<^verbatim>\<open>!=\<close> on two Python lists is a \<^verbatim>\<open>bool\<close>, which has no \<^verbatim>\<open>any\<close>. An array
  against a list converts the list first: a list of triples becomes a \<open>(k, 3)\<close> array,
  the empty list an array of shape \<open>(0, )\<close>, which no \<open>(k, 3)\<close> array is broadcast with.
\<close>

fun voxels_ne_any :: "voxel_seq \<Rightarrow> voxel_seq \<Rightarrow> error + bool" where
  "voxels_ne_any (VoxArray a) (VoxArray b) = np_ne_any a b"
| "voxels_ne_any (VoxList a) (VoxList b) =
     Inl (AttributeError ''bool object has no attribute any'')"
| "voxels_ne_any (VoxArray a) (VoxList b) =
     (if b = [] then Inl (ValueError ''operands could not be broadcast together'')
      else np_ne_any a b)"
| "voxels_ne_any (VoxList a) (VoxArray b) =
     (if a = [] then Inl (ValueError ''operands could not be broadcast together'')
      else np_ne_any a b)"

text \<open>\<^verbatim>\<open>any((vox1 != vox2).any() for vox1, vox2 in zip(self.voxels, other.voxels))\<close>\<close>

fun any_voxels_differ :: "(voxel_seq \<times> voxel_seq) list \<Rightarrow> error + bool" where
  "any_voxels_differ [] = Inr False"
| "any_voxels_differ ((vox1, vox2) # rest) =
     (case voxels_ne_any vox1 vox2 of
        Inl e \<Rightarrow> Inl e
      | Inr True \<Rightarrow> Inr True
      | Inr False \<Rightarrow> any_voxels_differ rest)"

text \<open>The inner loop \<^verbatim>\<open>for name in vert1.keys()\<close> and the outer loop over the parcels of
  \<^verbatim>\<open>Parcels.__eq__\<close>; the result is what \<^verbatim>\<open>__eq__\<close> returns.\<close>

fun vertices_keys_agree :: "string list \<Rightarrow> (int list) dict \<Rightarrow> (int list) dict \<Rightarrow> error + bool"
  where
  "vertices_keys_agree [] vert1 vert2 = Inr True"
| "vertices_keys_agree (name # rest) vert1 vert2 =
     (if name \<notin> set (dict_keys vert2) then Inr False
      else
        (case np_ne_all (the (map_of vert1 name)) (the (map_of vert2 name)) of
           Inl e \<Rightarrow> Inl e
         | Inr True \<Rightarrow> Inr False
         | Inr False \<Rightarrow> vertices_keys_agree rest vert1 vert2))"

fun vertices_agree :: "((int list) dict \<times> (int list) dict) list \<Rightarrow> error + bool" where
  "vertices_agree [] = Inr True"
| "vertices_agree ((vert1, vert2) # rest) =
     (if length vert1 \<noteq> length vert2 then Inr False
      else
        (case vertices_keys_agree (dict_keys vert1) vert1 vert2 of
           Inl e \<Rightarrow> Inl e
         | Inr False \<Rightarrow> Inr False
         | Inr True \<Rightarrow> vertices_agree rest))"

text \<open>\<^verbatim>\<open>abs(a - b).max() > 1e-8\<close> on two \<open>(4, 4)\<close> affines.\<close>

definition affine_far :: "affine \<Rightarrow> affine \<Rightarrow> bool" where
  "affine_far a b = (Max (set (map2 (\<lambda>x y. \<bar>x - y\<bar>) (concat a) (concat b))) > 1 / 10 ^ 8)"

text \<open>\<^verbatim>\<open>Parcels.__eq__\<close> against another \<^verbatim>\<open>Parcels\<close>; \<^verbatim>\<open>or\<close> stops at the first true
  operand.\<close>

definition Parcels_eq :: "Parcels \<Rightarrow> Parcels \<Rightarrow> error + bool" where
  "Parcels_eq self other =
     (if length (pc_name self) \<noteq> length (pc_name other) then Inr False
      else if list_all id (map2 (\<lambda>x y. x \<noteq> y) (pc_name self) (pc_name other)) then Inr False
      else if \<not> dict_eq (pc_nvertices self) (pc_nvertices other) then Inr False
      else
        case any_voxels_differ (zip (pc_voxels self) (pc_voxels other)) of
          Inl e \<Rightarrow> Inl e
        | Inr True \<Rightarrow> Inr False
        | Inr False \<Rightarrow>
            if pc_affine self \<noteq> None \<and>
               (pc_affine other = None \<or>
                affine_far (the (pc_affine self)) (the (pc_affine other)) \<or>
                pc_volume_shape self \<noteq> pc_volume_shape other)
            then Inr False
            else if pc_affine self = None \<and> pc_affine other \<noteq> None then Inr False
            else vertices_agree (zip (pc_vertices self) (pc_vertices other)))"

text \<open>\<^verbatim>\<open>Parcels.to_mapping\<close>\<close>

definition Parcels_to_mapping :: "Parcels \<Rightarrow> nat \<Rightarrow> mim" where
  "Parcels_to_mapping self dim' =
     (Cifti2MatrixIndicesMap [dim'] ''CIFTI_INDEX_TYPE_PARCELS'')
       \<lparr>volume := (case pc_affine self of
                     None \<Rightarrow> None
                   | Some a \<Rightarrow> Some \<lparr>volume_dimensions = pc_volume_shape self,
                                      transformation_matrix = Some a\<rparr>),
        surfaces := pc_nvertices self,
        parcels := map (\<lambda>(name, voxels, vertices).
                          \<lparr>parcel_name = name,
                           parcel_voxel_indices_ijk = Some (seq_voxels voxels),
                           parcel_vertices = vertices\<rparr>)
                     (zip (pc_name self) (zip (pc_voxels self) (pc_vertices self)))\<rparr>"

text \<open>
  \<^verbatim>\<open>Parcels.from_mapping\<close> copies the voxel indices of a parcel into an array of dtype
  \<^verbatim>\<open>'i4'\<close>: the cast of an integer (of at most 64 bits) to a signed 32-bit integer keeps
  its low 32 bits.
\<close>

definition wrap_i4 :: "int \<Rightarrow> int" where
  "wrap_i4 x = (x + 2 ^ 31) mod 2 ^ 32 - 2 ^ 31"

definition i4_voxels :: "voxel list \<Rightarrow> voxel list" where
  "i4_voxels v = map (\<lambda>(i, j, k). (wrap_i4 i, wrap_i4 j, wrap_i4 k)) v"

text \<open>\<^verbatim>\<open>Parcels.from_mapping\<close>: the dictionary of one parcel's vertices, then the axis.\<close>

fun parcel_vertices_dict ::
  "int dict \<Rightarrow> (string \<times> int list) list \<Rightarrow> (int list) dict \<Rightarrow> error + (int list) dict" where
  "parcel_vertices_dict nvertices [] vertices = Inr vertices"
| "parcel_vertices_dict nvertices ((name, idx) # rest) vertices =
     (if name \<notin> set (dict_keys nvertices)
      then Inl (ValueError ''Number of vertices for surface structure not defined'')
      else parcel_vertices_dict nvertices rest (AList.update name idx vertices))"

definition Parcels_from_mapping :: "mim \<Rightarrow> error + Parcels" where
  "Parcels_from_mapping m =
     (let volume_shape = (case volume m of None \<Rightarrow> None | Some v \<Rightarrow> volume_dimensions v);
          affine = (case volume m of None \<Rightarrow> None | Some v \<Rightarrow> transformation_matrix v);
          nvertices = dict_of_items (surfaces m)
      in
      case map_result (\<lambda>p. parcel_vertices_dict nvertices (parcel_vertices p) []) (parcels m) of
        Inl e \<Rightarrow> Inl e
      | Inr all_vertices \<Rightarrow>
          Parcels_init (map parcel_name (parcels m))
            (ObjectArray
               (map (\<lambda>p. VoxArray (case parcel_voxel_indices_ijk p of
                                        None \<Rightarrow> []
                                      | Some v \<Rightarrow> i4_voxels v))
                  (parcels m)))
            all_vertices affine volume_shape (Some nvertices))"

subsection \<open>\<^verbatim>\<open>Scalar\<close> and \<^verbatim>\<open>Label\<close>\<close>

record Scalar =
  sc_name :: "string list"
  sc_meta :: "string dict list"

record Label =
  lb_name :: "string list"
  lb_label :: "label_table list"
  lb_meta :: "string dict list"

definition Scalar_init :: "string list \<Rightarrow> string dict list option \<Rightarrow> error + Scalar" where
  "Scalar_init name meta =
     (let meta' = (case meta of None \<Rightarrow> replicate (length name) [] | Some m \<Rightarrow> m) in
      if list_ex (\<lambda>n. n \<noteq> length name) [length name, length meta']
      then Inl (ValueError ''Input has incorrect shape for Scalar axis'')
      else Inr \<lparr>sc_name = name, sc_meta = meta'\<rparr>)"

definition Label_init ::
  "string list \<Rightarrow> label_table list \<Rightarrow> string dict list \<Rightarrow> error + Label" where
  "Label_init name label meta =
     (if list_ex (\<lambda>n. n \<noteq> length name) [length name, length meta, length label]
      then Inl (ValueError ''Input has incorrect shape for Label axis'')
      else Inr \<lparr>lb_name = name, lb_label = label, lb_meta = meta\<rparr>)"

text \<open>\<^verbatim>\<open>(a == b).all()\<close> on two object arrays of dictionaries of the same length.\<close>

definition dicts_all_eq :: "('k \<times> 'v) list list \<Rightarrow> ('k \<times> 'v) list list \<Rightarrow> bool" where
  "dicts_all_eq a b = list_all (\<lambda>(x, y). dict_eq x y) (zip a b)"

definition Scalar_eq :: "Scalar \<Rightarrow> Scalar \<Rightarrow> bool" where
  "Scalar_eq self other =
     (if length (sc_name self) \<noteq> length (sc_name other) then False
      else sc_name self = sc_name other \<and> dicts_all_eq (sc_meta self) (sc_meta other))"

definition Label_eq :: "Label \<Rightarrow> Label \<Rightarrow> bool" where
  "Label_eq self other =
     (if length (lb_name self) \<noteq> length (lb_name other) then False
      else lb_name self = lb_name other \<and> dicts_all_eq (lb_meta self) (lb_meta other) \<and>
           dicts_all_eq (lb_label self) (lb_label other))"

definition Scalar_to_mapping :: "Scalar \<Rightarrow> nat \<Rightarrow> mim" where
  "Scalar_to_mapping self dim' =
     (Cifti2MatrixIndicesMap [dim'] ''CIFTI_INDEX_TYPE_SCALARS'')
       \<lparr>named_maps := map (\<lambda>(name, meta).
            \<lparr>map_name = name,
             metadata = Some (Cifti2MetaData (if length meta = 0 then None else Some meta)),
             nm_label_table = None\<rparr>)
          (zip (sc_name self) (sc_meta self))\<rparr>"

definition Scalar_from_mapping :: "mim \<Rightarrow> error + Scalar" where
  "Scalar_from_mapping m =
     Scalar_init (map map_name (named_maps m))
       (Some (map (\<lambda>nm. case metadata nm of None \<Rightarrow> [] | Some d \<Rightarrow> dict_of_items d)
                (named_maps m)))"

text \<open>\<^verbatim>\<open>Scalar.to_label\<close> with one table per row (a \<^verbatim>\<open>list\<close>) or one shared table
  (a \<^verbatim>\<open>dict\<close>).\<close>

datatype labels_arg = Tables "label_table list" | SharedTable label_table

definition to_label :: "Scalar \<Rightarrow> labels_arg \<Rightarrow> error + Label" where
  "to_label self labels =
     Label_init (sc_name self)
       (case labels of Tables ts \<Rightarrow> ts
                     | SharedTable t \<Rightarrow> replicate (length (sc_name self)) t)
       (sc_meta self)"

definition Label_to_mapping :: "Label \<Rightarrow> nat \<Rightarrow> mim" where
  "Label_to_mapping self dim' =
     (Cifti2MatrixIndicesMap [dim'] ''CIFTI_INDEX_TYPE_LABELS'')
       \<lparr>named_maps := map (\<lambda>(name, label, meta).
            \<lparr>map_name = name,
             metadata = Some (Cifti2MetaData (if length meta = 0 then None else Some meta)),
             nm_label_table = Some (dict_of_items label)\<rparr>)
          (zip (lb_name self) (zip (lb_label self) (lb_meta self)))\<rparr>"

definition Label_from_mapping :: "mim \<Rightarrow> error + Label" where
  "Label_from_mapping m =
     (case map_result
             (\<lambda>nm. case nm_label_table nm of
                      None \<Rightarrow> Inl (AttributeError ''NoneType object has no attribute items'')
                    | Some t \<Rightarrow> Inr (dict_of_items t))
             (named_maps m) of
        Inl e \<Rightarrow> Inl e
      | Inr tables \<Rightarrow>
          (case Scalar_from_mapping m of
             Inl e \<Rightarrow> Inl e
           | Inr sc \<Rightarrow> to_label sc (Tables tables)))"

subsection \<open>\<^verbatim>\<open>Series\<close>: mapping and equality\<close>

definition Series_to_mapping :: "Series \<Rightarrow> nat \<Rightarrow> mim" where
  "Series_to_mapping self dim' =
     (Cifti2MatrixIndicesMap [dim'] ''CIFTI_INDEX_TYPE_SERIES'')
       \<lparr>series_exponent := Some 0, mim_series_start := Some (series_start self),
        mim_series_step := Some (series_step self),
        number_of_series_points := Some (series_size self),
        mim_series_unit := Some (series_unit self)\<rparr>"

text \<open>\<^verbatim>\<open>10 ** exponent\<close> for an integer exponent.\<close>

definition ten_to :: "int \<Rightarrow> real" where
  "ten_to e = (if e \<ge> 0 then 10 ^ nat e else 1 / 10 ^ nat (- e))"

definition Series_from_mapping :: "mim \<Rightarrow> error + Series" where
  "Series_from_mapping m =
     (case (mim_series_start m, mim_series_step m, series_exponent m,
            number_of_series_points m, mim_series_unit m) of
        (Some start, Some step, Some e, Some n, Some u) \<Rightarrow>
          Series_init (start * ten_to e) (step * ten_to e) n u
      | _ \<Rightarrow> Inl (AttributeError ''series attribute is None''))"

definition Series_eq :: "Series \<Rightarrow> Series \<Rightarrow> bool" where
  "Series_eq self other \<longleftrightarrow>
     series_start self = series_start other \<and> series_step self = series_step other \<and>
     series_size self = series_size other \<and> series_unit self = series_unit other"

subsection \<open>Axes of any kind: \<^verbatim>\<open>__eq__\<close>, \<^verbatim>\<open>to_mapping\<close>, \<^verbatim>\<open>from_mapping\<close>, \<^verbatim>\<open>to_header\<close>\<close>

datatype axis =
    AxBrainModel BrainModel
  | AxParcels Parcels
  | AxScalar Scalar
  | AxLabel Label
  | AxSeries Series

text \<open>\<^verbatim>\<open>a == b\<close>: the \<^verbatim>\<open>__eq__\<close> of the class of \<open>a\<close>, which starts by testing the class
  of \<open>b\<close>.\<close>

fun axis_eq :: "axis \<Rightarrow> axis \<Rightarrow> error + bool" where
  "axis_eq (AxBrainModel a) (AxBrainModel b) = BrainModel_eq a b"
| "axis_eq (AxParcels a) (AxParcels b) = Parcels_eq a b"
| "axis_eq (AxScalar a) (AxScalar b) = Inr (Scalar_eq a b)"
| "axis_eq (AxLabel a) (AxLabel b) = Inr (Label_eq a b)"
| "axis_eq (AxSeries a) (AxSeries b) = Inr (Series_eq a b)"
| "axis_eq _ _ = Inr False"

fun axis_to_mapping :: "string list \<Rightarrow> axis \<Rightarrow> nat \<Rightarrow> error + mim" where
  "axis_to_mapping structures (AxBrainModel a) dim' = BrainModel_to_mapping structures a dim'"
| "axis_to_mapping structures (AxParcels a) dim' = Inr (Parcels_to_mapping a dim')"
| "axis_to_mapping structures (AxScalar a) dim' = Inr (Scalar_to_mapping a dim')"
| "axis_to_mapping structures (AxLabel a) dim' = Inr (Label_to_mapping a dim')"
| "axis_to_mapping structures (AxSeries a) dim' = Inr (Series_to_mapping a dim')"

text \<open>The module function \<^verbatim>\<open>from_mapping\<close>: a dictionary lookup on the type tag, then the
  \<^verbatim>\<open>from_mapping\<close> of the class found.\<close>

definition from_mapping :: "string list \<Rightarrow> mim \<Rightarrow> error + axis" where
  "from_mapping structures m =
     (let t = indices_map_to_data_type m in
      if t = ''CIFTI_INDEX_TYPE_SCALARS'' then map_sum id AxScalar (Scalar_from_mapping m)
      else if t = ''CIFTI_INDEX_TYPE_LABELS'' then map_sum id AxLabel (Label_from_mapping m)
      else if t = ''CIFTI_INDEX_TYPE_SERIES'' then map_sum id AxSeries (Series_from_mapping m)
      else if t = ''CIFTI_INDEX_TYPE_BRAIN_MODELS''
        then map_sum id AxBrainModel (BrainModel_from_mapping structures m)
      else if t = ''CIFTI_INDEX_TYPE_PARCELS'' then map_sum id AxParcels (Parcels_from_mapping m)
      else Inl (KeyError t))"

text \<open>
  An element of the list given to \<^verbatim>\<open>to_header\<close> is a reference to an axis object: the
  pair of the object's identity and its value. \<open>same_axis e ax\<close> is the test that
  \<^verbatim>\<open>ax in axes[:dim]\<close> and \<^verbatim>\<open>axes.index(ax)\<close> apply to each element \<open>e\<close> in turn: the
  identical object, or \<^verbatim>\<open>e == ax\<close>.
\<close>

type_synonym axis_ref = "nat \<times> axis"

definition same_axis :: "axis_ref \<Rightarrow> axis_ref \<Rightarrow> error + bool" where
  "same_axis e ax = (if fst e = fst ax then Inr True else axis_eq (snd e) (snd ax))"

fun contains_axis :: "axis_ref list \<Rightarrow> axis_ref \<Rightarrow> error + bool" where
  "contains_axis [] ax = Inr False"
| "contains_axis (e # es) ax =
     (case same_axis e ax of
        Inl err \<Rightarrow> Inl err
      | Inr True \<Rightarrow> Inr True
      | Inr False \<Rightarrow> contains_axis es ax)"

fun index_axis :: "axis_ref list \<Rightarrow> axis_ref \<Rightarrow> error + nat" where
  "index_axis [] ax = Inl (ValueError ''is not in list'')"
| "index_axis (e # es) ax =
     (case same_axis e ax of
        Inl err \<Rightarrow> Inl err
      | Inr True \<Rightarrow> Inr 0
      | Inr False \<Rightarrow> map_sum id Suc (index_axis es ax))"

text \<open>
  The loop of \<^verbatim>\<open>to_header\<close>. The descriptors are objects shared between \<^verbatim>\<open>mims_all\<close> and
  \<^verbatim>\<open>matrix\<close>: \<open>matrix\<close> is the store that holds them in the order of their creation, and
  \<open>mims_all\<close> holds, for each dimension, the position of its descriptor in the store.
  Appending \<open>dim\<close> to \<^verbatim>\<open>mims_all[dim_prev].applies_to_matrix_dimension\<close> updates the store.
\<close>

fun to_header_loop ::
  "string list \<Rightarrow> axis_ref list \<Rightarrow> nat \<Rightarrow> axis_ref list \<Rightarrow> nat list \<Rightarrow> mim list \<Rightarrow>
   error + (nat list \<times> mim list)" where
  "to_header_loop structures axes dim' [] mims_all matrix = Inr (mims_all, matrix)"
| "to_header_loop structures axes dim' (ax # rest) mims_all matrix =
     (case contains_axis (take dim' axes) ax of
        Inl e \<Rightarrow> Inl e
      | Inr True \<Rightarrow>
          (case index_axis axes ax of
             Inl e \<Rightarrow> Inl e
           | Inr dim_prev \<Rightarrow>
               (let k = mims_all ! dim_prev;
                    m = matrix ! k
                in to_header_loop structures axes (dim' + 1) rest (mims_all @ [k])
                     (matrix[k := m\<lparr>applies_to_matrix_dimension :=
                                      applies_to_matrix_dimension m @ [dim']\<rparr>])))
      | Inr False \<Rightarrow>
          (case axis_to_mapping structures (snd ax) dim' of
             Inl e \<Rightarrow> Inl e
           | Inr m \<Rightarrow>
               to_header_loop structures axes (dim' + 1) rest (mims_all @ [length matrix])
                 (matrix @ [m])))"

text \<open>
  The invariant of the loop after \<open>n\<close> dimensions: every dimension has a descriptor in
  the store, every descriptor in the store belongs to some dimension, each dimension is
  registered on its descriptor, and a dimension shares the descriptor of an earlier one
  exactly when an earlier axis is the same axis for \<open>same_axis\<close>.
\<close>

definition header_inv :: "axis_ref list \<Rightarrow> nat \<Rightarrow> nat list \<Rightarrow> mim list \<Rightarrow> bool" where
  "header_inv axes n mims_all matrix \<longleftrightarrow>
     length mims_all = n \<and> set mims_all = {0..<length matrix} \<and>
     (\<forall>d < n. d \<in> set (applies_to_matrix_dimension (matrix ! (mims_all ! d))) \<and>
        ((\<exists>j<d. mims_all ! j = mims_all ! d) \<longleftrightarrow>
         (\<exists>j<d. same_axis (axes ! j) (axes ! d) = Inr True)))"

text \<open>
  The second invariant pins the result down: a dimension whose axis is the same as an
  earlier one takes the descriptor of the first such axis (\<^verbatim>\<open>axes.index(ax)\<close>); a
  dimension that starts a descriptor appends it to the matrix, so its position is the
  number of descriptors created before, and the descriptor is the \<^verbatim>\<open>to_mapping\<close> of its
  axis with exactly the dimensions registered that were assigned to it, in their order.
\<close>

definition header_built ::
  "string list \<Rightarrow> axis_ref list \<Rightarrow> nat \<Rightarrow> nat list \<Rightarrow> mim list \<Rightarrow> bool" where
  "header_built structures axes n mims_all matrix \<longleftrightarrow>
     (\<forall>d < n. \<forall>j < d.
        same_axis (axes ! j) (axes ! d) = Inr True \<and>
        (\<forall>i < j. same_axis (axes ! i) (axes ! d) \<noteq> Inr True) \<longrightarrow>
        mims_all ! d = mims_all ! j) \<and>
     (\<forall>d < n. (\<forall>j < d. mims_all ! j \<noteq> mims_all ! d) \<longrightarrow>
        mims_all ! d = card (set (take d mims_all)) \<and>
        (\<exists>m. axis_to_mapping structures (snd (axes ! d)) d = Inr m \<and>
             matrix ! (mims_all ! d) =
               m\<lparr>applies_to_matrix_dimension :=
                    filter (\<lambda>e. mims_all ! e = mims_all ! d) [0..<n]\<rparr>))"

text \<open>\<open>to_header_run\<close> returns \<^verbatim>\<open>mims_all\<close> with the matrix; \<open>to_header\<close> is the header,
  which holds the matrix alone.\<close>

definition to_header_run :: "string list \<Rightarrow> axis_ref list \<Rightarrow> error + (nat list \<times> mim list)" where
  "to_header_run structures axes = to_header_loop structures axes 0 axes [] []"

definition to_header :: "string list \<Rightarrow> axis_ref list \<Rightarrow> error + mim list" where
  "to_header structures axes = map_sum id snd (to_header_run structures axes)"

subsection \<open>Example values\<close>

text \<open>The identity affine, and the identity with a translation of one voxel along x:
  the two differ in the single entry of row 0, column 3.\<close>

definition identity_affine :: affine where
  "identity_affine = [[1, 0, 0, 0], [0, 1, 0, 0], [0, 0, 1, 0], [0, 0, 0, 1]]"

definition shifted_affine :: affine where
  "shifted_affine = [[1, 0, 0, 1], [0, 1, 0, 0], [0, 0, 1, 0], [0, 0, 0, 1]]"

text \<open>A one-voxel volumetric axis, a pure surface axis on a surface of five vertices,
  and the axis of the names \<open>[X, X, Y, X]\<close>.\<close>

definition volume_axis :: "affine \<Rightarrow> int list \<Rightarrow> voxel \<Rightarrow> BrainModel" where
  "volume_axis a s v =
     \<lparr>bm_name = [''CIFTI_STRUCTURE_THALAMUS_LEFT''], bm_voxel = [v], bm_vertex = [- 1],
      bm_affine = Some a, bm_volume_shape = Some s, bm_nvertices = []\<rparr>"

definition surface_axis :: "int list \<Rightarrow> BrainModel" where
  "surface_axis vs =
     \<lparr>bm_name = replicate (length vs) ''CIFTI_STRUCTURE_CORTEX_LEFT'',
      bm_voxel = replicate (length vs) (- 1, - 1, - 1), bm_vertex = vs,
      bm_affine = None, bm_volume_shape = None,
      bm_nvertices = [(''CIFTI_STRUCTURE_CORTEX_LEFT'', 5)]\<rparr>"

definition runs_axis :: BrainModel where
  "runs_axis =
     \<lparr>bm_name = [''CIFTI_STRUCTURE_CORTEX_LEFT'', ''CIFTI_STRUCTURE_CORTEX_LEFT'',
                 ''CIFTI_STRUCTURE_CORTEX_RIGHT'', ''CIFTI_STRUCTURE_CORTEX_LEFT''],
      bm_voxel = [(- 1, - 1, - 1), (- 1, - 1, - 1), (- 1, - 1, - 1), (- 1, - 1, - 1)],
      bm_vertex = [0, 1, 0, 2], bm_affine = None, bm_volume_shape = None,
      bm_nvertices = [(''CIFTI_STRUCTURE_CORTEX_LEFT'', 5),
                      (''CIFTI_STRUCTURE_CORTEX_RIGHT'', 5)]\<rparr>"

text \<open>Parcels axes whose voxels are integer arrays: without parcels, with two named
  parcels of one voxel each, with one parcel that lists a surface structure without
  vertices, and with one parcel of the given voxels; and a series of three points.\<close>

definition empty_parcels :: Parcels where
  "empty_parcels = \<lparr>pc_name = [], pc_voxels = [], pc_vertices = [], pc_affine = None,
                     pc_volume_shape = None, pc_nvertices = []\<rparr>"

definition two_parcels :: "string \<Rightarrow> string \<Rightarrow> Parcels" where
  "two_parcels n1 n2 =
     \<lparr>pc_name = [n1, n2], pc_voxels = [VoxArray [(0, 0, 0)], VoxArray [(1, 1, 1)]],
      pc_vertices = [[], []],
      pc_affine = Some identity_affine, pc_volume_shape = Some [2, 2, 2], pc_nvertices = []\<rparr>"

definition one_parcel :: Parcels where
  "one_parcel =
     \<lparr>pc_name = [''p''], pc_voxels = [VoxArray [(0, 0, 0)]],
      pc_vertices = [[(''CIFTI_STRUCTURE_CORTEX_LEFT'', [])]],
      pc_affine = Some identity_affine, pc_volume_shape = Some [2, 2, 2],
      pc_nvertices = [(''CIFTI_STRUCTURE_CORTEX_LEFT'', 5)]\<rparr>"

definition parcel_of :: "voxel list \<Rightarrow> Parcels" where
  "parcel_of vox =
     \<lparr>pc_name = [''a''], pc_voxels = [VoxArray vox], pc_vertices = [[]],
      pc_affine = Some identity_affine, pc_volume_shape = Some [2, 2, 2], pc_nvertices = []\<rparr>"

definition example_series :: Series where
  "example_series = \<lparr>series_start = 0, series_step = 1, series_size = 3, series_unit = ''SECOND''\<rparr>"

section \<open>Properties\<close>

subsection \<open>Strings\<close>

lemma length_lower [simp]: "length (lower s) = length s"
  by (simp add: lower_def)

lemma take_lower: "take n (lower s) = lower (take n s)"
  by (simp add: lower_def take_map)

lemma drop_lower: "drop n (lower s) = lower (drop n s)"
  by (simp add: lower_def drop_map)

subsection \<open>Structure names\<close>

lemma orient_splitI:
  assumes "lower tok = ori" and "ori \<in> set ps" and "sep \<in> {[], ''_'', '' ''}"
    and "name = tok @ sep @ s \<or> name = s @ sep @ tok"
  shows "(ori = ''both'' \<and> s = name \<and>
          list_all (\<lambda>p. \<not> starts_or_ends_with p name) ps) \<or>
         (ori \<in> set ps \<and>
          (\<exists>tok sep. lower tok = ori \<and> sep \<in> {[], ''_'', '' ''} \<and>
             (name = tok @ sep @ s \<or> name = s @ sep @ tok)))"
  using assms by blast

lemma find_orientation_sound:
  assumes "find_orientation name ps = Inr (ori, s)"
  shows "(ori = ''both'' \<and> s = name \<and>
          list_all (\<lambda>p. \<not> starts_or_ends_with p name) ps) \<or>
         (ori \<in> set ps \<and>
          (\<exists>tok sep. lower tok = ori \<and> sep \<in> {[], ''_'', '' ''} \<and>
             (name = tok @ sep @ s \<or> name = s @ sep @ tok)))"
  using assms
proof (induction ps)
  case Nil
  then show ?case by simp
next
  case (Cons p ps)
  let ?idx = "length p"
  let ?n = "length name"
  show ?case
  proof (cases "p = take ?idx (lower name)")
    case True
    note pre = True
    show ?thesis
    proof (cases "?n \<le> ?idx")
      case True
      with pre Cons.prems show ?thesis by simp
    next
      case False
      then have lt: "?idx < ?n" by simp
      have tok: "lower (take ?idx name) = p"
        using pre by (simp add: take_lower)
      show ?thesis
      proof (cases "name ! ?idx \<in> set ''_ ''")
        case True
        with pre lt Cons.prems have r: "ori = p" "s = drop (?idx + 1) name" by auto
        have "name = take ?idx name @ [name ! ?idx] @ drop (?idx + 1) name"
          using lt by (simp add: id_take_nth_drop [symmetric])
        then have 1: "name = take ?idx name @ [name ! ?idx] @ s \<or>
                      name = s @ [name ! ?idx] @ take ?idx name" using r by simp
        have 2: "[name ! ?idx] \<in> {[], ''_'', '' ''}" using True by auto
        show ?thesis using tok r(1) by (intro orient_splitI [OF _ _ 2 1]) simp_all
      next
        case False
        with pre lt Cons.prems have r: "ori = p" "s = drop ?idx name" by auto
        have 1: "name = take ?idx name @ [] @ s \<or> name = s @ [] @ take ?idx name"
          using r by simp
        show ?thesis using tok r(1) by (intro orient_splitI [OF _ _ _ 1]) simp_all
      qed
    qed
  next
    case False
    note npre = False
    show ?thesis
    proof (cases "p = last_chars ?idx (lower name)")
      case True
      note suf = True
      show ?thesis
      proof (cases "?n < ?idx + 1")
        case True
        with npre suf Cons.prems show ?thesis by simp
      next
        case False
        then have ge: "?idx + 1 \<le> ?n" by simp
        have tok: "lower (drop (?n - ?idx) name) = p"
          using suf by (simp add: last_chars_def drop_lower)
        show ?thesis
        proof (cases "name ! (?n - ?idx - 1) \<in> set ''_ ''")
          case True
          with npre suf ge Cons.prems have r: "ori = p" "s = take (?n - ?idx - 1) name"
            by auto
          have "?n - ?idx - 1 < ?n" using ge by simp
          then have "name = take (?n - ?idx - 1) name @ [name ! (?n - ?idx - 1)] @
                       drop (Suc (?n - ?idx - 1)) name"
            by (simp add: id_take_nth_drop [symmetric])
          moreover have "Suc (?n - ?idx - 1) = ?n - ?idx" using ge by simp
          ultimately have "name = take (?n - ?idx - 1) name @ [name ! (?n - ?idx - 1)] @
                       drop (?n - ?idx) name" by simp
          then have 1: "name = drop (?n - ?idx) name @ [name ! (?n - ?idx - 1)] @ s \<or>
                 name = s @ [name ! (?n - ?idx - 1)] @ drop (?n - ?idx) name"
            using r by simp
          have 2: "[name ! (?n - ?idx - 1)] \<in> {[], ''_'', '' ''}" using True by auto
          show ?thesis using tok r(1) by (intro orient_splitI [OF _ _ 2 1]) simp_all
        next
          case False
          with npre suf ge Cons.prems have r: "ori = p" "s = take (?n - ?idx) name"
            by auto
          have 1: "name = drop (?n - ?idx) name @ [] @ s \<or>
                   name = s @ [] @ drop (?n - ?idx) name"
            using r by simp
          show ?thesis using tok r(1) by (intro orient_splitI [OF _ _ _ 1]) simp_all
        qed
      qed
    next
      case False
      with npre Cons.prems have "find_orientation name ps = Inr (ori, s)" by simp
      from Cons.IH [OF this] npre False show ?thesis
        by (auto simp: starts_or_ends_with_def)
    qed
  qed
qed

lemmas str_simps =
  lower_def lower_char_def upper_def upper_char_def lowercase_letters_def
  uppercase_letters_def last_chars_def

lemma lower_orient: "ori \<in> set orient_names \<Longrightarrow> lower ori = ori"
  by (auto simp: orient_names_def str_simps)

lemma find_orientation_skip:
  "\<forall>q \<in> set qs. \<not> starts_or_ends_with q name \<Longrightarrow>
   find_orientation name (qs @ ps) = find_orientation name ps"
  by (induction qs) (auto simp: starts_or_ends_with_def Let_def)

lemma find_orientation_start:
  assumes tok: "lower tok = p" and sep: "sep \<in> {[], ''_'', '' ''}"
    and reg: "sep = [] \<longrightarrow> region \<noteq> [] \<and> hd region \<notin> set ''_ ''"
  shows "find_orientation (tok @ sep @ region) (p # rest) = Inr (p, region)"
proof -
  let ?name = "tok @ sep @ region"
  have len: "length p = length tok" using tok [symmetric] by simp
  have pre: "p = take (length p) (lower ?name)"
    using tok len by (simp add: take_lower)
  show ?thesis
  proof (cases "sep = []")
    case True
    with reg have r: "region \<noteq> []" "hd region \<notin> set ''_ ''" by simp_all
    then have "\<not> length ?name \<le> length p" using len True by simp
    moreover have "?name ! length p = hd region"
      using len True r(1) by (simp add: nth_append hd_conv_nth)
    ultimately show ?thesis using pre r(2) len True by (simp add: Let_def)
  next
    case False
    with sep obtain c where c: "sep = [c]" "c \<in> set ''_ ''" by auto
    have "\<not> length ?name \<le> length p" using len c by simp
    moreover have "?name ! length p = c" using len c by (simp add: nth_append)
    ultimately show ?thesis using pre c len by (simp add: Let_def)
  qed
qed

lemma find_orientation_end:
  assumes tok: "lower tok = p" and sep: "sep \<in> {[], ''_'', '' ''}"
    and reg: "sep = [] \<longrightarrow> region \<noteq> [] \<and> last region \<notin> set ''_ ''"
    and npre: "p \<noteq> take (length p) (lower (region @ sep @ tok))"
  shows "find_orientation (region @ sep @ tok) (p # rest) = Inr (p, region)"
proof -
  let ?name = "region @ sep @ tok"
  have len: "length p = length tok" using tok [symmetric] by simp
  have suf: "p = last_chars (length p) (lower ?name)"
    using tok len by (simp add: last_chars_def drop_lower)
  have ne: "region @ sep \<noteq> []"
  proof
    assume "region @ sep = []"
    then have "?name = tok" by simp
    with npre tok len show False by (simp add: take_lower)
  qed
  then have ge: "\<not> length ?name < length p + 1" using len by (cases "region @ sep") auto
  have idx: "length ?name - length p - 1 = length (region @ sep) - 1" using len by simp
  have at: "?name ! (length ?name - length p - 1) = last (region @ sep)"
    using ne unfolding idx
    by (metis append.assoc diff_less length_greater_0_conv last_conv_nth nth_append zero_less_one)
  show ?thesis
  proof (cases "sep = []")
    case True
    with reg have r: "region \<noteq> []" "last region \<notin> set ''_ ''" by simp_all
    have "take (length ?name - length p) ?name = region" using len True by simp
    then show ?thesis using npre suf ge at r True by (simp add: Let_def)
  next
    case False
    with sep obtain c where c: "sep = [c]" "c \<in> set ''_ ''" by auto
    have "take (length ?name - length p - 1) ?name = region" using len c by simp
    then show ?thesis using npre suf ge at c by (simp add: Let_def)
  qed
qed

lemma orient_names_split:
  assumes "p \<in> set orient_names"
  shows "\<exists>rest. orient_names = takeWhile (\<lambda>q. q \<noteq> p) orient_names @ p # rest"
proof -
  have "dropWhile (\<lambda>q. q \<noteq> p) orient_names \<noteq> []" using assms by (simp add: dropWhile_eq_Nil_conv)
  then obtain x rest where d: "dropWhile (\<lambda>q. q \<noteq> p) orient_names = x # rest"
    by (cases "dropWhile (\<lambda>q. q \<noteq> p) orient_names") auto
  then have "x = p" using hd_dropWhile [of "\<lambda>q. q \<noteq> p" orient_names] by auto
  with d have "orient_names = takeWhile (\<lambda>q. q \<noteq> p) orient_names @ p # rest"
    using takeWhile_dropWhile_id [of "\<lambda>q. q \<noteq> p" orient_names] by simp
  then show ?thesis ..
qed

lemma word_at_start:
  assumes pre: "p = take (length p) (lower name)" and ne: "length name \<noteq> length p"
  shows "\<exists>tok sep region. lower tok = p \<and> sep \<in> {[], ''_'', '' ''} \<and>
           name = tok @ sep @ region \<and>
           (sep = [] \<longrightarrow> region \<noteq> [] \<and> hd region \<notin> set ''_ '')"
proof -
  let ?tok = "take (length p) name"
  let ?rest = "drop (length p) name"
  have "length p = length (take (length p) (lower name))" using pre by simp
  then have "length p \<le> length name" by simp
  with ne have rest: "?rest \<noteq> []" by simp
  have tok: "lower ?tok = p" using pre by (simp add: take_lower)
  show ?thesis
  proof (cases "hd ?rest \<in> set ''_ ''")
    case True
    then have sep: "[hd ?rest] \<in> {[], ''_'', '' ''}" by auto
    have "name = ?tok @ ?rest" by simp
    also have "?rest = [hd ?rest] @ tl ?rest" using rest by simp
    finally have n: "name = ?tok @ [hd ?rest] @ tl ?rest" .
    show ?thesis
      by (rule exI [of _ ?tok], rule exI [of _ "[hd ?rest]"], rule exI [of _ "tl ?rest"])
         (use tok sep n in blast)
  next
    case False
    have n: "name = ?tok @ [] @ ?rest" by simp
    show ?thesis
      by (rule exI [of _ ?tok], rule exI [of _ "[]"], rule exI [of _ ?rest])
         (use tok n rest False in blast)
  qed
qed

lemma word_at_end:
  assumes suf: "p = last_chars (length p) (lower name)"
    and npre: "p \<noteq> take (length p) (lower name)"
  shows "\<exists>tok sep region. lower tok = p \<and> sep \<in> {[], ''_'', '' ''} \<and>
           name = region @ sep @ tok \<and>
           (sep = [] \<longrightarrow> region \<noteq> [] \<and> last region \<notin> set ''_ '') \<and>
           lower tok \<noteq> take (length tok) (lower name)"
proof -
  let ?k = "length name - length p"
  let ?tok = "drop ?k name"
  let ?front = "take ?k name"
  have "length p = length (last_chars (length p) (lower name))" using suf by simp
  then have le: "length p \<le> length name" by (simp add: last_chars_def)
  have tok: "lower ?tok = p" using suf by (simp add: last_chars_def drop_lower)
  have ltok: "length ?tok = length p" using le by simp
  have front: "?front \<noteq> []"
  proof
    assume "?front = []"
    then have "length name = length p" using le by auto
    then have "take (length p) (lower name) = last_chars (length p) (lower name)"
      by (simp add: last_chars_def)
    with suf npre show False by simp
  qed
  have np: "lower ?tok \<noteq> take (length ?tok) (lower name)"
    unfolding tok ltok by (rule npre)
  show ?thesis
  proof (cases "last ?front \<in> set ''_ ''")
    case True
    then have sep: "[last ?front] \<in> {[], ''_'', '' ''}" by auto
    have "name = ?front @ ?tok" by simp
    also have "?front = butlast ?front @ [last ?front]" using front by simp
    finally have n: "name = butlast ?front @ [last ?front] @ ?tok" by simp
    show ?thesis
      by (rule exI [of _ ?tok], rule exI [of _ "[last ?front]"],
          rule exI [of _ "butlast ?front"])
         (use tok sep n np in blast)
  next
    case False
    have n: "name = ?front @ [] @ ?tok" by simp
    show ?thesis
      by (rule exI [of _ ?tok], rule exI [of _ "[]"], rule exI [of _ ?front])
         (use tok n front False np in blast)
  qed
qed

lemma word_cases:
  assumes "starts_or_ends_with p name"
  shows "lower name = p \<or>
         (\<exists>tok sep region. lower tok = p \<and> sep \<in> {[], ''_'', '' ''} \<and>
            (name = tok @ sep @ region \<and>
               (sep = [] \<longrightarrow> region \<noteq> [] \<and> hd region \<notin> set ''_ '') \<or>
             name = region @ sep @ tok \<and>
               (sep = [] \<longrightarrow> region \<noteq> [] \<and> last region \<notin> set ''_ '') \<and>
               lower tok \<noteq> take (length tok) (lower name)))"
proof (cases "p = take (length p) (lower name)")
  case True
  show ?thesis
  proof (cases "length name = length p")
    case eq: True
    with True have "lower name = p" by simp
    then show ?thesis ..
  next
    case False
    from word_at_start [OF True False] show ?thesis by blast
  qed
next
  case False
  with assms have "p = last_chars (length p) (lower name)"
    by (simp add: starts_or_ends_with_def)
  from word_at_end [OF this False] show ?thesis by blast
qed

text \<open>
  Every name falls under one of the three cases that the theorem of claim C10 settles:
  no word starts or ends it, it is nothing but a word, or it is the first word that
  starts or ends it, a separator and a region.
\<close>

lemma free_string_cases:
  "list_all (\<lambda>p. \<not> starts_or_ends_with p name) orient_names \<or>
   lower name \<in> set orient_names \<or>
   (\<exists>tok sep region.
      lower tok \<in> set orient_names \<and> sep \<in> {[], ''_'', '' ''} \<and>
      list_all (\<lambda>q. \<not> starts_or_ends_with q name)
        (takeWhile (\<lambda>q. q \<noteq> lower tok) orient_names) \<and>
      (name = tok @ sep @ region \<and>
         (sep = [] \<longrightarrow> region \<noteq> [] \<and> hd region \<notin> set ''_ '') \<or>
       name = region @ sep @ tok \<and>
         (sep = [] \<longrightarrow> region \<noteq> [] \<and> last region \<notin> set ''_ '') \<and>
         lower tok \<noteq> take (length tok) (lower name)))"
proof -
  consider (l) "starts_or_ends_with ''left'' name"
    | (r) "\<not> starts_or_ends_with ''left'' name" "starts_or_ends_with ''right'' name"
    | (b) "\<not> starts_or_ends_with ''left'' name" "\<not> starts_or_ends_with ''right'' name"
        "starts_or_ends_with ''both'' name"
    | (n) "\<not> starts_or_ends_with ''left'' name" "\<not> starts_or_ends_with ''right'' name"
        "\<not> starts_or_ends_with ''both'' name"
    by blast
  then show ?thesis
  proof cases
    case l
    have tw: "takeWhile (\<lambda>q. q \<noteq> ''left'') orient_names = []"
      by (simp add: orient_names_def)
    have inn: "''left'' \<in> set orient_names" by (simp add: orient_names_def)
    from word_cases [OF l] show ?thesis
    proof
      assume "lower name = ''left''"
      with inn show ?thesis by simp
    next
      assume "\<exists>tok sep region. lower tok = ''left'' \<and> sep \<in> {[], ''_'', '' ''} \<and>
            (name = tok @ sep @ region \<and>
               (sep = [] \<longrightarrow> region \<noteq> [] \<and> hd region \<notin> set ''_ '') \<or>
             name = region @ sep @ tok \<and>
               (sep = [] \<longrightarrow> region \<noteq> [] \<and> last region \<notin> set ''_ '') \<and>
               lower tok \<noteq> take (length tok) (lower name))"
      then obtain tok sep region where t: "lower tok = ''left''" "sep \<in> {[], ''_'', '' ''}"
        "name = tok @ sep @ region \<and>
               (sep = [] \<longrightarrow> region \<noteq> [] \<and> hd region \<notin> set ''_ '') \<or>
             name = region @ sep @ tok \<and>
               (sep = [] \<longrightarrow> region \<noteq> [] \<and> last region \<notin> set ''_ '') \<and>
               lower tok \<noteq> take (length tok) (lower name)" by blast
      have "lower tok \<in> set orient_names" using t(1) inn by simp
      moreover have "list_all (\<lambda>q. \<not> starts_or_ends_with q name)
        (takeWhile (\<lambda>q. q \<noteq> lower tok) orient_names)" unfolding t(1) tw by simp
      ultimately show ?thesis using t(2,3) by blast
    qed
  next
    case r
    have tw: "takeWhile (\<lambda>q. q \<noteq> ''right'') orient_names = [''left'']"
      by (simp add: orient_names_def)
    have inn: "''right'' \<in> set orient_names" by (simp add: orient_names_def)
    from word_cases [OF r(2)] show ?thesis
    proof
      assume "lower name = ''right''"
      with inn show ?thesis by simp
    next
      assume "\<exists>tok sep region. lower tok = ''right'' \<and> sep \<in> {[], ''_'', '' ''} \<and>
            (name = tok @ sep @ region \<and>
               (sep = [] \<longrightarrow> region \<noteq> [] \<and> hd region \<notin> set ''_ '') \<or>
             name = region @ sep @ tok \<and>
               (sep = [] \<longrightarrow> region \<noteq> [] \<and> last region \<notin> set ''_ '') \<and>
               lower tok \<noteq> take (length tok) (lower name))"
      then obtain tok sep region where t: "lower tok = ''right''" "sep \<in> {[], ''_'', '' ''}"
        "name = tok @ sep @ region \<and>
               (sep = [] \<longrightarrow> region \<noteq> [] \<and> hd region \<notin> set ''_ '') \<or>
             name = region @ sep @ tok \<and>
               (sep = [] \<longrightarrow> region \<noteq> [] \<and> last region \<notin> set ''_ '') \<and>
               lower tok \<noteq> take (length tok) (lower name)" by blast
      have "lower tok \<in> set orient_names" using t(1) inn by simp
      moreover have "list_all (\<lambda>q. \<not> starts_or_ends_with q name)
        (takeWhile (\<lambda>q. q \<noteq> lower tok) orient_names)" unfolding t(1) tw using r(1) by simp
      ultimately show ?thesis using t(2,3) by blast
    qed
  next
    case b
    have tw: "takeWhile (\<lambda>q. q \<noteq> ''both'') orient_names = [''left'', ''right'']"
      by (simp add: orient_names_def)
    have inn: "''both'' \<in> set orient_names" by (simp add: orient_names_def)
    from word_cases [OF b(3)] show ?thesis
    proof
      assume "lower name = ''both''"
      with inn show ?thesis by simp
    next
      assume "\<exists>tok sep region. lower tok = ''both'' \<and> sep \<in> {[], ''_'', '' ''} \<and>
            (name = tok @ sep @ region \<and>
               (sep = [] \<longrightarrow> region \<noteq> [] \<and> hd region \<notin> set ''_ '') \<or>
             name = region @ sep @ tok \<and>
               (sep = [] \<longrightarrow> region \<noteq> [] \<and> last region \<notin> set ''_ '') \<and>
               lower tok \<noteq> take (length tok) (lower name))"
      then obtain tok sep region where t: "lower tok = ''both''" "sep \<in> {[], ''_'', '' ''}"
        "name = tok @ sep @ region \<and>
               (sep = [] \<longrightarrow> region \<noteq> [] \<and> hd region \<notin> set ''_ '') \<or>
             name = region @ sep @ tok \<and>
               (sep = [] \<longrightarrow> region \<noteq> [] \<and> last region \<notin> set ''_ '') \<and>
               lower tok \<noteq> take (length tok) (lower name)" by blast
      have "lower tok \<in> set orient_names" using t(1) inn by simp
      moreover have "list_all (\<lambda>q. \<not> starts_or_ends_with q name)
        (takeWhile (\<lambda>q. q \<noteq> lower tok) orient_names)"
        unfolding t(1) tw using b(1,2) by simp
      ultimately show ?thesis using t(2,3) by blast
    qed
  next
    case n
    then have "list_all (\<lambda>p. \<not> starts_or_ends_with p name) orient_names"
      by (simp add: orient_names_def)
    then show ?thesis ..
  qed
qed

text \<open>
  Claim C10. On a free string that is not itself in the vocabulary, the resolver strips
  an orientation word \<^verbatim>\<open>left\<close>, \<^verbatim>\<open>right\<close> or \<^verbatim>\<open>both\<close> (in any letter case) found at
  the start or the end, together with one separating \<^verbatim>\<open>_\<close> or space if there is one,
  upper-cases the remaining region and builds \<^verbatim>\<open>CIFTI_STRUCTURE_<REGION>\<close> (no word, or
  \<^verbatim>\<open>both\<close>) or \<^verbatim>\<open>CIFTI_STRUCTURE_<REGION>_<ORIENTATION>\<close>. The five parts of the
  statement, for every vocabulary that holds the two canonical names of the examples
  and neither of the two free strings:
  \<^item> \<^verbatim>\<open>left_cortex\<close> becomes \<^verbatim>\<open>CIFTI_STRUCTURE_CORTEX_LEFT\<close> and \<^verbatim>\<open>CortexRight\<close> becomes
    \<^verbatim>\<open>CIFTI_STRUCTURE_CORTEX_RIGHT\<close>;
  \<^item> every name that is returned is in the vocabulary and is built from the whole name
    (when no word starts or ends it) or from a region left by stripping a word;
  \<^item> when none of the three words starts or ends the name, the orientation defaults to
    \<^verbatim>\<open>both\<close>: the result is \<^verbatim>\<open>CIFTI_STRUCTURE_<NAME>\<close> if that is in the vocabulary, and a
    \<^verbatim>\<open>ValueError\<close> otherwise;
  \<^item> when the name is a word, a separator (\<^verbatim>\<open>_\<close>, a space or nothing) and a region, or
    the same in the reverse order, the result is the canonical name built from the
    upper-cased region and the word if that is in the vocabulary, and a \<^verbatim>\<open>ValueError\<close>
    otherwise. The words are tried in the order \<^verbatim>\<open>left\<close>, \<^verbatim>\<open>right\<close>, \<^verbatim>\<open>both\<close> and the
    start before the end, so the word must be the first that starts or ends the name,
    and a word at the end must not start the name as well; with no separator the
    region is not empty and has no \<^verbatim>\<open>_\<close> or space next to the word (the code would
    strip it);
  \<^item> a name that is nothing but one of the three words raises \<^verbatim>\<open>IndexError\<close>.

  By \<open>free_string_cases\<close> the last three parts give the result for every free string.
\<close>

theorem to_cifti_brain_structure_name_free_string:
  assumes "''CIFTI_STRUCTURE_CORTEX_LEFT'' \<in> set structures"
    and "''CIFTI_STRUCTURE_CORTEX_RIGHT'' \<in> set structures"
    and "''left_cortex'' \<notin> set structures"
    and "''CortexRight'' \<notin> set structures"
  shows "to_cifti_brain_structure_name structures (NameStr ''left_cortex'') =
           Inr ''CIFTI_STRUCTURE_CORTEX_LEFT'' \<and>
         to_cifti_brain_structure_name structures (NameStr ''CortexRight'') =
           Inr ''CIFTI_STRUCTURE_CORTEX_RIGHT'' \<and>
         (\<forall>name r. name \<notin> set structures \<longrightarrow>
            to_cifti_brain_structure_name structures (NameStr name) = Inr r \<longrightarrow>
            r \<in> set structures \<and>
            (r = ''CIFTI_STRUCTURE_'' @ upper name \<and>
             list_all (\<lambda>p. \<not> starts_or_ends_with p name) orient_names \<or>
             (\<exists>tok sep region.
                lower tok \<in> set orient_names \<and> sep \<in> {[], ''_'', '' ''} \<and>
                (name = tok @ sep @ region \<or> name = region @ sep @ tok) \<and>
                r = (if lower tok = ''both'' then ''CIFTI_STRUCTURE_'' @ upper region
                     else ''CIFTI_STRUCTURE_'' @ upper region @ ''_'' @ upper (lower tok))))) \<and>
         (\<forall>name. name \<notin> set structures \<longrightarrow>
            list_all (\<lambda>p. \<not> starts_or_ends_with p name) orient_names \<longrightarrow>
            to_cifti_brain_structure_name structures (NameStr name) =
              (if ''CIFTI_STRUCTURE_'' @ upper name \<in> set structures
               then Inr (''CIFTI_STRUCTURE_'' @ upper name)
               else Inl (ValueError ''not a valid CIFTI brain structure''))) \<and>
         (\<forall>name tok sep region. name \<notin> set structures \<longrightarrow>
            lower tok \<in> set orient_names \<longrightarrow> sep \<in> {[], ''_'', '' ''} \<longrightarrow>
            list_all (\<lambda>q. \<not> starts_or_ends_with q name)
              (takeWhile (\<lambda>q. q \<noteq> lower tok) orient_names) \<longrightarrow>
            (name = tok @ sep @ region \<and>
               (sep = [] \<longrightarrow> region \<noteq> [] \<and> hd region \<notin> set ''_ '') \<or>
             name = region @ sep @ tok \<and>
               (sep = [] \<longrightarrow> region \<noteq> [] \<and> last region \<notin> set ''_ '') \<and>
               lower tok \<noteq> take (length tok) (lower name)) \<longrightarrow>
            to_cifti_brain_structure_name structures (NameStr name) =
              (let r = (if lower tok = ''both'' then ''CIFTI_STRUCTURE_'' @ upper region
                        else ''CIFTI_STRUCTURE_'' @ upper region @ ''_'' @ upper (lower tok))
               in if r \<in> set structures then Inr r
                  else Inl (ValueError ''not a valid CIFTI brain structure''))) \<and>
         (\<forall>name. name \<notin> set structures \<longrightarrow> lower name \<in> set orient_names \<longrightarrow>
            to_cifti_brain_structure_name structures (NameStr name) =
              Inl (IndexError ''string index out of range''))"
proof (intro conjI allI impI)
  have "find_orientation ''left_cortex'' orient_names = Inr (''left'', ''cortex'')"
    by (simp add: orient_names_def str_simps)
  then show "to_cifti_brain_structure_name structures (NameStr ''left_cortex'') =
           Inr ''CIFTI_STRUCTURE_CORTEX_LEFT''"
    using assms
    by (simp add: to_cifti_brain_structure_name_def check_proposed_def proposed_name_def
        str_simps)
next
  have "find_orientation ''CortexRight'' orient_names = Inr (''right'', ''Cortex'')"
    by (simp add: orient_names_def str_simps)
  then show "to_cifti_brain_structure_name structures (NameStr ''CortexRight'') =
           Inr ''CIFTI_STRUCTURE_CORTEX_RIGHT''"
    using assms
    by (simp add: to_cifti_brain_structure_name_def check_proposed_def proposed_name_def
        str_simps)
next
  fix name r
  assume nin: "name \<notin> set structures"
    and res: "to_cifti_brain_structure_name structures (NameStr name) = Inr r"
  from nin res obtain ori s where fo: "find_orientation name orient_names = Inr (ori, s)"
    and chk: "check_proposed structures s ori = Inr r"
    by (auto simp: to_cifti_brain_structure_name_def split: sum.splits)
  from chk have r: "r = proposed_name s ori" and rin: "r \<in> set structures"
    by (auto simp: check_proposed_def split: if_splits)
  show "r \<in> set structures" by (rule rin)
  from find_orientation_sound [OF fo]
  show "r = ''CIFTI_STRUCTURE_'' @ upper name \<and>
             list_all (\<lambda>p. \<not> starts_or_ends_with p name) orient_names \<or>
             (\<exists>tok sep region.
                lower tok \<in> set orient_names \<and> sep \<in> {[], ''_'', '' ''} \<and>
                (name = tok @ sep @ region \<or> name = region @ sep @ tok) \<and>
                r = (if lower tok = ''both'' then ''CIFTI_STRUCTURE_'' @ upper region
                     else ''CIFTI_STRUCTURE_'' @ upper region @ ''_'' @ upper (lower tok)))"
  proof
    assume d: "ori = ''both'' \<and> s = name \<and>
          list_all (\<lambda>p. \<not> starts_or_ends_with p name) orient_names"
    then have "r = ''CIFTI_STRUCTURE_'' @ upper name"
      using r by (simp add: proposed_name_def str_simps)
    with d show ?thesis by simp
  next
    assume a: "ori \<in> set orient_names \<and>
          (\<exists>tok sep. lower tok = ori \<and> sep \<in> {[], ''_'', '' ''} \<and>
             (name = tok @ sep @ s \<or> name = s @ sep @ tok))"
    then obtain tok sep where t: "lower tok = ori" "sep \<in> {[], ''_'', '' ''}"
      "name = tok @ sep @ s \<or> name = s @ sep @ tok" by blast
    from a have lo: "lower ori = ori" by (simp add: lower_orient)
    have rr: "r = (if lower tok = ''both'' then ''CIFTI_STRUCTURE_'' @ upper s
                     else ''CIFTI_STRUCTURE_'' @ upper s @ ''_'' @ upper (lower tok))"
      unfolding r proposed_name_def t(1) lo by (rule refl)
    have tin: "lower tok \<in> set orient_names" using a t(1) by simp
    show ?thesis
      by (rule disjI2, rule exI [of _ tok], rule exI [of _ sep], rule exI [of _ s])
         (intro conjI tin t rr)
  qed
next
  fix name
  assume nin: "name \<notin> set structures"
    and none: "list_all (\<lambda>p. \<not> starts_or_ends_with p name) orient_names"
  from none have "\<forall>q \<in> set orient_names. \<not> starts_or_ends_with q name"
    by (simp add: list_all_iff)
  from find_orientation_skip [OF this, of "[]"]
  have fo: "find_orientation name orient_names = Inr (''both'', name)" by simp
  have pn: "proposed_name name ''both'' = ''CIFTI_STRUCTURE_'' @ upper name"
    by (simp add: proposed_name_def str_simps)
  show "to_cifti_brain_structure_name structures (NameStr name) =
              (if ''CIFTI_STRUCTURE_'' @ upper name \<in> set structures
               then Inr (''CIFTI_STRUCTURE_'' @ upper name)
               else Inl (ValueError ''not a valid CIFTI brain structure''))"
    using nin by (simp add: to_cifti_brain_structure_name_def fo check_proposed_def pn)
next
  fix name tok sep region
  assume nin: "name \<notin> set structures"
    and tin: "lower tok \<in> set orient_names"
    and sep: "sep \<in> {[], ''_'', '' ''}"
    and first: "list_all (\<lambda>q. \<not> starts_or_ends_with q name)
              (takeWhile (\<lambda>q. q \<noteq> lower tok) orient_names)"
    and split: "name = tok @ sep @ region \<and>
               (sep = [] \<longrightarrow> region \<noteq> [] \<and> hd region \<notin> set ''_ '') \<or>
             name = region @ sep @ tok \<and>
               (sep = [] \<longrightarrow> region \<noteq> [] \<and> last region \<notin> set ''_ '') \<and>
               lower tok \<noteq> take (length tok) (lower name)"
  let ?p = "lower tok"
  from orient_names_split [OF tin] obtain rest where
    on: "orient_names = takeWhile (\<lambda>q. q \<noteq> ?p) orient_names @ ?p # rest" ..
  from first have "\<forall>q \<in> set (takeWhile (\<lambda>q. q \<noteq> ?p) orient_names).
      \<not> starts_or_ends_with q name"
    by (simp add: list_all_iff)
  from find_orientation_skip [OF this, of "?p # rest"] on
  have skip: "find_orientation name orient_names = find_orientation name (?p # rest)" by simp
  have "find_orientation name (?p # rest) = Inr (?p, region)"
  proof -
    from split show ?thesis
    proof
      assume a: "name = tok @ sep @ region \<and>
               (sep = [] \<longrightarrow> region \<noteq> [] \<and> hd region \<notin> set ''_ '')"
      then have n: "name = tok @ sep @ region" by simp
      show ?thesis unfolding n
        using refl sep a [THEN conjunct2] by (rule find_orientation_start)
    next
      assume a: "name = region @ sep @ tok \<and>
               (sep = [] \<longrightarrow> region \<noteq> [] \<and> last region \<notin> set ''_ '') \<and>
               lower tok \<noteq> take (length tok) (lower name)"
      then have n: "name = region @ sep @ tok" by simp
      from a have "lower tok \<noteq> take (length tok) (lower name)" by (elim conjE)
      then have np: "lower tok \<noteq> take (length (lower tok)) (lower (region @ sep @ tok))"
        unfolding n by simp
      show ?thesis unfolding n
        using refl sep a [THEN conjunct2, THEN conjunct1] np by (rule find_orientation_end)
    qed
  qed
  with skip have fo: "find_orientation name orient_names = Inr (?p, region)" by simp
  have lo: "lower ?p = ?p" using tin by (rule lower_orient)
  show "to_cifti_brain_structure_name structures (NameStr name) =
              (let r = (if lower tok = ''both'' then ''CIFTI_STRUCTURE_'' @ upper region
                        else ''CIFTI_STRUCTURE_'' @ upper region @ ''_'' @ upper (lower tok))
               in if r \<in> set structures then Inr r
                  else Inl (ValueError ''not a valid CIFTI brain structure''))"
    using nin
    by (simp add: to_cifti_brain_structure_name_def fo check_proposed_def proposed_name_def lo
        Let_def)
next
  fix name
  assume nin: "name \<notin> set structures" and lin: "lower name \<in> set orient_names"
  have len: "length (lower name) = length name" by simp
  from lin consider "lower name = ''left''" | "lower name = ''right''" | "lower name = ''both''"
    by (auto simp: orient_names_def)
  then have "find_orientation name orient_names = Inl (IndexError ''string index out of range'')"
  proof cases
    case 1
    moreover from 1 have "length name = 4" using len by simp
    ultimately show ?thesis by (simp add: orient_names_def Let_def)
  next
    case 2
    moreover from 2 have "length name = 5" using len by simp
    ultimately show ?thesis by (simp add: orient_names_def Let_def last_chars_def)
  next
    case 3
    moreover from 3 have "length name = 4" using len by simp
    ultimately show ?thesis by (simp add: orient_names_def Let_def last_chars_def)
  qed
  then show "to_cifti_brain_structure_name structures (NameStr name) =
              Inl (IndexError ''string index out of range'')"
    using nin by (simp add: to_cifti_brain_structure_name_def)
qed

text \<open>The theorem at the example vocabulary: the two examples of the claim, a name
  without a word, a word before a space, the word \<^verbatim>\<open>both\<close> after \<^verbatim>\<open>_\<close>, and a bare word.\<close>

theorem to_cifti_brain_structure_name_free_string_witness:
  "to_cifti_brain_structure_name example_structures (NameStr ''left_cortex'') =
           Inr ''CIFTI_STRUCTURE_CORTEX_LEFT'' \<and>
   to_cifti_brain_structure_name example_structures (NameStr ''CortexRight'') =
           Inr ''CIFTI_STRUCTURE_CORTEX_RIGHT'' \<and>
   to_cifti_brain_structure_name example_structures (NameStr ''Cortex'') =
           Inr ''CIFTI_STRUCTURE_CORTEX'' \<and>
   to_cifti_brain_structure_name example_structures (NameStr ''right cortex'') =
           Inr ''CIFTI_STRUCTURE_CORTEX_RIGHT'' \<and>
   to_cifti_brain_structure_name example_structures (NameStr ''cortex_both'') =
           Inr ''CIFTI_STRUCTURE_CORTEX'' \<and>
   to_cifti_brain_structure_name example_structures (NameStr ''Left'') =
           Inl (IndexError ''string index out of range'')"
proof -
  note t = to_cifti_brain_structure_name_free_string [of example_structures]
  have a: "''CIFTI_STRUCTURE_CORTEX_LEFT'' \<in> set example_structures"
    "''CIFTI_STRUCTURE_CORTEX_RIGHT'' \<in> set example_structures"
    "''left_cortex'' \<notin> set example_structures"
    "''CortexRight'' \<notin> set example_structures"
    by (simp_all add: example_structures_def)
  note c = t [OF a]
  have 1: "to_cifti_brain_structure_name example_structures (NameStr ''left_cortex'') =
           Inr ''CIFTI_STRUCTURE_CORTEX_LEFT''"
    by (rule c [THEN conjunct1])
  have 2: "to_cifti_brain_structure_name example_structures (NameStr ''CortexRight'') =
           Inr ''CIFTI_STRUCTURE_CORTEX_RIGHT''"
    by (rule c [THEN conjunct2, THEN conjunct1])
  have 3: "to_cifti_brain_structure_name example_structures (NameStr ''Cortex'') =
           Inr ''CIFTI_STRUCTURE_CORTEX''"
    using c [THEN conjunct2, THEN conjunct2, THEN conjunct2, THEN conjunct1, rule_format,
        of "''Cortex''"]
    by (simp add: example_structures_def orient_names_def starts_or_ends_with_def str_simps)
  have 4: "to_cifti_brain_structure_name example_structures (NameStr ''right cortex'') =
           Inr ''CIFTI_STRUCTURE_CORTEX_RIGHT''"
    using c [THEN conjunct2, THEN conjunct2, THEN conjunct2, THEN conjunct2, THEN conjunct1,
        rule_format, of "''right cortex''" "''right''" "'' ''" "''cortex''"]
    by (simp add: example_structures_def orient_names_def starts_or_ends_with_def str_simps)
  have 5: "to_cifti_brain_structure_name example_structures (NameStr ''cortex_both'') =
           Inr ''CIFTI_STRUCTURE_CORTEX''"
    using c [THEN conjunct2, THEN conjunct2, THEN conjunct2, THEN conjunct2, THEN conjunct1,
        rule_format, of "''cortex_both''" "''both''" "''_''" "''cortex''"]
    by (simp add: example_structures_def orient_names_def starts_or_ends_with_def str_simps)
  have 6: "to_cifti_brain_structure_name example_structures (NameStr ''Left'') =
           Inl (IndexError ''string index out of range'')"
    using c [THEN conjunct2, THEN conjunct2, THEN conjunct2, THEN conjunct2, THEN conjunct2,
        rule_format, of "''Left''"]
    by (simp add: example_structures_def orient_names_def str_simps)
  from 1 2 3 4 5 6 show ?thesis by (intro conjI)
qed

subsection \<open>Series\<close>

lemma upper_SECOND: "upper ''SECOND'' = ''SECOND''"
  by (simp add: str_simps)

text \<open>
  Claim C6 at the input \<^verbatim>\<open>Series(0, 1, 3).get_element(-5)\<close>: the index \<open>3 + (-5) = -2\<close>
  lies outside \<open>[0, 3)\<close>, yet no \<^verbatim>\<open>IndexError\<close> is raised; the call returns
  \<open>0 + 1 * (-2) = -2\<close>. Only \<^verbatim>\<open>index >= self.size\<close> is tested after the shift.
\<close>

theorem Series_get_element_below_range:
  "Series_init 0 1 3 ''SECOND'' =
     Inr \<lparr>series_start = 0, series_step = 1, series_size = 3, series_unit = ''SECOND''\<rparr> \<and>
   Series_get_element
     \<lparr>series_start = 0, series_step = 1, series_size = 3, series_unit = ''SECOND''\<rparr> (- 5) =
     Inr (- 2)"
  by (simp add: Series_init_def Series_get_element_def upper_SECOND)

text \<open>
  Claim C5 at the input \<^verbatim>\<open>Series(0, 2, 5)[0:5:2]\<close>: standard slice semantics select
  the three positions 0, 2 and 4, but the axis returned has size
  \<open>(5 - 0) div 2 = 2\<close>: the count is a floor division where the number of selected
  elements is the ceiling.
\<close>

theorem Series_getitem_stride_size:
  "Series_init 0 2 5 ''SECOND'' =
     Inr \<lparr>series_start = 0, series_step = 2, series_size = 5, series_unit = ''SECOND''\<rparr> \<and>
   Series_getitem
     \<lparr>series_start = 0, series_step = 2, series_size = 5, series_unit = ''SECOND''\<rparr>
     (Slice (Some 0) (Some 5) (Some 2)) =
     Inr (SubSeries
       \<lparr>series_start = 0, series_step = 4, series_size = 2, series_unit = ''SECOND''\<rparr>) \<and>
   standard_slice_indices 5 (Slice (Some 0) (Some 5) (Some 2)) = Some [0, 2, 4]"
  by (simp add: Series_init_def Series_getitem_def upper_SECOND standard_slice_indices_def
      standard_slice_length_def standard_slice_bounds_def upt_rec)

subsection \<open>Dictionaries, names and masks\<close>

lemma dict_eq_iff: "dict_eq d1 d2 \<longleftrightarrow> map_of d1 = map_of d2"
proof
  assume a: "dict_eq d1 d2"
  show "map_of d1 = map_of d2"
  proof
    fix k
    show "map_of d1 k = map_of d2 k"
    proof (cases "k \<in> set (dict_keys d1) \<union> set (dict_keys d2)")
      case True
      with a show ?thesis by (auto simp: dict_eq_def list_all_iff)
    next
      case False
      then have "map_of d1 k = None" "map_of d2 k = None"
        by (simp_all add: dict_keys_def map_of_eq_None_iff)
      then show ?thesis by simp
    qed
  qed
next
  assume "map_of d1 = map_of d2"
  then show "dict_eq d1 d2" by (simp add: dict_eq_def list_all_iff)
qed

lemma dict_eq_keys: "dict_eq d1 d2 \<Longrightarrow> set (dict_keys d1) = set (dict_keys d2)"
proof -
  assume "dict_eq d1 d2"
  then have "dom (map_of d1) = dom (map_of d2)" by (simp add: dict_eq_iff)
  then show ?thesis by (simp add: dom_map_of_conv_image_fst dict_keys_def)
qed

lemma map_result_Inr:
  "map_result f xs = Inr ys \<Longrightarrow> list_all2 (\<lambda>x y. f x = Inr y) xs ys"
  by (induction xs arbitrary: ys) (auto split: sum.splits)

lemma map_result_id:
  "(\<And>x. x \<in> set xs \<Longrightarrow> f x = Inr x) \<Longrightarrow> map_result f xs = Inr xs"
  by (induction xs) auto

lemma to_cifti_in_structures:
  "to_cifti_brain_structure_name structures (NameStr n) = Inr r \<Longrightarrow> r \<in> set structures"
  by (auto simp: to_cifti_brain_structure_name_def check_proposed_def
      split: if_splits sum.splits prod.splits)

lemma to_cifti_known:
  "n \<in> set structures \<Longrightarrow> to_cifti_brain_structure_name structures (NameStr n) = Inr n"
  by (simp add: to_cifti_brain_structure_name_def)

lemma name_setter_known:
  "set ns \<subseteq> set structures \<Longrightarrow> name_setter structures ns = Inr ns"
  unfolding name_setter_def by (rule map_result_id) (auto simp: to_cifti_known)

lemma name_setter_Inr:
  assumes "name_setter structures ns = Inr names"
  shows "set names \<subseteq> set structures" and "length names = length ns"
proof -
  from assms have l: "list_all2 (\<lambda>x y. to_cifti_brain_structure_name structures (NameStr x) = Inr y) ns names"
    unfolding name_setter_def by (rule map_result_Inr)
  then show "length names = length ns" by (simp add: list_all2_lengthD)
  show "set names \<subseteq> set structures"
  proof
    fix y assume "y \<in> set names"
    then obtain i where "i < length names" "names ! i = y" by (auto simp: in_set_conv_nth)
    with l have "to_cifti_brain_structure_name structures (NameStr (ns ! i)) = Inr y"
      by (auto simp: list_all2_conv_all_nth)
    then show "y \<in> set structures" by (rule to_cifti_in_structures)
  qed
qed

lemma fold_delete_filter:
  "fold (\<lambda>k d. if P k then AList.delete k d else d) ks d =
     filter (\<lambda>(k, v). \<not> (k \<in> set ks \<and> P k)) d"
proof (induction ks arbitrary: d)
  case Nil
  then show ?case by simp
next
  case (Cons k ks)
  show ?case
    by (auto simp: Cons.IH AList.delete_eq intro!: filter_cong)
qed

lemma prune_nvertices_filter:
  "prune_nvertices names nv = filter (\<lambda>(k, v). k \<in> set names) nv"
  unfolding prune_nvertices_def fold_delete_filter
  by (rule filter_cong) (auto simp: dict_keys_def rev_image_eqI)

lemma prune_keys:
  "set (dict_keys (prune_nvertices names nv)) = set (dict_keys nv) \<inter> set names"
  by (auto simp: prune_nvertices_filter dict_keys_def rev_image_eqI)

lemma prune_idem:
  "set ms \<subseteq> set ns \<Longrightarrow> prune_nvertices ms (prune_nvertices ns nv) = prune_nvertices ms nv"
  by (auto simp: prune_nvertices_filter intro!: filter_cong)

lemma mask_select_set:
  "length m = length xs \<Longrightarrow>
   set (map snd (filter fst (zip m xs))) = {xs ! i | i. i < length xs \<and> m ! i}"
  by (auto simp: set_zip image_iff) force

lemma mask_select_eq_iff:
  "length m = length xs \<Longrightarrow> length xs = length ys \<Longrightarrow>
   map snd (filter fst (zip m xs)) = map snd (filter fst (zip m ys)) \<longleftrightarrow>
   (\<forall>i < length m. m ! i \<longrightarrow> xs ! i = ys ! i)"
proof (induction m xs ys rule: list_induct3)
  case Nil
  then show ?case by simp
next
  case (Cons b m x xs y ys)
  then show ?case by (auto simp: nth_Cons split: nat.splits) 
qed

subsection \<open>The constructor of \<^verbatim>\<open>BrainModel\<close>\<close>

lemma surface_mask_prune:
  "surface_mask (prune_nvertices ns nv) ns = surface_mask nv ns"
  by (simp add: surface_mask_def prune_keys)

lemma length_surface_mask [simp]: "length (surface_mask nv ns) = length ns"
  by (simp add: surface_mask_def)

lemma nth_surface_mask:
  "i < length ns \<Longrightarrow> surface_mask nv ns ! i \<longleftrightarrow> ns ! i \<in> set (dict_keys nv)"
  by (simp add: surface_mask_def)

lemma all_surface_iff:
  "list_all id (surface_mask nv ns) \<longleftrightarrow> set ns \<subseteq> set (dict_keys nv)"
  by (auto simp: surface_mask_def list_all_iff)

lemma mask_select_ex:
  "length m = length xs \<Longrightarrow>
   list_ex P (map snd (filter fst (zip m xs))) \<longleftrightarrow> (\<exists>i < length xs. m ! i \<and> P (xs ! i))"
  unfolding list_ex_iff by (subst mask_select_set) auto

lemma init_Inr_E:
  assumes "BrainModel_init structures name voxel vertex affine volume_shape nvertices = Inr bm"
  obtains name' names vox vert aff shp where
    "name_setter structures name' = Inr names"
    "names \<noteq> []"
    "(if list_all id (surface_mask (prune_nvertices names (case nvertices of None \<Rightarrow> [] | Some d \<Rightarrow> d)) names)
      then Inr None else affine_setter affine) = Inr aff"
    "(if list_all id (surface_mask (prune_nvertices names (case nvertices of None \<Rightarrow> [] | Some d \<Rightarrow> d)) names)
      then Inr None else volume_shape_setter volume_shape) = Inr shp"
    "length vox = length names" "length vert = length names"
    "\<not> list_ex (\<lambda>v. v < 0) (map snd (filter fst (zip (surface_mask (prune_nvertices names (case nvertices of None \<Rightarrow> [] | Some d \<Rightarrow> d)) names) vert)))"
    "\<not> list_ex voxel_negative (map snd (filter fst (zip (map Not (surface_mask (prune_nvertices names (case nvertices of None \<Rightarrow> [] | Some d \<Rightarrow> d)) names)) vox)))"
    "bm = \<lparr>bm_name = names, bm_voxel = vox, bm_vertex = vert, bm_affine = aff,
            bm_volume_shape = shp,
            bm_nvertices = prune_nvertices names (case nvertices of None \<Rightarrow> [] | Some d \<Rightarrow> d)\<rparr>"
  using assms
  unfolding BrainModel_init_def Let_def is_surface_def mask_select_def
  by (auto split: if_splits sum.splits)

lemma affine_setter_Inr: "affine_setter a = Inr b \<Longrightarrow> b = a"
  by (auto simp: affine_setter_def split: option.splits if_splits)

lemma volume_shape_setter_Inr: "volume_shape_setter a = Inr b \<Longrightarrow> b = a"
  by (auto simp: volume_shape_setter_def split: option.splits if_splits)

lemma affine_setter_None [simp]: "affine_setter None = Inr None"
  by (simp add: affine_setter_def)

lemma volume_shape_setter_None [simp]: "volume_shape_setter None = Inr None"
  by (simp add: volume_shape_setter_def)

lemma init_Inr_D:
  assumes "BrainModel_init structures name voxel vertex affine volume_shape nvertices = Inr bm"
  shows "bm_valid structures bm"
    and "bm_nvertices bm =
           prune_nvertices (bm_name bm) (case nvertices of None \<Rightarrow> [] | Some d \<Rightarrow> d)"
    and "list_all id (surface_mask (bm_nvertices bm) (bm_name bm)) \<Longrightarrow>
         bm_affine bm = None \<and> bm_volume_shape bm = None"
    and "\<not> list_all id (surface_mask (bm_nvertices bm) (bm_name bm)) \<Longrightarrow>
         bm_affine bm = affine \<and> bm_volume_shape bm = volume_shape"
proof -
  define nv0 where "nv0 = (case nvertices of None \<Rightarrow> [] | Some d \<Rightarrow> d)"
  from assms obtain name' names vox vert aff shp where
    ns: "name_setter structures name' = Inr names"
    and ne: "names \<noteq> []"
    and aff: "(if list_all id (surface_mask (prune_nvertices names nv0) names)
      then Inr None else affine_setter affine) = Inr aff"
    and shp: "(if list_all id (surface_mask (prune_nvertices names nv0) names)
      then Inr None else volume_shape_setter volume_shape) = Inr shp"
    and len: "length vox = length names" "length vert = length names"
    and vert: "\<not> list_ex (\<lambda>v. v < 0) (map snd (filter fst (zip (surface_mask (prune_nvertices names nv0) names) vert)))"
    and vox: "\<not> list_ex voxel_negative (map snd (filter fst (zip (map Not (surface_mask (prune_nvertices names nv0) names)) vox)))"
    and bm: "bm = \<lparr>bm_name = names, bm_voxel = vox, bm_vertex = vert, bm_affine = aff,
            bm_volume_shape = shp, bm_nvertices = prune_nvertices names nv0\<rparr>"
    unfolding nv0_def by (rule init_Inr_E)
  let ?m = "surface_mask (prune_nvertices names nv0) names"
  show nv: "bm_nvertices bm =
           prune_nvertices (bm_name bm) (case nvertices of None \<Rightarrow> [] | Some d \<Rightarrow> d)"
    by (simp add: bm nv0_def)
  show allsurf: "bm_affine bm = None \<and> bm_volume_shape bm = None"
    if "list_all id (surface_mask (bm_nvertices bm) (bm_name bm))"
    using that aff shp by (simp add: bm)
  show "bm_affine bm = affine \<and> bm_volume_shape bm = volume_shape"
    if "\<not> list_all id (surface_mask (bm_nvertices bm) (bm_name bm))"
    using that aff shp by (auto simp: bm dest: affine_setter_Inr volume_shape_setter_Inr)
  have a1: "affine_setter aff = Inr aff"
    using aff by (auto split: if_splits dest: affine_setter_Inr)
  have s1: "volume_shape_setter shp = Inr shp"
    using shp by (auto split: if_splits dest: volume_shape_setter_Inr)
  have el: "if names ! i \<in> set (dict_keys (prune_nvertices names nv0))
        then 0 \<le> vert ! i else \<not> voxel_negative (vox ! i)" if "i < length names" for i
  proof -
    have 1: "?m ! i \<Longrightarrow> \<not> vert ! i < 0"
      using vert that len by (auto simp: mask_select_ex)
    have 2: "\<not> ?m ! i \<Longrightarrow> \<not> voxel_negative (vox ! i)"
      using vox that len by (auto simp: mask_select_ex)
    show ?thesis using 1 2 that by (auto simp: nth_surface_mask)
  qed
  show "bm_valid structures bm"
    unfolding bm_valid_def
  proof (intro conjI)
    show "bm_name bm \<noteq> []" by (simp add: bm ne)
    show "set (bm_name bm) \<subseteq> set structures" using name_setter_Inr(1) [OF ns] by (simp add: bm)
    show "length (bm_voxel bm) = length (bm_name bm)" by (simp add: bm len)
    show "length (bm_vertex bm) = length (bm_name bm)" by (simp add: bm len)
    show "set (dict_keys (bm_nvertices bm)) \<subseteq> set (bm_name bm)" by (simp add: bm prune_keys)
    show "\<forall>i<length (bm_name bm).
       if bm_name bm ! i \<in> set (dict_keys (bm_nvertices bm)) then 0 \<le> bm_vertex bm ! i
       else \<not> voxel_negative (bm_voxel bm ! i)" using el by (simp add: bm)
    show "affine_setter (bm_affine bm) = Inr (bm_affine bm)" by (simp add: bm a1)
    show "volume_shape_setter (bm_volume_shape bm) = Inr (bm_volume_shape bm)"
      by (simp add: bm s1)
    show "set (bm_name bm) \<subseteq> set (dict_keys (bm_nvertices bm)) \<longrightarrow>
      bm_affine bm = None \<and> bm_volume_shape bm = None"
      using allsurf by (simp add: all_surface_iff)
  qed
qed

lemma init_Inr_I:
  assumes "ns \<noteq> []" and "set ns \<subseteq> set structures"
    and "length vox = length ns" and "length vert = length ns"
    and "\<forall>i < length ns. if ns ! i \<in> set (dict_keys nv) then 0 \<le> vert ! i
                          else \<not> voxel_negative (vox ! i)"
    and "affine_setter aff = Inr aff" and "volume_shape_setter shp = Inr shp"
  shows "BrainModel_init structures (NameArray ns) (Some vox) (Some vert) aff shp (Some nv) =
         Inr \<lparr>bm_name = ns, bm_voxel = vox, bm_vertex = vert,
              bm_affine = (if set ns \<subseteq> set (dict_keys nv) then None else aff),
              bm_volume_shape = (if set ns \<subseteq> set (dict_keys nv) then None else shp),
              bm_nvertices = prune_nvertices ns nv\<rparr>"
proof -
  have 1: "\<not> list_ex (\<lambda>v. v < 0) (map snd (filter fst (zip (surface_mask nv ns) vert)))"
    using assms(4,5) by (auto simp: mask_select_ex nth_surface_mask)
  have 2: "\<not> list_ex voxel_negative (map snd (filter fst (zip (map Not (surface_mask nv ns)) vox)))"
    using assms(3,5) by (auto simp: mask_select_ex nth_surface_mask)
  show ?thesis
    unfolding BrainModel_init_def
    using assms(1,3,4,6,7) 1 2
    by (simp add: name_setter_known [OF assms(2)] is_surface_def surface_mask_prune
        mask_select_def all_surface_iff Let_def prune_keys)
qed

subsection \<open>Slices and \<^verbatim>\<open>iter_structures\<close>\<close>

lemma length_slice_list:
  "length (slice_list sl xs) =
     (case sl of (a, None) \<Rightarrow> length xs - a | (a, Some b) \<Rightarrow> min b (length xs) - a)"
  by (auto simp: slice_list_def split: option.splits prod.splits)

lemma length_slice_list_eq:
  "length xs = length ys \<Longrightarrow> length (slice_list sl xs) = length (slice_list sl ys)"
  by (cases sl) (auto simp: slice_list_def split: option.splits)

lemma slice_list_bound:
  "i < length (slice_list sl xs) \<Longrightarrow> fst sl + i < length xs"
  by (auto simp: slice_list_def split: option.splits prod.splits)

lemma slice_list_nth:
  assumes "i < length (slice_list sl xs)"
  shows "slice_list sl xs ! i = xs ! (fst sl + i)"
proof (cases sl)
  case (Pair a e)
  show ?thesis
  proof (cases e)
    case None
    with Pair assms show ?thesis by (simp add: slice_list_def)
  next
    case (Some b)
    with Pair assms have i: "a + i < b" "a + i < length xs" by (auto simp: slice_list_def)
    then have "drop a (take b xs) ! i = take b xs ! (a + i)" by (intro nth_drop) simp
    also have "\<dots> = xs ! (a + i)" using i by simp
    finally show ?thesis using Pair Some by (simp add: slice_list_def)
  qed
qed

lemma set_slice_list: "set (slice_list sl xs) \<subseteq> set xs"
  by (auto simp: slice_list_def split: option.splits prod.splits
      dest: in_set_dropD in_set_takeD)

lemma getitem_slice_valid:
  assumes "bm_valid structures bm" and "slice_list sl (bm_name bm) \<noteq> []"
  shows "BrainModel_getitem_slice structures bm sl =
         Inr \<lparr>bm_name = slice_list sl (bm_name bm),
              bm_voxel = slice_list sl (bm_voxel bm),
              bm_vertex = slice_list sl (bm_vertex bm),
              bm_affine = (if set (slice_list sl (bm_name bm)) \<subseteq> set (dict_keys (bm_nvertices bm))
                           then None else bm_affine bm),
              bm_volume_shape =
                (if set (slice_list sl (bm_name bm)) \<subseteq> set (dict_keys (bm_nvertices bm))
                 then None else bm_volume_shape bm),
              bm_nvertices = prune_nvertices (slice_list sl (bm_name bm)) (bm_nvertices bm)\<rparr>"
  unfolding BrainModel_getitem_slice_def
proof (rule init_Inr_I)
  let ?ns = "slice_list sl (bm_name bm)"
  show "?ns \<noteq> []" by (rule assms(2))
  show "set ?ns \<subseteq> set structures"
    using assms(1) set_slice_list [of sl "bm_name bm"] by (auto simp: bm_valid_def)
  show lv: "length (slice_list sl (bm_voxel bm)) = length ?ns"
    using assms(1) by (intro length_slice_list_eq) (simp add: bm_valid_def)
  show lx: "length (slice_list sl (bm_vertex bm)) = length ?ns"
    using assms(1) by (intro length_slice_list_eq) (simp add: bm_valid_def)
  show "affine_setter (bm_affine bm) = Inr (bm_affine bm)"
    using assms(1) by (simp add: bm_valid_def)
  show "volume_shape_setter (bm_volume_shape bm) = Inr (bm_volume_shape bm)"
    using assms(1) by (simp add: bm_valid_def)
  show "\<forall>i<length ?ns.
       if ?ns ! i \<in> set (dict_keys (bm_nvertices bm))
       then 0 \<le> slice_list sl (bm_vertex bm) ! i
       else \<not> voxel_negative (slice_list sl (bm_voxel bm) ! i)"
  proof (intro allI impI)
    fix i assume i: "i < length ?ns"
    then have b: "fst sl + i < length (bm_name bm)" by (rule slice_list_bound)
    have "?ns ! i = bm_name bm ! (fst sl + i)" using i by (rule slice_list_nth)
    moreover have "slice_list sl (bm_vertex bm) ! i = bm_vertex bm ! (fst sl + i)"
      using i lx by (intro slice_list_nth) simp
    moreover have "slice_list sl (bm_voxel bm) ! i = bm_voxel bm ! (fst sl + i)"
      using i lv by (intro slice_list_nth) simp
    moreover have "if bm_name bm ! (fst sl + i) \<in> set (dict_keys (bm_nvertices bm))
        then 0 \<le> bm_vertex bm ! (fst sl + i) else \<not> voxel_negative (bm_voxel bm ! (fst sl + i))"
      using assms(1) b by (simp add: bm_valid_def)
    ultimately show "if ?ns ! i \<in> set (dict_keys (bm_nvertices bm))
       then 0 \<le> slice_list sl (bm_vertex bm) ! i
       else \<not> voxel_negative (slice_list sl (bm_voxel bm) ! i)" by simp
  qed
qed

lemma yield_range_simp [simp]:
  "yield_range n (name, sl, sub) = (name, slice_range n sl)"
  by (simp add: yield_range_def)

lemma yield_ok_simp [simp]:
  "yield_ok structures bm (n, sl, sub) \<longleftrightarrow>
     BrainModel_getitem_slice structures bm sl = Inr sub \<and>
     bm_name sub = slice_list sl (bm_name bm) \<and>
     bm_voxel sub = slice_list sl (bm_voxel bm) \<and>
     bm_vertex sub = slice_list sl (bm_vertex bm)"
  by (simp add: yield_ok_def)

lemma getitem_slice_ok:
  assumes "bm_valid structures bm" and "slice_list sl (bm_name bm) \<noteq> []"
  obtains sub where "yield_ok structures bm (n, sl, sub)"
  using getitem_slice_valid [OF assms] by simp

lemma iter_structures_loop_runs:
  assumes "bm_valid structures bm"
    and "rest = drop idx_current (bm_name bm)"
    and "idx_current \<le> length (bm_name bm)"
    and "idx_start \<le> idx_current"
    and "idx_start < idx_current \<or> (rest \<noteq> [] \<and> hd rest = start_name)"
    and "\<forall>i. idx_start \<le> i \<and> i < idx_current \<longrightarrow> bm_name bm ! i = start_name"
  shows "\<exists>rs. iter_structures_loop structures bm idx_current rest idx_start start_name = Inr rs \<and>
           maximal_runs (bm_name bm) idx_start (map (yield_range (length (bm_name bm))) rs) \<and>
           list_all (yield_ok structures bm) rs"
  using assms(2-)
proof (induction rest arbitrary: idx_current idx_start start_name)
  case Nil
  let ?N = "length (bm_name bm)"
  from Nil have cur: "idx_current = ?N" by simp
  with Nil have lt: "idx_start < ?N" by simp
  then have ne: "slice_list (idx_start, None) (bm_name bm) \<noteq> []"
    by (simp add: slice_list_def)
  obtain sub where sub: "yield_ok structures bm (start_name, (idx_start, None), sub)"
    using assms(1) ne by (rule getitem_slice_ok)
  then have g: "BrainModel_getitem_slice structures bm (idx_start, None) = Inr sub"
    by simp
  have all: "list_all (\<lambda>i. bm_name bm ! i = start_name) [idx_start..<?N]"
    using Nil.prems(5) cur by (simp add: list_all_iff)
  have 1: "iter_structures_loop structures bm idx_current [] idx_start start_name =
        Inr [(start_name, (idx_start, None), sub)]"
    by (simp add: g)
  have 2: "maximal_runs (bm_name bm) idx_start
        (map (yield_range ?N) [(start_name, (idx_start, None), sub)])"
    using lt all by (simp add: slice_range_def)
  have 3: "list_all (yield_ok structures bm) [(start_name, (idx_start, None), sub)]"
    using sub by (simp del: yield_ok_simp)
  from 1 2 3 show ?case by blast
next
  case (Cons name rest)
  let ?N = "length (bm_name bm)"
  have lt: "idx_current < ?N"
  proof (rule ccontr)
    assume "\<not> idx_current < ?N"
    then have "drop idx_current (bm_name bm) = []" by simp
    with Cons.prems(1) show False by simp
  qed
  have nm: "bm_name bm ! idx_current = name"
    using Cons.prems(1) lt by (metis hd_drop_conv_nth list.sel(1))
  have rest: "rest = drop (idx_current + 1) (bm_name bm)"
    using Cons.prems(1) by (metis Suc_eq_plus1 drop_Suc list.sel(3) tl_drop)
  have le: "idx_current + 1 \<le> ?N" using lt by simp
  show ?case
  proof (cases "start_name \<noteq> name")
    case True
    with Cons.prems(4) have s: "idx_start < idx_current" by auto
    have ne: "slice_list (idx_start, Some idx_current) (bm_name bm) \<noteq> []"
      using s lt by (simp add: slice_list_def)
    obtain sub where sub:
      "yield_ok structures bm (start_name, (idx_start, Some idx_current), sub)"
      using assms(1) ne by (rule getitem_slice_ok)
    then have g: "BrainModel_getitem_slice structures bm (idx_start, Some idx_current) = Inr sub"
      by simp
    have p3: "idx_current \<le> idx_current + 1" by simp
    have p4: "idx_current < idx_current + 1 \<or>
              (rest \<noteq> [] \<and> hd rest = bm_name bm ! idx_current)" by simp
    have p5: "\<forall>i. idx_current \<le> i \<and> i < idx_current + 1 \<longrightarrow>
                  bm_name bm ! i = bm_name bm ! idx_current"
      by (auto simp: le_less_Suc_eq)
    from Cons.IH [OF rest le p3 p4 p5] obtain rs where rs:
      "iter_structures_loop structures bm (idx_current + 1) rest idx_current
                 (bm_name bm ! idx_current) = Inr rs"
      "maximal_runs (bm_name bm) idx_current (map (yield_range ?N) rs)"
      "list_all (yield_ok structures bm) rs" by blast
    have all: "list_all (\<lambda>i. bm_name bm ! i = start_name) [idx_start..<idx_current]"
      using Cons.prems(5) by (simp add: list_all_iff)
    have 1: "iter_structures_loop structures bm idx_current (name # rest) idx_start start_name =
          Inr ((start_name, (idx_start, Some idx_current), sub) # rs)"
      using True rs(1) by (simp add: g)
    have 2: "maximal_runs (bm_name bm) idx_start
          (map (yield_range ?N) ((start_name, (idx_start, Some idx_current), sub) # rs))"
      using s lt all rs(2) nm True by (simp add: slice_range_def)
    have 3: "list_all (yield_ok structures bm)
          ((start_name, (idx_start, Some idx_current), sub) # rs)"
      using sub rs(3) by (simp del: yield_ok_simp)
    from 1 2 3 show ?thesis by blast
  next
    case False
    have p3: "idx_start \<le> idx_current + 1" using Cons.prems(3) by simp
    have p4: "idx_start < idx_current + 1 \<or> (rest \<noteq> [] \<and> hd rest = start_name)"
      using Cons.prems(3) by simp
    have p5: "\<forall>i. idx_start \<le> i \<and> i < idx_current + 1 \<longrightarrow> bm_name bm ! i = start_name"
    proof (intro allI impI)
      fix i assume "idx_start \<le> i \<and> i < idx_current + 1"
      then have "i < idx_current \<or> i = idx_current" "idx_start \<le> i" by auto
      then show "bm_name bm ! i = start_name"
        using Cons.prems(5) nm False by auto
    qed
    from Cons.IH [OF rest le p3 p4 p5] obtain rs where rs:
      "iter_structures_loop structures bm (idx_current + 1) rest idx_start start_name = Inr rs"
      "maximal_runs (bm_name bm) idx_start (map (yield_range ?N) rs)"
      "list_all (yield_ok structures bm) rs" by blast
    have "iter_structures_loop structures bm idx_current (name # rest) idx_start start_name =
          Inr rs"
      using False rs(1) by simp
    with rs(2,3) show ?thesis by blast
  qed
qed

text \<open>
  Claim C8. For every axis the constructor returns, \<^verbatim>\<open>iter_structures\<close> runs to its end
  without an exception, and what it yields is, in order, one triple for each maximal run
  of consecutive equal names: the yielded ranges start at 0, follow one another without
  gap, are not empty, hold the yielded name throughout and stop in front of a different
  name or at the end of the axis. The sub-axis of each triple is the slice of the axis
  over the yielded range. A name that comes back after another one starts a run of its
  own (the example below runs the names \<open>[X, X, Y, X]\<close>).
\<close>

theorem iter_structures_maximal_runs:
  assumes "BrainModel_init structures name voxel vertex affine volume_shape nvertices = Inr bm"
  shows "\<exists>rs. iter_structures structures bm = Inr rs \<and>
           maximal_runs (bm_name bm) 0 (map (yield_range (length (bm_name bm))) rs) \<and>
           list_all (yield_ok structures bm) rs"
proof -
  have v: "bm_valid structures bm" using assms by (rule init_Inr_D(1))
  then have ne: "bm_name bm \<noteq> []" by (simp add: bm_valid_def)
  have p4: "0 < (0::nat) \<or> (bm_name bm \<noteq> [] \<and> hd (bm_name bm) = bm_name bm ! 0)"
    using ne by (simp add: hd_conv_nth)
  have "\<exists>rs. iter_structures_loop structures bm 0 (bm_name bm) 0 (bm_name bm ! 0) = Inr rs \<and>
           maximal_runs (bm_name bm) 0 (map (yield_range (length (bm_name bm))) rs) \<and>
           list_all (yield_ok structures bm) rs"
    using v _ _ _ p4 by (rule iter_structures_loop_runs) simp_all
  then show ?thesis using ne by (simp add: iter_structures_def)
qed

lemma maximal_runs_unique:
  "maximal_runs names a rs \<Longrightarrow> maximal_runs names a rs' \<Longrightarrow> rs = rs'"
proof (induction rs arbitrary: a rs')
  case Nil
  then show ?case by (cases rs') auto
next
  case (Cons r rs)
  obtain n b c where r: "r = (n, b, c)" by (cases r)
  from Cons.prems(1) r have 1: "b = a" "b < c" "c \<le> length names"
    "\<forall>i. b \<le> i \<and> i < c \<longrightarrow> names ! i = n" "c = length names \<or> names ! c \<noteq> n"
    "maximal_runs names c rs"
    by (auto simp: list_all_iff)
  from Cons.prems(2) 1 obtain r' rs'' where rs': "rs' = r' # rs''" by (cases rs') auto
  obtain n' b' c' where r': "r' = (n', b', c')" by (cases r')
  from Cons.prems(2) rs' r' have 2: "b' = a" "b' < c'" "c' \<le> length names"
    "\<forall>i. b' \<le> i \<and> i < c' \<longrightarrow> names ! i = n'" "c' = length names \<or> names ! c' \<noteq> n'"
    "maximal_runs names c' rs''"
    by (auto simp: list_all_iff)
  have n: "n = n'" using 1(1,2,4) 2(1,2,4) by (metis le_refl)
  have c: "c = c'"
  proof (rule ccontr)
    assume "c \<noteq> c'"
    then consider "c < c'" | "c' < c" by linarith
    then show False
    proof cases
      case 1
      then have "names ! c = n'" using 2(1,4) \<open>b = a\<close> \<open>b < c\<close> by auto
      moreover have "c < length names" using 1 2(3) by simp
      ultimately show False using \<open>c = length names \<or> names ! c \<noteq> n\<close> n by auto
    next
      case 2
      then have "names ! c' = n" using 1(1,4) \<open>b' = a\<close> \<open>b' < c'\<close> by auto
      moreover have "c' < length names" using 2 1(3) by simp
      ultimately show False using \<open>c' = length names \<or> names ! c' \<noteq> n'\<close> n by auto
    qed
  qed
  have "rs = rs''" using Cons.IH [OF 1(6)] 2(6) c by simp
  then show ?case using r r' rs' n c 1(1) 2(1) by simp
qed

subsection \<open>Evaluation at the examples\<close>

lemmas bm_eval =
  BrainModel_init_def name_setter_def to_cifti_brain_structure_name_def
  example_structures_def is_surface_def surface_mask_def prune_nvertices_def dict_keys_def
  mask_select_def affine_setter_def volume_shape_setter_def voxel_negative_def

lemma ex_init: "BrainModel_init example_structures
     (NameArray [''CIFTI_STRUCTURE_CORTEX_LEFT'', ''CIFTI_STRUCTURE_CORTEX_LEFT'',
                 ''CIFTI_STRUCTURE_CORTEX_RIGHT'', ''CIFTI_STRUCTURE_CORTEX_LEFT''])
     None (Some [0, 1, 0, 2]) None None
     (Some [(''CIFTI_STRUCTURE_CORTEX_LEFT'', 5), (''CIFTI_STRUCTURE_CORTEX_RIGHT'', 5)]) = Inr runs_axis"
  by (simp add: bm_eval runs_axis_def)

lemma ex_iter: "iter_structures example_structures runs_axis =
   Inr [(''CIFTI_STRUCTURE_CORTEX_LEFT'', (0, Some 2),
         \<lparr>bm_name = [''CIFTI_STRUCTURE_CORTEX_LEFT'', ''CIFTI_STRUCTURE_CORTEX_LEFT''],
          bm_voxel = [(- 1, - 1, - 1), (- 1, - 1, - 1)], bm_vertex = [0, 1],
          bm_affine = None, bm_volume_shape = None,
          bm_nvertices = [(''CIFTI_STRUCTURE_CORTEX_LEFT'', 5)]\<rparr>),
        (''CIFTI_STRUCTURE_CORTEX_RIGHT'', (2, Some 3),
         \<lparr>bm_name = [''CIFTI_STRUCTURE_CORTEX_RIGHT''],
          bm_voxel = [(- 1, - 1, - 1)], bm_vertex = [0],
          bm_affine = None, bm_volume_shape = None,
          bm_nvertices = [(''CIFTI_STRUCTURE_CORTEX_RIGHT'', 5)]\<rparr>),
        (''CIFTI_STRUCTURE_CORTEX_LEFT'', (3, None),
         \<lparr>bm_name = [''CIFTI_STRUCTURE_CORTEX_LEFT''],
          bm_voxel = [(- 1, - 1, - 1)], bm_vertex = [2],
          bm_affine = None, bm_volume_shape = None,
          bm_nvertices = [(''CIFTI_STRUCTURE_CORTEX_LEFT'', 5)]\<rparr>)]"
  by (simp add: iter_structures_def BrainModel_getitem_slice_def slice_list_def bm_eval runs_axis_def)

subsection \<open>Equality of \<^verbatim>\<open>BrainModel\<close> axes\<close>

lemma Max_map2_less_iff:
  assumes "length xs = length ys" and "xs \<noteq> []"
  shows "Max (set (map2 f xs ys)) < (c::real) \<longleftrightarrow> list_all2 (\<lambda>x y. f x y < c) xs ys"
proof -
  have "zip xs ys \<noteq> []" using assms by (cases xs; cases ys) auto
  then have "set (map2 f xs ys) \<noteq> {}" by simp
  then have "Max (set (map2 f xs ys)) < c \<longleftrightarrow> (\<forall>v \<in> set (map2 f xs ys). v < c)"
    by (intro Max_less_iff) simp_all
  also have "\<dots> \<longleftrightarrow> list_all2 (\<lambda>x y. f x y < c) xs ys"
    using assms(1) by (auto simp: list_all2_iff)
  finally show ?thesis .
qed

lemma list_all2_concat:
  assumes "list_all2 (\<lambda>r s. length r = length s) a b"
  shows "list_all2 P (concat a) (concat b) \<longleftrightarrow> list_all2 (list_all2 P) a b"
  using assms
proof (induction rule: list_all2_induct)
  case Nil
  then show ?case by simp
next
  case (Cons r a s b)
  then show ?case by (auto simp: list_all2_append list_all2_lengthD)
qed

lemma affine_rows:
  assumes "affine_setter (Some a) = Inr (Some a)"
  shows "length a = 4" and "\<forall>r \<in> set a. length r = 4"
  using assms by (auto simp: affine_setter_def list_ex_iff split: if_splits)

lemma affine_close_iff:
  assumes "affine_setter (Some a) = Inr (Some a)" and "affine_setter (Some b) = Inr (Some b)"
  shows "affine_close a b \<longleftrightarrow> affine_within_tolerance a b"
proof -
  note ra = affine_rows [OF assms(1)] and rb = affine_rows [OF assms(2)]
  have rows: "list_all2 (\<lambda>r s. length r = length s) a b"
    using ra rb by (auto simp: list_all2_conv_all_nth)
  then have len: "length (concat a) = length (concat b)"
    by (induction rule: list_all2_induct) simp_all
  obtain r a' where a: "a = r # a'" using ra(1) by (cases a) auto
  with ra(2) have "r \<noteq> []" by auto
  with a have ne: "concat a \<noteq> []" by simp
  have "affine_close a b \<longleftrightarrow>
        list_all2 (\<lambda>x y. \<bar>x - y\<bar> < 1 / 10 ^ 8) (concat a) (concat b)"
    unfolding affine_close_def using len ne by (rule Max_map2_less_iff)
  also have "\<dots> \<longleftrightarrow> affine_within_tolerance a b"
    unfolding affine_within_tolerance_def using rows by (rule list_all2_concat)
  finally show ?thesis .
qed

lemma eq_valid:
  assumes "bm_valid structures x" and "bm_valid structures y"
  shows "BrainModel_eq x y =
     Inr (length (bm_name x) = length (bm_name y) \<and>
          ((bm_affine x = None \<and> bm_affine y = None) \<or>
           (bm_affine x \<noteq> None \<and> bm_affine y \<noteq> None \<and>
            affine_close (the (bm_affine x)) (the (bm_affine y)) \<and>
            bm_volume_shape x = bm_volume_shape y)) \<and>
          dict_eq (bm_nvertices x) (bm_nvertices y) \<and>
          bm_name x = bm_name y \<and>
          map snd (filter fst (zip (map Not (surface_mask (bm_nvertices x) (bm_name x)))
                                 (bm_voxel x))) =
          map snd (filter fst (zip (map Not (surface_mask (bm_nvertices y) (bm_name y)))
                                 (bm_voxel y))) \<and>
          map snd (filter fst (zip (map Not (surface_mask (bm_nvertices x) (bm_name x)))
                                 (bm_vertex x))) =
          map snd (filter fst (zip (map Not (surface_mask (bm_nvertices y) (bm_name y)))
                                 (bm_vertex y))))"
proof -
  from assms have f:
    "bm_name x \<noteq> []" "bm_name y \<noteq> []"
    "length (bm_voxel x) = length (bm_name x)" "length (bm_vertex x) = length (bm_name x)"
    "length (bm_voxel y) = length (bm_name y)" "length (bm_vertex y) = length (bm_name y)"
    by (simp_all add: bm_valid_def)
  show ?thesis
    unfolding BrainModel_eq_def using f
    by (auto simp: is_surface_def mask_select_def)
qed

lemma surface_mask_cong:
  "dict_eq d1 d2 \<Longrightarrow> surface_mask d1 ns = surface_mask d2 ns"
  by (simp add: surface_mask_def dict_eq_keys)

lemma valid_affine:
  "bm_valid structures x \<Longrightarrow> bm_affine x = Some a \<Longrightarrow> affine_setter (Some a) = Inr (Some a)"
  by (simp add: bm_valid_def)

lemma eq_valid_iff:
  assumes "bm_valid structures x" and "bm_valid structures y"
  shows "BrainModel_eq x y =
     Inr (same_elements x y \<and> same_geometry x y \<and>
          (\<forall>i < length (bm_name x).
             \<not> surface_mask (bm_nvertices x) (bm_name x) ! i \<longrightarrow>
             bm_vertex x ! i = bm_vertex y ! i))"
proof -
  have g: "((bm_affine x = None \<and> bm_affine y = None) \<or>
           (bm_affine x \<noteq> None \<and> bm_affine y \<noteq> None \<and>
            affine_close (the (bm_affine x)) (the (bm_affine y)) \<and>
            bm_volume_shape x = bm_volume_shape y)) \<longleftrightarrow> same_geometry x y"
    using valid_affine [OF assms(1)] valid_affine [OF assms(2)]
    by (auto simp: same_geometry_def affine_close_iff split: option.splits)
  have l: "length (bm_voxel x) = length (bm_name x)" "length (bm_vertex x) = length (bm_name x)"
    "length (bm_voxel y) = length (bm_name y)" "length (bm_vertex y) = length (bm_name y)"
    using assms by (simp_all add: bm_valid_def)
  show ?thesis
  proof (cases "bm_name x = bm_name y \<and> dict_eq (bm_nvertices x) (bm_nvertices y)")
    case True
    then have m: "surface_mask (bm_nvertices y) (bm_name y) =
                  surface_mask (bm_nvertices x) (bm_name x)"
      using surface_mask_cong [of "bm_nvertices x" "bm_nvertices y" "bm_name y"] by simp
    have vox: "map snd (filter fst (zip (map Not (surface_mask (bm_nvertices x) (bm_name x)))
                                 (bm_voxel x))) =
          map snd (filter fst (zip (map Not (surface_mask (bm_nvertices x) (bm_name x)))
                                 (bm_voxel y))) \<longleftrightarrow>
          (\<forall>i < length (bm_name x).
            \<not> surface_mask (bm_nvertices x) (bm_name x) ! i \<longrightarrow> bm_voxel x ! i = bm_voxel y ! i)"
      using l True by (subst mask_select_eq_iff) simp_all
    have vert: "map snd (filter fst (zip (map Not (surface_mask (bm_nvertices x) (bm_name x)))
                                 (bm_vertex x))) =
          map snd (filter fst (zip (map Not (surface_mask (bm_nvertices x) (bm_name x)))
                                 (bm_vertex y))) \<longleftrightarrow>
          (\<forall>i < length (bm_name x).
            \<not> surface_mask (bm_nvertices x) (bm_name x) ! i \<longrightarrow> bm_vertex x ! i = bm_vertex y ! i)"
      using l True by (subst mask_select_eq_iff) simp_all
    show ?thesis
      unfolding eq_valid [OF assms] g m vox vert same_elements_def using True m by auto
  next
    case False
    then show ?thesis
      unfolding eq_valid [OF assms] same_elements_def by auto
  qed
qed

text \<open>
  Claim C3, amended. For two axes the constructor has returned, \<^verbatim>\<open>__eq__\<close> never raises.
  If it returns true, the axes have the same length, names, \<^verbatim>\<open>nvertices\<close> and
  surface/volume classification, equal voxel indices on the volumetric elements, and
  either no affine on both sides or two affines within \<open>1e-8\<close> entry by entry together
  with equal volume shapes. Conversely, if all of that holds and the vertex indices of
  all elements are equal, it returns true. (Which vertex indices a true result
  guarantees equal is left open.)
\<close>

theorem BrainModel_eq_conditions:
  assumes "BrainModel_init structures name1 voxel1 vertex1 affine1 shape1 nvertices1 = Inr x"
    and "BrainModel_init structures name2 voxel2 vertex2 affine2 shape2 nvertices2 = Inr y"
  shows "(BrainModel_eq x y = Inr True \<longrightarrow> same_elements x y \<and> same_geometry x y) \<and>
         (same_elements x y \<and> same_geometry x y \<and> bm_vertex x = bm_vertex y \<longrightarrow>
            BrainModel_eq x y = Inr True) \<and>
         (BrainModel_eq x y = Inr True \<or> BrainModel_eq x y = Inr False)"
proof -
  have vx: "bm_valid structures x" using assms(1) by (rule init_Inr_D(1))
  have vy: "bm_valid structures y" using assms(2) by (rule init_Inr_D(1))
  show ?thesis unfolding eq_valid_iff [OF vx vy] by auto
qed

lemma volume_axis_init:
  "BrainModel_init example_structures (OneName ''thalamus_left'') (Some [v]) None
     (Some identity_affine) (Some [a, b, c]) None =
   (if voxel_negative v
    then Inl (ValueError ''Undefined voxel indices found for volumetric elements'')
    else Inr (volume_axis identity_affine [a, b, c] v))"
  by (simp add: bm_eval str_simps orient_names_def check_proposed_def proposed_name_def
      volume_axis_def identity_affine_def)

lemma volume_axis_init_shifted:
  "BrainModel_init example_structures (OneName ''thalamus_left'') (Some [(1, 1, 1)]) None
     (Some shifted_affine) (Some [2, 2, 2]) None =
   Inr (volume_axis shifted_affine [2, 2, 2] (1, 1, 1))"
  by (simp add: bm_eval str_simps orient_names_def check_proposed_def proposed_name_def
      volume_axis_def shifted_affine_def)

lemma surface_axis_init:
  "BrainModel_init example_structures (OneName ''CortexLeft'') None (Some [0, 1])
     (Some identity_affine) (Some [2, 2, 2]) (Some [(''CIFTI_STRUCTURE_CORTEX_LEFT'', 5)]) =
   Inr (surface_axis [0, 1])"
  by (simp add: bm_eval str_simps orient_names_def check_proposed_def proposed_name_def
      surface_axis_def)

text \<open>
  Claim C3 as stated fails: two one-voxel axes that agree in everything the claim lists
  (length, names, classification, voxel and vertex indices, \<^verbatim>\<open>nvertices\<close>, affine) but
  have the volume shapes \<open>(2, 2, 2)\<close> and \<open>(3, 3, 3)\<close> are unequal.
\<close>

theorem BrainModel_eq_volume_shape_counterexample:
  "BrainModel_init example_structures (OneName ''thalamus_left'') (Some [(0, 0, 0)]) None
     (Some identity_affine) (Some [2, 2, 2]) None =
     Inr (volume_axis identity_affine [2, 2, 2] (0, 0, 0)) \<and>
   BrainModel_init example_structures (OneName ''thalamus_left'') (Some [(0, 0, 0)]) None
     (Some identity_affine) (Some [3, 3, 3]) None =
     Inr (volume_axis identity_affine [3, 3, 3] (0, 0, 0)) \<and>
   same_elements (volume_axis identity_affine [2, 2, 2] (0, 0, 0))
     (volume_axis identity_affine [3, 3, 3] (0, 0, 0)) \<and>
   bm_vertex (volume_axis identity_affine [2, 2, 2] (0, 0, 0)) =
     bm_vertex (volume_axis identity_affine [3, 3, 3] (0, 0, 0)) \<and>
   affine_within_tolerance identity_affine identity_affine \<and>
   BrainModel_eq (volume_axis identity_affine [2, 2, 2] (0, 0, 0))
     (volume_axis identity_affine [3, 3, 3] (0, 0, 0)) = Inr False"
proof -
  have "BrainModel_eq (volume_axis identity_affine [2, 2, 2] (0, 0, 0))
     (volume_axis identity_affine [3, 3, 3] (0, 0, 0)) = Inr False"
    by (simp add: BrainModel_eq_def volume_axis_def)
  moreover have "affine_within_tolerance identity_affine identity_affine"
    by (simp add: affine_within_tolerance_def identity_affine_def)
  moreover have "same_elements (volume_axis identity_affine [2, 2, 2] (0, 0, 0))
     (volume_axis identity_affine [3, 3, 3] (0, 0, 0))"
    by (simp add: same_elements_def volume_axis_def dict_eq_def dict_keys_def)
  ultimately show ?thesis
    by (simp add: volume_axis_init voxel_negative_def) (simp add: volume_axis_def)
qed

text \<open>The theorem of claim C3 at a one-voxel axis compared with itself.\<close>

theorem BrainModel_eq_conditions_witness:
  "BrainModel_eq (volume_axis identity_affine [2, 2, 2] (0, 0, 0))
     (volume_axis identity_affine [2, 2, 2] (0, 0, 0)) = Inr True"
proof -
  have i: "BrainModel_init example_structures (OneName ''thalamus_left'') (Some [(0, 0, 0)])
     None (Some identity_affine) (Some [2, 2, 2]) None =
     Inr (volume_axis identity_affine [2, 2, 2] (0, 0, 0))"
    by (simp add: volume_axis_init voxel_negative_def)
  have "same_elements (volume_axis identity_affine [2, 2, 2] (0, 0, 0))
     (volume_axis identity_affine [2, 2, 2] (0, 0, 0))"
    by (simp add: same_elements_def volume_axis_def dict_eq_def dict_keys_def)
  moreover have "same_geometry (volume_axis identity_affine [2, 2, 2] (0, 0, 0))
     (volume_axis identity_affine [2, 2, 2] (0, 0, 0))"
    by (simp add: same_geometry_def volume_axis_def affine_within_tolerance_def
        identity_affine_def)
  ultimately show ?thesis
    using BrainModel_eq_conditions [OF i i] by simp
qed

text \<open>
  The vertex indices are compared under the mask \<^verbatim>\<open>~self.is_surface\<close>, the volumetric
  elements: two surface axes that differ in a vertex index compare equal.
\<close>

lemma BrainModel_eq_ignores_surface_vertices:
  "BrainModel_eq (surface_axis [0]) (surface_axis [1]) = Inr True"
  by (simp add: BrainModel_eq_def surface_axis_def dict_eq_def dict_keys_def is_surface_def
      surface_mask_def mask_select_def)

text \<open>
  Claim C4 at two one-voxel axes in the same volume shape whose affines differ in the
  single entry of row 0, column 3: \<^verbatim>\<open>__add__\<close> raises nothing and returns the
  concatenation with the affine of the left operand. The test is
  \<^verbatim>\<open>(other.affine != affine).all()\<close>, true only when all sixteen entries differ.
\<close>

theorem BrainModel_add_one_entry_differs:
  "BrainModel_init example_structures (OneName ''thalamus_left'') (Some [(0, 0, 0)]) None
     (Some identity_affine) (Some [2, 2, 2]) None =
     Inr (volume_axis identity_affine [2, 2, 2] (0, 0, 0)) \<and>
   BrainModel_init example_structures (OneName ''thalamus_left'') (Some [(1, 1, 1)]) None
     (Some shifted_affine) (Some [2, 2, 2]) None =
     Inr (volume_axis shifted_affine [2, 2, 2] (1, 1, 1)) \<and>
   identity_affine ! 0 ! 3 = 0 \<and> shifted_affine ! 0 ! 3 = 1 \<and>
   BrainModel_add example_structures (volume_axis identity_affine [2, 2, 2] (0, 0, 0))
     (volume_axis shifted_affine [2, 2, 2] (1, 1, 1)) =
     Inr \<lparr>bm_name = [''CIFTI_STRUCTURE_THALAMUS_LEFT'', ''CIFTI_STRUCTURE_THALAMUS_LEFT''],
          bm_voxel = [(0, 0, 0), (1, 1, 1)], bm_vertex = [- 1, - 1],
          bm_affine = Some identity_affine, bm_volume_shape = Some [2, 2, 2],
          bm_nvertices = []\<rparr>"
proof -
  have "BrainModel_add example_structures (volume_axis identity_affine [2, 2, 2] (0, 0, 0))
     (volume_axis shifted_affine [2, 2, 2] (1, 1, 1)) =
     Inr \<lparr>bm_name = [''CIFTI_STRUCTURE_THALAMUS_LEFT'', ''CIFTI_STRUCTURE_THALAMUS_LEFT''],
          bm_voxel = [(0, 0, 0), (1, 1, 1)], bm_vertex = [- 1, - 1],
          bm_affine = Some identity_affine, bm_volume_shape = Some [2, 2, 2],
          bm_nvertices = []\<rparr>"
    by (simp add: BrainModel_add_def affine_all_differ_def volume_axis_def bm_eval
        identity_affine_def shifted_affine_def)
  then show ?thesis
    by (simp add: volume_axis_init volume_axis_init_shifted voxel_negative_def)
       (simp add: identity_affine_def shifted_affine_def)
qed

text \<open>
  Claim C9, amended. For every axis the constructor returns: if all its elements are
  surface elements, \<^verbatim>\<open>affine\<close> and \<^verbatim>\<open>volume_shape\<close> are both \<^verbatim>\<open>None\<close>, whatever was
  passed; otherwise they are the two arguments as passed, each of them \<^verbatim>\<open>None\<close> or
  accepted by its setter, so either may be absent.
\<close>

theorem BrainModel_init_geometry:
  assumes "BrainModel_init structures name voxel vertex affine volume_shape nvertices = Inr bm"
  shows "\<exists>surf. is_surface (bm_nvertices bm) (bm_name bm) = Inr surf \<and>
           (if list_all id surf then bm_affine bm = None \<and> bm_volume_shape bm = None
            else bm_affine bm = affine \<and> bm_volume_shape bm = volume_shape \<and>
                 affine_setter affine = Inr affine \<and>
                 volume_shape_setter volume_shape = Inr volume_shape)"
proof -
  have v: "bm_valid structures bm" using assms by (rule init_Inr_D(1))
  then have s: "is_surface (bm_nvertices bm) (bm_name bm) =
                Inr (surface_mask (bm_nvertices bm) (bm_name bm))"
    by (simp add: is_surface_def bm_valid_def)
  show ?thesis
  proof (cases "list_all id (surface_mask (bm_nvertices bm) (bm_name bm))")
    case True
    with init_Inr_D(3) [OF assms] s show ?thesis by simp
  next
    case False
    with init_Inr_D(4) [OF assms] v s show ?thesis by (auto simp: bm_valid_def)
  qed
qed

text \<open>The theorem of claim C9 at a surface axis built with an affine and a volume shape.\<close>

theorem BrainModel_init_geometry_witness:
  "bm_affine (surface_axis [0, 1]) = None \<and> bm_volume_shape (surface_axis [0, 1]) = None"
proof -
  have "is_surface (bm_nvertices (surface_axis [0, 1])) (bm_name (surface_axis [0, 1])) =
        Inr [True, True]"
    by (simp add: surface_axis_def is_surface_def surface_mask_def dict_keys_def)
  then show ?thesis
    using BrainModel_init_geometry [OF surface_axis_init] by simp
qed

text \<open>
  Claim C9 as stated fails: the constructor accepts a volumetric element with neither
  affine nor volume shape, and one with an affine but no volume shape.
\<close>

theorem BrainModel_init_volume_without_geometry:
  "BrainModel_init example_structures (NameArray [''CIFTI_STRUCTURE_THALAMUS_LEFT''])
     (Some [(0, 0, 0)]) None None None None =
     Inr \<lparr>bm_name = [''CIFTI_STRUCTURE_THALAMUS_LEFT''], bm_voxel = [(0, 0, 0)],
          bm_vertex = [- 1], bm_affine = None, bm_volume_shape = None, bm_nvertices = []\<rparr> \<and>
   is_surface [] [''CIFTI_STRUCTURE_THALAMUS_LEFT''] = Inr [False] \<and>
   BrainModel_init example_structures (NameArray [''CIFTI_STRUCTURE_THALAMUS_LEFT''])
     (Some [(0, 0, 0)]) None (Some identity_affine) None None =
     Inr \<lparr>bm_name = [''CIFTI_STRUCTURE_THALAMUS_LEFT''], bm_voxel = [(0, 0, 0)],
          bm_vertex = [- 1], bm_affine = Some identity_affine, bm_volume_shape = None,
          bm_nvertices = []\<rparr>"
  by (simp add: bm_eval identity_affine_def)


text \<open>
  The theorem of claim C8 at the names \<open>[X, X, Y, X]\<close> (\<open>X\<close> the left, \<open>Y\<close> the right
  cortex): three runs \<open>(X, [0, 2))\<close>, \<open>(Y, [2, 3))\<close>, \<open>(X, [3, 4))\<close>.
\<close>

theorem iter_structures_maximal_runs_witness:
  "(\<exists>rs. iter_structures example_structures runs_axis = Inr rs \<and>
      maximal_runs (bm_name runs_axis) 0 (map (yield_range (length (bm_name runs_axis))) rs) \<and>
      list_all (yield_ok example_structures runs_axis) rs) \<and>
   map (yield_range 4) (projr (iter_structures example_structures runs_axis)) =
     [(''CIFTI_STRUCTURE_CORTEX_LEFT'', 0, 2), (''CIFTI_STRUCTURE_CORTEX_RIGHT'', 2, 3),
      (''CIFTI_STRUCTURE_CORTEX_LEFT'', 3, 4)]"
proof
  show "\<exists>rs. iter_structures example_structures runs_axis = Inr rs \<and>
      maximal_runs (bm_name runs_axis) 0 (map (yield_range (length (bm_name runs_axis))) rs) \<and>
      list_all (yield_ok example_structures runs_axis) rs"
    using ex_init by (rule iter_structures_maximal_runs)
  show "map (yield_range 4) (projr (iter_structures example_structures runs_axis)) =
     [(''CIFTI_STRUCTURE_CORTEX_LEFT'', 0, 2), (''CIFTI_STRUCTURE_CORTEX_RIGHT'', 2, 3),
      (''CIFTI_STRUCTURE_CORTEX_LEFT'', 3, 4)]"
    by (simp add: ex_iter slice_range_def)
qed

subsection \<open>Header assembly\<close>

lemma bm_to_mapping_loop_applies:
  "bm_to_mapping_loop self ys m = Inr m' \<Longrightarrow>
   applies_to_matrix_dimension m' = applies_to_matrix_dimension m"
proof (induction ys arbitrary: m)
  case Nil
  then show ?case by simp
next
  case (Cons y ys)
  obtain name sl bm where y: "y = (name, sl, bm)" by (cases y)
  show ?case
  proof (cases "name \<in> set (dict_keys (bm_nvertices self))")
    case True
    with Cons.prems y obtain nvertex where
      "bm_to_mapping_loop self ys
         (m\<lparr>brain_models := brain_models m @
              [\<lparr>index_offset = fst sl, index_count = length (bm_name bm),
                model_type = ''CIFTI_MODEL_TYPE_SURFACE'', brain_structure = name,
                surface_number_of_vertices = Some nvertex, voxel_indices_ijk = None,
                vertex_indices = Some (bm_vertex bm)\<rparr>]\<rparr>) = Inr m'"
      by (auto split: option.splits)
    from Cons.IH [OF this] show ?thesis by simp
  next
    case False
    with Cons.prems y have
      "bm_to_mapping_loop self ys
          (m\<lparr>volume := (case volume m of
                          None \<Rightarrow> Some \<lparr>volume_dimensions = bm_volume_shape self,
                                         transformation_matrix = bm_affine self\<rparr>
                        | Some v \<Rightarrow> Some v),
             brain_models := brain_models m @
               [\<lparr>index_offset = fst sl, index_count = length (bm_name bm),
                 model_type = ''CIFTI_MODEL_TYPE_VOXELS'', brain_structure = name,
                 surface_number_of_vertices = None, voxel_indices_ijk = Some (bm_voxel bm),
                 vertex_indices = None\<rparr>]\<rparr>) = Inr m'"
      by simp
    from Cons.IH [OF this] show ?thesis by simp
  qed
qed

lemma axis_to_mapping_applies:
  assumes "axis_to_mapping structures a d = Inr m"
  shows "applies_to_matrix_dimension m = [d]"
proof (cases a)
  case (AxBrainModel b)
  with assms obtain ys where
    "bm_to_mapping_loop b ys (Cifti2MatrixIndicesMap [d] ''CIFTI_INDEX_TYPE_BRAIN_MODELS'') = Inr m"
    by (auto simp: BrainModel_to_mapping_def split: sum.splits)
  from bm_to_mapping_loop_applies [OF this] show ?thesis
    by (simp add: Cifti2MatrixIndicesMap_def)
next
  case (AxParcels b)
  with assms show ?thesis by (auto simp: Parcels_to_mapping_def Cifti2MatrixIndicesMap_def)
next
  case (AxScalar b)
  with assms show ?thesis by (auto simp: Scalar_to_mapping_def Cifti2MatrixIndicesMap_def)
next
  case (AxLabel b)
  with assms show ?thesis by (auto simp: Label_to_mapping_def Cifti2MatrixIndicesMap_def)
next
  case (AxSeries b)
  with assms show ?thesis by (auto simp: Series_to_mapping_def Cifti2MatrixIndicesMap_def)
qed

lemma contains_axis_False:
  "contains_axis es ax = Inr False \<Longrightarrow> j < length es \<Longrightarrow> same_axis (es ! j) ax = Inr False"
proof (induction es arbitrary: j)
  case Nil
  then show ?case by simp
next
  case (Cons e es)
  from Cons.prems(1) have e: "same_axis e ax = Inr False" and r: "contains_axis es ax = Inr False"
    by (auto split: sum.splits bool.splits)
  show ?case
  proof (cases j)
    case 0
    with e show ?thesis by simp
  next
    case (Suc j')
    with Cons.prems(2) have "j' < length es" by simp
    from Cons.IH [OF r this] Suc show ?thesis by simp
  qed
qed

lemma header_inv_reuse:
  assumes inv: "header_inv axes n mims_all matrix"
    and j: "j < n" "same_axis (axes ! j) (axes ! n) = Inr True"
  shows "header_inv axes (Suc n) (mims_all @ [mims_all ! j])
           (matrix[mims_all ! j := (matrix ! (mims_all ! j))
              \<lparr>applies_to_matrix_dimension :=
                 applies_to_matrix_dimension (matrix ! (mims_all ! j)) @ [n]\<rparr>])"
proof -
  let ?k = "mims_all ! j"
  let ?ms = "mims_all @ [?k]"
  let ?mat = "matrix[?k := (matrix ! ?k)
              \<lparr>applies_to_matrix_dimension := applies_to_matrix_dimension (matrix ! ?k) @ [n]\<rparr>]"
  from inv have len: "length mims_all = n" and used: "set mims_all = {0..<length matrix}"
    and old: "\<And>d. d < n \<Longrightarrow> d \<in> set (applies_to_matrix_dimension (matrix ! (mims_all ! d)))"
    and oldr: "\<And>d. d < n \<Longrightarrow> (\<exists>j<d. mims_all ! j = mims_all ! d) \<longleftrightarrow>
         (\<exists>j<d. same_axis (axes ! j) (axes ! d) = Inr True)"
    by (auto simp: header_inv_def)
  have kin: "?k \<in> set mims_all" using j(1) len by simp
  then have k: "?k < length matrix" using used by auto
  have bound: "mims_all ! d < length matrix" if "d < n" for d
  proof -
    have "mims_all ! d \<in> set mims_all" using that len by simp
    then show ?thesis unfolding used by simp
  qed
  have app: "d \<in> set (applies_to_matrix_dimension (?mat ! (?ms ! d)))" if "d < Suc n" for d
  proof (cases "d < n")
    case True
    then have "?ms ! d = mims_all ! d" using len by (simp add: nth_append)
    moreover have "d \<in> set (applies_to_matrix_dimension (?mat ! (mims_all ! d)))"
      using old [OF True] bound [OF True] k by (cases "mims_all ! d = ?k") auto
    ultimately show ?thesis by simp
  next
    case False
    with that have "d = n" by simp
    then have "?ms ! d = ?k" using len by (simp add: nth_append)
    then show ?thesis using k \<open>d = n\<close> by simp
  qed
  have reuse: "(\<exists>i<d. ?ms ! i = ?ms ! d) \<longleftrightarrow>
         (\<exists>i<d. same_axis (axes ! i) (axes ! d) = Inr True)" if "d < Suc n" for d
  proof (cases "d < n")
    case True
    then have "\<And>i. i \<le> d \<Longrightarrow> ?ms ! i = mims_all ! i" using len by (simp add: nth_append)
    then have "(\<exists>i<d. ?ms ! i = ?ms ! d) \<longleftrightarrow> (\<exists>i<d. mims_all ! i = mims_all ! d)"
      by (auto simp: less_imp_le)
    then show ?thesis using oldr [OF True] by simp
  next
    case False
    with that have d: "d = n" by simp
    have "?ms ! j = ?ms ! n" using j(1) len by (simp add: nth_append)
    then have "\<exists>i<d. ?ms ! i = ?ms ! d" using j(1) d by blast
    moreover have "\<exists>i<d. same_axis (axes ! i) (axes ! d) = Inr True" using j d by blast
    ultimately show ?thesis by simp
  qed
  have "set ?ms = {0..<length ?mat}" using used kin by (simp add: insert_absorb)
  moreover have "length ?ms = Suc n" using len by simp
  ultimately show ?thesis
    unfolding header_inv_def using app reuse by blast
qed

lemma header_inv_new:
  assumes inv: "header_inv axes n mims_all matrix"
    and new: "\<And>j. j < n \<Longrightarrow> same_axis (axes ! j) (axes ! n) = Inr False"
    and m: "applies_to_matrix_dimension m = [n]"
  shows "header_inv axes (Suc n) (mims_all @ [length matrix]) (matrix @ [m])"
proof -
  let ?ms = "mims_all @ [length matrix]"
  let ?mat = "matrix @ [m]"
  from inv have len: "length mims_all = n" and used: "set mims_all = {0..<length matrix}"
    and old: "\<And>d. d < n \<Longrightarrow> d \<in> set (applies_to_matrix_dimension (matrix ! (mims_all ! d)))"
    and oldr: "\<And>d. d < n \<Longrightarrow> (\<exists>j<d. mims_all ! j = mims_all ! d) \<longleftrightarrow>
         (\<exists>j<d. same_axis (axes ! j) (axes ! d) = Inr True)"
    by (auto simp: header_inv_def)
  have bound: "mims_all ! d < length matrix" if "d < n" for d
  proof -
    have "mims_all ! d \<in> set mims_all" using that len by simp
    then show ?thesis unfolding used by simp
  qed
  have app: "d \<in> set (applies_to_matrix_dimension (?mat ! (?ms ! d)))" if "d < Suc n" for d
  proof (cases "d < n")
    case True
    then show ?thesis using len old [OF True] bound [OF True] by (simp add: nth_append)
  next
    case False
    with that have "d = n" by simp
    then show ?thesis using len m by (simp add: nth_append)
  qed
  have reuse: "(\<exists>i<d. ?ms ! i = ?ms ! d) \<longleftrightarrow>
         (\<exists>i<d. same_axis (axes ! i) (axes ! d) = Inr True)" if "d < Suc n" for d
  proof (cases "d < n")
    case True
    then have "\<And>i. i \<le> d \<Longrightarrow> ?ms ! i = mims_all ! i" using len by (simp add: nth_append)
    then have "(\<exists>i<d. ?ms ! i = ?ms ! d) \<longleftrightarrow> (\<exists>i<d. mims_all ! i = mims_all ! d)"
      by (auto simp: less_imp_le)
    then show ?thesis using oldr [OF True] by simp
  next
    case False
    with that have d: "d = n" by simp
    have "\<not> (\<exists>i<d. ?ms ! i = ?ms ! d)"
    proof
      assume "\<exists>i<d. ?ms ! i = ?ms ! d"
      then obtain i where i: "i < n" "?ms ! i = ?ms ! n" using d by blast
      then have "mims_all ! i = length matrix" using len by (simp add: nth_append)
      with bound [OF i(1)] show False by simp
    qed
    moreover have "\<not> (\<exists>i<d. same_axis (axes ! i) (axes ! d) = Inr True)"
      using new d by auto
    ultimately show ?thesis by blast
  qed
  have "set ?ms = {0..<length ?mat}" using used by (simp add: atLeast0_lessThan_Suc)
  moreover have "length ?ms = Suc n" using len by simp
  ultimately show ?thesis
    unfolding header_inv_def using app reuse by blast
qed

lemma index_axis_first:
  "contains_axis (take d axes) ax = Inr True \<Longrightarrow>
   \<exists>j. index_axis axes ax = Inr j \<and> j < d \<and> j < length axes \<and>
       same_axis (axes ! j) ax = Inr True \<and> (\<forall>i < j. same_axis (axes ! i) ax = Inr False)"
proof (induction axes arbitrary: d)
  case Nil
  then show ?case by simp
next
  case (Cons e es)
  from Cons.prems obtain d' where d: "d = Suc d'" by (cases d) auto
  show ?case
  proof (cases "same_axis e ax = Inr True")
    case True
    then show ?thesis using d by auto
  next
    case False
    with Cons.prems d have e: "same_axis e ax = Inr False"
      and r: "contains_axis (take d' es) ax = Inr True"
      by (auto split: sum.splits bool.splits)
    from Cons.IH [OF r] obtain j where j:
      "index_axis es ax = Inr j" "j < d'" "j < length es" "same_axis (es ! j) ax = Inr True"
      "\<forall>i < j. same_axis (es ! i) ax = Inr False"
      by blast
    have "\<forall>i < Suc j. same_axis ((e # es) ! i) ax = Inr False"
    proof (intro allI impI)
      fix i assume "i < Suc j"
      then show "same_axis ((e # es) ! i) ax = Inr False"
        using e j(5) by (cases i) auto
    qed
    moreover have "index_axis (e # es) ax = Inr (Suc j)" using e j(1) by simp
    ultimately show ?thesis using j(2,3,4) d
      by (intro exI [of _ "Suc j"]) simp
  qed
qed

lemma filter_upt_Suc:
  "filter P [0..<Suc n] = filter P [0..<n] @ (if P n then [n] else [])"
  by simp

lemma filter_upt_cong:
  "(\<And>e. e < n \<Longrightarrow> P e = Q e) \<Longrightarrow> filter P [0..<n] = filter Q [0..<n]"
  by (rule filter_cong) simp_all

lemma header_built_reuse:
  assumes inv: "header_inv axes n mims_all matrix"
    and built: "header_built structures axes n mims_all matrix"
    and j: "j < n" "same_axis (axes ! j) (axes ! n) = Inr True"
      "\<forall>i < j. same_axis (axes ! i) (axes ! n) = Inr False"
  shows "header_built structures axes (Suc n) (mims_all @ [mims_all ! j])
           (matrix[mims_all ! j := (matrix ! (mims_all ! j))
              \<lparr>applies_to_matrix_dimension :=
                 applies_to_matrix_dimension (matrix ! (mims_all ! j)) @ [n]\<rparr>])"
proof -
  let ?k = "mims_all ! j"
  let ?ms = "mims_all @ [?k]"
  let ?mat = "matrix[?k := (matrix ! ?k)
              \<lparr>applies_to_matrix_dimension := applies_to_matrix_dimension (matrix ! ?k) @ [n]\<rparr>]"
  from inv have len: "length mims_all = n" and used: "set mims_all = {0..<length matrix}"
    by (auto simp: header_inv_def)
  from built have
    b1: "\<And>d i. d < n \<Longrightarrow> i < d \<Longrightarrow> same_axis (axes ! i) (axes ! d) = Inr True \<Longrightarrow>
           (\<forall>h < i. same_axis (axes ! h) (axes ! d) \<noteq> Inr True) \<Longrightarrow>
           mims_all ! d = mims_all ! i"
    and b2: "\<And>d. d < n \<Longrightarrow> (\<forall>i < d. mims_all ! i \<noteq> mims_all ! d) \<Longrightarrow>
        mims_all ! d = card (set (take d mims_all)) \<and>
        (\<exists>m. axis_to_mapping structures (snd (axes ! d)) d = Inr m \<and>
             matrix ! (mims_all ! d) =
               m\<lparr>applies_to_matrix_dimension :=
                    filter (\<lambda>e. mims_all ! e = mims_all ! d) [0..<n]\<rparr>)"
    unfolding header_built_def by blast+
  have old: "?ms ! d = mims_all ! d" if "d < n" for d
    using that len by (simp add: nth_append)
  have last: "?ms ! n = ?k" using len by (simp add: nth_append)
  have bound: "mims_all ! d < length matrix" if "d < n" for d
  proof -
    have "mims_all ! d \<in> set mims_all" using that len by simp
    then show ?thesis unfolding used by simp
  qed
  have k: "?k < length matrix" using bound [OF j(1)] .
  have c1: "?ms ! d = ?ms ! i"
    if "d < Suc n" "i < d" "same_axis (axes ! i) (axes ! d) = Inr True"
      "\<forall>h < i. same_axis (axes ! h) (axes ! d) \<noteq> Inr True" for d i
  proof (cases "d < n")
    case True
    with that have "mims_all ! d = mims_all ! i" by (intro b1)
    then show ?thesis using True that(2) by (simp add: old)
  next
    case False
    with that(1) have d: "d = n" by simp
    have "i = j"
    proof (rule ccontr)
      assume "i \<noteq> j"
      then consider "i < j" | "j < i" by linarith
      then show False
      proof cases
        case 1
        with j(3) have "same_axis (axes ! i) (axes ! n) = Inr False" by simp
        with that(3) d show False by simp
      next
        case 2
        with that(4) d have "same_axis (axes ! j) (axes ! n) \<noteq> Inr True" by simp
        with j(2) show False by simp
      qed
    qed
    then show ?thesis using d last old [OF j(1)] by simp
  qed
  have c2: "?ms ! d = card (set (take d ?ms)) \<and>
        (\<exists>m. axis_to_mapping structures (snd (axes ! d)) d = Inr m \<and>
             ?mat ! (?ms ! d) =
               m\<lparr>applies_to_matrix_dimension :=
                    filter (\<lambda>e. ?ms ! e = ?ms ! d) [0..<Suc n]\<rparr>)"
    if "d < Suc n" "\<forall>i < d. ?ms ! i \<noteq> ?ms ! d" for d
  proof (cases "d < n")
    case True
    have "\<forall>i < d. mims_all ! i \<noteq> mims_all ! d"
    proof (intro allI impI)
      fix i assume "i < d"
      with that(2) have "?ms ! i \<noteq> ?ms ! d" by simp
      then show "mims_all ! i \<noteq> mims_all ! d" using \<open>i < d\<close> True by (simp add: old)
    qed
    from b2 [OF True this] obtain m where
      card: "mims_all ! d = card (set (take d mims_all))"
      and m: "axis_to_mapping structures (snd (axes ! d)) d = Inr m"
      and mat: "matrix ! (mims_all ! d) =
               m\<lparr>applies_to_matrix_dimension :=
                    filter (\<lambda>e. mims_all ! e = mims_all ! d) [0..<n]\<rparr>"
      by blast
    have tk: "take d ?ms = take d mims_all" using True len by simp
    have f: "filter (\<lambda>e. ?ms ! e = mims_all ! d) [0..<n] =
             filter (\<lambda>e. mims_all ! e = mims_all ! d) [0..<n]"
      by (rule filter_upt_cong) (simp add: old)
    have "?mat ! (mims_all ! d) =
               m\<lparr>applies_to_matrix_dimension :=
                    filter (\<lambda>e. ?ms ! e = mims_all ! d) [0..<Suc n]\<rparr>"
    proof (cases "mims_all ! d = ?k")
      case True
      then have "?mat ! (mims_all ! d) = (matrix ! ?k)
              \<lparr>applies_to_matrix_dimension := applies_to_matrix_dimension (matrix ! ?k) @ [n]\<rparr>"
        using k by simp
      also have "\<dots> = m\<lparr>applies_to_matrix_dimension :=
                    filter (\<lambda>e. mims_all ! e = mims_all ! d) [0..<n] @ [n]\<rparr>"
        using mat True by simp
      also have "filter (\<lambda>e. mims_all ! e = mims_all ! d) [0..<n] @ [n] =
                 filter (\<lambda>e. ?ms ! e = mims_all ! d) [0..<Suc n]"
        unfolding filter_upt_Suc f using last True by simp
      finally show ?thesis .
    next
      case False
      then have "?mat ! (mims_all ! d) = matrix ! (mims_all ! d)" by simp
      moreover have "filter (\<lambda>e. ?ms ! e = mims_all ! d) [0..<Suc n] =
                 filter (\<lambda>e. mims_all ! e = mims_all ! d) [0..<n]"
        unfolding filter_upt_Suc f using last False by simp
      ultimately show ?thesis using mat by simp
    qed
    then show ?thesis using card m tk by (simp add: old [OF True])
  next
    case False
    with that(1) have d: "d = n" by simp
    have "?ms ! j = ?ms ! n" using last old [OF j(1)] by simp
    with that(2) j(1) d show ?thesis by blast
  qed
  show ?thesis unfolding header_built_def using c1 c2 by blast
qed

lemma header_built_new:
  assumes inv: "header_inv axes n mims_all matrix"
    and built: "header_built structures axes n mims_all matrix"
    and new: "\<And>j. j < n \<Longrightarrow> same_axis (axes ! j) (axes ! n) = Inr False"
    and m: "axis_to_mapping structures (snd (axes ! n)) n = Inr m"
  shows "header_built structures axes (Suc n) (mims_all @ [length matrix]) (matrix @ [m])"
proof -
  let ?ms = "mims_all @ [length matrix]"
  let ?mat = "matrix @ [m]"
  from inv have len: "length mims_all = n" and used: "set mims_all = {0..<length matrix}"
    by (auto simp: header_inv_def)
  from built have
    b1: "\<And>d i. d < n \<Longrightarrow> i < d \<Longrightarrow> same_axis (axes ! i) (axes ! d) = Inr True \<Longrightarrow>
           (\<forall>h < i. same_axis (axes ! h) (axes ! d) \<noteq> Inr True) \<Longrightarrow>
           mims_all ! d = mims_all ! i"
    and b2: "\<And>d. d < n \<Longrightarrow> (\<forall>i < d. mims_all ! i \<noteq> mims_all ! d) \<Longrightarrow>
        mims_all ! d = card (set (take d mims_all)) \<and>
        (\<exists>m. axis_to_mapping structures (snd (axes ! d)) d = Inr m \<and>
             matrix ! (mims_all ! d) =
               m\<lparr>applies_to_matrix_dimension :=
                    filter (\<lambda>e. mims_all ! e = mims_all ! d) [0..<n]\<rparr>)"
    unfolding header_built_def by blast+
  have old: "?ms ! d = mims_all ! d" if "d < n" for d
    using that len by (simp add: nth_append)
  have last: "?ms ! n = length matrix" using len by (simp add: nth_append)
  have bound: "mims_all ! d < length matrix" if "d < n" for d
  proof -
    have "mims_all ! d \<in> set mims_all" using that len by simp
    then show ?thesis unfolding used by simp
  qed
  have c1: "?ms ! d = ?ms ! i"
    if "d < Suc n" "i < d" "same_axis (axes ! i) (axes ! d) = Inr True"
      "\<forall>h < i. same_axis (axes ! h) (axes ! d) \<noteq> Inr True" for d i
  proof (cases "d < n")
    case True
    with that have "mims_all ! d = mims_all ! i" by (intro b1)
    then show ?thesis using True that(2) by (simp add: old)
  next
    case False
    with that(1) have d: "d = n" by simp
    with that(2) new have "same_axis (axes ! i) (axes ! d) = Inr False" by simp
    with that(3) show ?thesis by simp
  qed
  have c2: "?ms ! d = card (set (take d ?ms)) \<and>
        (\<exists>m'. axis_to_mapping structures (snd (axes ! d)) d = Inr m' \<and>
             ?mat ! (?ms ! d) =
               m'\<lparr>applies_to_matrix_dimension :=
                    filter (\<lambda>e. ?ms ! e = ?ms ! d) [0..<Suc n]\<rparr>)"
    if "d < Suc n" "\<forall>i < d. ?ms ! i \<noteq> ?ms ! d" for d
  proof (cases "d < n")
    case True
    have "\<forall>i < d. mims_all ! i \<noteq> mims_all ! d"
    proof (intro allI impI)
      fix i assume "i < d"
      with that(2) have "?ms ! i \<noteq> ?ms ! d" by simp
      then show "mims_all ! i \<noteq> mims_all ! d" using \<open>i < d\<close> True by (simp add: old)
    qed
    from b2 [OF True this] obtain m' where
      card: "mims_all ! d = card (set (take d mims_all))"
      and m': "axis_to_mapping structures (snd (axes ! d)) d = Inr m'"
      and mat: "matrix ! (mims_all ! d) =
               m'\<lparr>applies_to_matrix_dimension :=
                    filter (\<lambda>e. mims_all ! e = mims_all ! d) [0..<n]\<rparr>"
      by blast
    have tk: "take d ?ms = take d mims_all" using True len by simp
    have f: "filter (\<lambda>e. ?ms ! e = mims_all ! d) [0..<n] =
             filter (\<lambda>e. mims_all ! e = mims_all ! d) [0..<n]"
      by (rule filter_upt_cong) (simp add: old)
    have ne: "length matrix \<noteq> mims_all ! d" using bound [OF True] by simp
    have "?mat ! (mims_all ! d) = matrix ! (mims_all ! d)"
      using bound [OF True] by (simp add: nth_append)
    moreover have "filter (\<lambda>e. ?ms ! e = mims_all ! d) [0..<Suc n] =
                 filter (\<lambda>e. mims_all ! e = mims_all ! d) [0..<n]"
      unfolding filter_upt_Suc f using last ne by simp
    ultimately have "?mat ! (mims_all ! d) =
               m'\<lparr>applies_to_matrix_dimension :=
                    filter (\<lambda>e. ?ms ! e = mims_all ! d) [0..<Suc n]\<rparr>"
      using mat by simp
    then show ?thesis using card m' tk by (simp add: old [OF True])
  next
    case False
    with that(1) have d: "d = n" by simp
    have "take n ?ms = mims_all" using len by simp
    then have card: "card (set (take n ?ms)) = length matrix" using used by simp
    have "filter (\<lambda>e. ?ms ! e = length matrix) [0..<n] = []"
    proof -
      have "\<forall>e \<in> set [0..<n]. ?ms ! e \<noteq> length matrix"
      proof
        fix e assume "e \<in> set [0..<n]"
        then have e: "e < n" by simp
        from bound [OF e] show "?ms ! e \<noteq> length matrix" by (simp add: old [OF e])
      qed
      then show ?thesis by (simp add: filter_empty_conv)
    qed
    then have f: "filter (\<lambda>e. ?ms ! e = length matrix) [0..<Suc n] = [n]"
      unfolding filter_upt_Suc using last by simp
    have "m\<lparr>applies_to_matrix_dimension := [n]\<rparr> = m"
      using axis_to_mapping_applies [OF m] by simp
    then have "?mat ! (?ms ! n) =
               m\<lparr>applies_to_matrix_dimension :=
                    filter (\<lambda>e. ?ms ! e = ?ms ! n) [0..<Suc n]\<rparr>"
      unfolding last f by simp
    then show ?thesis using d m card last by auto
  qed
  show ?thesis unfolding header_built_def using c1 c2 by blast
qed


lemma to_header_loop_invariants:
  assumes "to_header_loop structures axes n rest mims_all matrix = Inr (ms, mat)"
    and "rest = drop n axes" and "n \<le> length axes"
    and "header_inv axes n mims_all matrix"
    and "header_built structures axes n mims_all matrix"
  shows "header_inv axes (length axes) ms mat \<and>
         header_built structures axes (length axes) ms mat"
  using assms
proof (induction rest arbitrary: n mims_all matrix)
  case Nil
  then have "n = length axes" by simp
  with Nil show ?case by simp
next
  case (Cons ax rest)
  have lt: "n < length axes"
  proof (rule ccontr)
    assume "\<not> n < length axes"
    then have "drop n axes = []" by simp
    with Cons.prems(2) show False by simp
  qed
  have ax: "axes ! n = ax"
    using Cons.prems(2) lt by (metis hd_drop_conv_nth list.sel(1))
  have rest: "rest = drop (Suc n) axes"
    using Cons.prems(2) by (metis drop_Suc list.sel(3) tl_drop)
  have le: "Suc n \<le> length axes" using lt by simp
  show ?case
  proof (cases "contains_axis (take n axes) ax")
    case (Inl e)
    with Cons.prems(1) show ?thesis by simp
  next
    case (Inr found)
    show ?thesis
    proof (cases found)
      case True
      with Inr have "contains_axis (take n axes) ax = Inr True" by simp
      from index_axis_first [OF this] obtain j where
        j: "index_axis axes ax = Inr j" "j < n" "same_axis (axes ! j) ax = Inr True"
          "\<forall>i < j. same_axis (axes ! i) ax = Inr False"
        by blast
      from Cons.prems(1) Inr True j(1) have run:
        "to_header_loop structures axes (Suc n) rest (mims_all @ [mims_all ! j])
           (matrix[mims_all ! j := (matrix ! (mims_all ! j))
              \<lparr>applies_to_matrix_dimension :=
                 applies_to_matrix_dimension (matrix ! (mims_all ! j)) @ [n]\<rparr>]) = Inr (ms, mat)"
        by (simp add: Let_def)
      have 1: "header_inv axes (Suc n) (mims_all @ [mims_all ! j])
           (matrix[mims_all ! j := (matrix ! (mims_all ! j))
              \<lparr>applies_to_matrix_dimension :=
                 applies_to_matrix_dimension (matrix ! (mims_all ! j)) @ [n]\<rparr>])"
        using Cons.prems(4) j(2) j(3) [folded ax] by (rule header_inv_reuse)
      have 2: "header_built structures axes (Suc n) (mims_all @ [mims_all ! j])
           (matrix[mims_all ! j := (matrix ! (mims_all ! j))
              \<lparr>applies_to_matrix_dimension :=
                 applies_to_matrix_dimension (matrix ! (mims_all ! j)) @ [n]\<rparr>])"
        using Cons.prems(4,5) j(2) j(3) [folded ax] j(4) [folded ax]
        by (rule header_built_reuse)
      from Cons.IH [OF run rest le 1 2] show ?thesis .
    next
      case False
      with Inr Cons.prems(1) obtain m where
        m: "axis_to_mapping structures (snd ax) n = Inr m"
        and run: "to_header_loop structures axes (Suc n) rest (mims_all @ [length matrix])
                 (matrix @ [m]) = Inr (ms, mat)"
        by (auto split: sum.splits)
      have new: "same_axis (axes ! j) (axes ! n) = Inr False" if "j < n" for j
      proof -
        have "j < length (take n axes)" using that lt by simp
        with Inr False have "same_axis (take n axes ! j) ax = Inr False"
          by (intro contains_axis_False) simp_all
        then show ?thesis using that ax by simp
      qed
      have 1: "header_inv axes (Suc n) (mims_all @ [length matrix]) (matrix @ [m])"
        using Cons.prems(4) new axis_to_mapping_applies [OF m] by (rule header_inv_new)
      have 2: "header_built structures axes (Suc n) (mims_all @ [length matrix]) (matrix @ [m])"
        using Cons.prems(4,5) new m [folded ax] by (rule header_built_new)
      from Cons.IH [OF run rest le 1 2] show ?thesis .
    qed
  qed
qed

lemma contains_axis_returns:
  "(\<And>j. j < length es \<Longrightarrow> \<exists>b. same_axis (es ! j) ax = Inr b) \<Longrightarrow>
   \<exists>b. contains_axis es ax = Inr b"
proof (induction es)
  case Nil
  have "contains_axis [] ax = Inr False" by simp
  then show ?case ..
next
  case (Cons e es)
  from Cons.prems [of 0] obtain b where b: "same_axis e ax = Inr b" by auto
  show ?case
  proof (cases b)
    case True
    with b have "contains_axis (e # es) ax = Inr True" by simp
    then show ?thesis ..
  next
    case False
    have "\<exists>b. same_axis (es ! j) ax = Inr b" if "j < length es" for j
      using Cons.prems [of "Suc j"] that by simp
    from Cons.IH [OF this] obtain c where "contains_axis es ax = Inr c" by blast
    with b False have "contains_axis (e # es) ax = Inr c" by simp
    then show ?thesis ..
  qed
qed

lemma to_header_loop_returns:
  assumes "rest = drop n axes" and "n \<le> length axes"
    and cmp: "\<And>d j. d < length axes \<Longrightarrow> j < d \<Longrightarrow>
                \<exists>b. same_axis (axes ! j) (axes ! d) = Inr b"
    and mp: "\<And>d. d < length axes \<Longrightarrow>
                \<exists>m. axis_to_mapping structures (snd (axes ! d)) d = Inr m"
  shows "\<exists>r. to_header_loop structures axes n rest mims_all matrix = Inr r"
  using assms(1,2)
proof (induction rest arbitrary: n mims_all matrix)
  case Nil
  show ?case by simp
next
  case (Cons ax rest)
  have lt: "n < length axes"
  proof (rule ccontr)
    assume "\<not> n < length axes"
    then have "drop n axes = []" by simp
    with Cons.prems(1) show False by simp
  qed
  have ax: "axes ! n = ax"
    using Cons.prems(1) lt by (metis hd_drop_conv_nth list.sel(1))
  have rest: "rest = drop (Suc n) axes"
    using Cons.prems(1) by (metis drop_Suc list.sel(3) tl_drop)
  have le: "Suc n \<le> length axes" using lt by simp
  have "\<exists>b. same_axis (take n axes ! j) ax = Inr b" if "j < length (take n axes)" for j
  proof -
    from that have "j < n" by simp
    with cmp [OF lt this] ax show ?thesis by simp
  qed
  from contains_axis_returns [OF this] obtain found where
    c: "contains_axis (take n axes) ax = Inr found" by blast
  show ?case
  proof (cases found)
    case True
    with c have "contains_axis (take n axes) ax = Inr True" by simp
    from index_axis_first [OF this] obtain j where j: "index_axis axes ax = Inr j" by blast
    from Cons.IH [OF rest le] obtain r where
      "to_header_loop structures axes (Suc n) rest (mims_all @ [mims_all ! j])
           (matrix[mims_all ! j := (matrix ! (mims_all ! j))
              \<lparr>applies_to_matrix_dimension :=
                 applies_to_matrix_dimension (matrix ! (mims_all ! j)) @ [n]\<rparr>]) = Inr r"
      by blast
    then show ?thesis using c True j by (simp add: Let_def)
  next
    case False
    from mp [OF lt] ax obtain m where m: "axis_to_mapping structures (snd ax) n = Inr m"
      by auto
    from Cons.IH [OF rest le] obtain r where
      "to_header_loop structures axes (Suc n) rest (mims_all @ [length matrix])
                 (matrix @ [m]) = Inr r"
      by blast
    then show ?thesis using c False m by simp
  qed
qed

lemma same_axis_True_iff:
  "same_axis e a = Inr True \<longleftrightarrow> fst e = fst a \<or> axis_eq (snd e) (snd a) = Inr True"
  by (simp add: same_axis_def)

text \<open>
  Claim C2, amended. \<^verbatim>\<open>to_header\<close> returns whenever every comparison of an earlier axis
  with a later one and every \<^verbatim>\<open>to_mapping\<close> returns. Whenever it returns:
  \<^item> every dimension is registered on its descriptor, every descriptor of the matrix
    belongs to some dimension, and the axis at a position shares the descriptor of an
    earlier position exactly when an earlier axis is the identical object or compares
    equal to it with \<^verbatim>\<open>==\<close>;
  \<^item> in that case the descriptor is the one of the first such axis, so two distinct axis
    objects that are equal by value share one descriptor;
  \<^item> otherwise the dimension gets a new descriptor, placed after the ones created
    before: the \<^verbatim>\<open>to_mapping\<close> of its axis, on which exactly the dimensions assigned to it
    are registered, in increasing order. A reused descriptor is changed in nothing but
    the registered dimensions.
\<close>

theorem to_header_reuse:
  "((\<forall>d < length axes.
       (\<forall>j < d. \<exists>b. axis_eq (snd (axes ! j)) (snd (axes ! d)) = Inr b) \<and>
       (\<exists>m. axis_to_mapping structures (snd (axes ! d)) d = Inr m)) \<longrightarrow>
    (\<exists>mims_all matrix. to_header_run structures axes = Inr (mims_all, matrix))) \<and>
   (\<forall>mims_all matrix. to_header_run structures axes = Inr (mims_all, matrix) \<longrightarrow>
      to_header structures axes = Inr matrix \<and>
      length mims_all = length axes \<and> set mims_all = {0..<length matrix} \<and>
      (\<forall>d < length axes.
         d \<in> set (applies_to_matrix_dimension (matrix ! (mims_all ! d))) \<and>
         ((\<exists>j<d. mims_all ! j = mims_all ! d) \<longleftrightarrow>
          (\<exists>j<d. fst (axes ! j) = fst (axes ! d) \<or>
                  axis_eq (snd (axes ! j)) (snd (axes ! d)) = Inr True))) \<and>
      (\<forall>d < length axes. \<forall>j < d.
         (fst (axes ! j) = fst (axes ! d) \<or>
          axis_eq (snd (axes ! j)) (snd (axes ! d)) = Inr True) \<and>
         (\<forall>i < j. \<not> (fst (axes ! i) = fst (axes ! d) \<or>
                      axis_eq (snd (axes ! i)) (snd (axes ! d)) = Inr True)) \<longrightarrow>
         mims_all ! d = mims_all ! j) \<and>
      (\<forall>d < length axes. (\<forall>j < d. mims_all ! j \<noteq> mims_all ! d) \<longrightarrow>
         mims_all ! d = card (set (take d mims_all)) \<and>
         (\<exists>m. axis_to_mapping structures (snd (axes ! d)) d = Inr m \<and>
              matrix ! (mims_all ! d) =
                m\<lparr>applies_to_matrix_dimension :=
                     filter (\<lambda>e. mims_all ! e = mims_all ! d) [0..<length axes]\<rparr>)))"
  (is "?total \<and> (\<forall>mims_all matrix. ?run mims_all matrix \<longrightarrow> ?concl mims_all matrix)")
proof (rule conjI)
  show ?total
  proof (rule impI)
    assume a: "\<forall>d < length axes.
       (\<forall>j < d. \<exists>b. axis_eq (snd (axes ! j)) (snd (axes ! d)) = Inr b) \<and>
       (\<exists>m. axis_to_mapping structures (snd (axes ! d)) d = Inr m)"
    have cmp: "\<exists>b. same_axis (axes ! j) (axes ! d) = Inr b"
      if "d < length axes" "j < d" for d j
    proof -
      from a that obtain b where "axis_eq (snd (axes ! j)) (snd (axes ! d)) = Inr b" by blast
      then show ?thesis by (auto simp: same_axis_def)
    qed
    have mp: "\<exists>m. axis_to_mapping structures (snd (axes ! d)) d = Inr m"
      if "d < length axes" for d
      using a that by blast
    have "\<exists>r. to_header_loop structures axes 0 axes [] [] = Inr r"
      by (rule to_header_loop_returns [where n = 0]) (simp_all add: cmp mp)
    then show "\<exists>mims_all matrix. to_header_run structures axes = Inr (mims_all, matrix)"
      by (simp add: to_header_run_def)
  qed
next
  show "\<forall>mims_all matrix. ?run mims_all matrix \<longrightarrow> ?concl mims_all matrix"
  proof (intro allI impI)
    fix mims_all matrix
    assume run: "to_header_run structures axes = Inr (mims_all, matrix)"
    have "header_inv axes 0 [] []" by (simp add: header_inv_def)
    moreover have "header_built structures axes 0 [] []" by (simp add: header_built_def)
    ultimately have "header_inv axes (length axes) mims_all matrix \<and>
        header_built structures axes (length axes) mims_all matrix"
      using run unfolding to_header_run_def
      by (intro to_header_loop_invariants [where n = 0]) simp_all
    then have inv: "header_inv axes (length axes) mims_all matrix"
      and built: "header_built structures axes (length axes) mims_all matrix"
      by simp_all
    have 1: "to_header structures axes = Inr matrix" using run by (simp add: to_header_def)
    have 2: "length mims_all = length axes" using inv by (simp add: header_inv_def)
    have 3: "set mims_all = {0..<length matrix}" using inv by (simp add: header_inv_def)
    have 4: "\<forall>d < length axes.
         d \<in> set (applies_to_matrix_dimension (matrix ! (mims_all ! d))) \<and>
         ((\<exists>j<d. mims_all ! j = mims_all ! d) \<longleftrightarrow>
          (\<exists>j<d. fst (axes ! j) = fst (axes ! d) \<or>
                  axis_eq (snd (axes ! j)) (snd (axes ! d)) = Inr True))"
      using inv unfolding header_inv_def same_axis_True_iff by simp
    have 5: "\<forall>d < length axes. \<forall>j < d.
         (fst (axes ! j) = fst (axes ! d) \<or>
          axis_eq (snd (axes ! j)) (snd (axes ! d)) = Inr True) \<and>
         (\<forall>i < j. \<not> (fst (axes ! i) = fst (axes ! d) \<or>
                      axis_eq (snd (axes ! i)) (snd (axes ! d)) = Inr True)) \<longrightarrow>
         mims_all ! d = mims_all ! j"
      using built unfolding header_built_def same_axis_True_iff by (elim conjE)
    have 6: "\<forall>d < length axes. (\<forall>j < d. mims_all ! j \<noteq> mims_all ! d) \<longrightarrow>
         mims_all ! d = card (set (take d mims_all)) \<and>
         (\<exists>m. axis_to_mapping structures (snd (axes ! d)) d = Inr m \<and>
              matrix ! (mims_all ! d) =
                m\<lparr>applies_to_matrix_dimension :=
                     filter (\<lambda>e. mims_all ! e = mims_all ! d) [0..<length axes]\<rparr>)"
      using built unfolding header_built_def by (elim conjE)
    from 1 2 3 4 5 6 show "?concl mims_all matrix" by (intro conjI)
  qed
qed

text \<open>The theorem of claim C2 at a list of four positions: a series, then a second
  series object three times, twice as the identical object and once as a distinct
  object of equal value.\<close>

theorem to_header_reuse_witness:
  "(\<exists>mims_all matrix.
      to_header_run example_structures
        [(0, AxSeries example_series), (1, AxSeries (example_series\<lparr>series_start := 1\<rparr>)),
         (1, AxSeries (example_series\<lparr>series_start := 1\<rparr>)),
         (2, AxSeries (example_series\<lparr>series_start := 1\<rparr>))] = Inr (mims_all, matrix)) \<and>
   to_header example_structures
     [(0, AxSeries example_series), (1, AxSeries (example_series\<lparr>series_start := 1\<rparr>)),
      (1, AxSeries (example_series\<lparr>series_start := 1\<rparr>)),
      (2, AxSeries (example_series\<lparr>series_start := 1\<rparr>))] =
     Inr [Series_to_mapping example_series 0,
          (Series_to_mapping (example_series\<lparr>series_start := 1\<rparr>) 1)
            \<lparr>applies_to_matrix_dimension := [1, 2, 3]\<rparr>]"
proof -
  let ?axes = "[(0, AxSeries example_series), (1, AxSeries (example_series\<lparr>series_start := 1\<rparr>)),
         (1, AxSeries (example_series\<lparr>series_start := 1\<rparr>)),
         (2::nat, AxSeries (example_series\<lparr>series_start := 1\<rparr>))]"
  note t = to_header_reuse [of ?axes example_structures]
  have "\<exists>mims_all matrix. to_header_run example_structures ?axes = Inr (mims_all, matrix)"
    by (rule t [THEN conjunct1, THEN mp]) (simp add: All_less_Suc)
  moreover
  have "to_header_run example_structures ?axes =
        Inr ([0, 1, 1, 1],
             [Series_to_mapping example_series 0,
              (Series_to_mapping (example_series\<lparr>series_start := 1\<rparr>) 1)
                \<lparr>applies_to_matrix_dimension := [1, 2, 3]\<rparr>])"
    by (simp add: to_header_run_def same_axis_def Series_eq_def Let_def Series_to_mapping_def
        Cifti2MatrixIndicesMap_def example_series_def)
  from t [THEN conjunct2, rule_format, OF this, THEN conjunct1]
  have "to_header example_structures ?axes =
     Inr [Series_to_mapping example_series 0,
          (Series_to_mapping (example_series\<lparr>series_start := 1\<rparr>) 1)
            \<lparr>applies_to_matrix_dimension := [1, 2, 3]\<rparr>]" .
  ultimately show ?thesis by (rule conjI)
qed

text \<open>
  Claim C2 as stated fails: two distinct objects (identities 0 and 1) that hold equal
  series get one descriptor, on which both dimensions are registered.
\<close>

theorem to_header_value_equal_counterexample:
  "to_header_run example_structures
     [(0, AxSeries example_series), (1, AxSeries example_series)] =
     Inr ([0, 0],
          [(Series_to_mapping example_series 0)\<lparr>applies_to_matrix_dimension := [0, 1]\<rparr>]) \<and>
   to_header example_structures
     [(0, AxSeries example_series), (1, AxSeries example_series)] =
     Inr [(Series_to_mapping example_series 0)\<lparr>applies_to_matrix_dimension := [0, 1]\<rparr>]"
  by (simp add: to_header_def to_header_run_def same_axis_def Series_eq_def Let_def
      Series_to_mapping_def Cifti2MatrixIndicesMap_def)

subsection \<open>The round trip through a mapping: \<^verbatim>\<open>Series\<close>, \<^verbatim>\<open>Scalar\<close>, \<^verbatim>\<open>Label\<close>\<close>

lemma update_absent: "k \<notin> fst ` set d \<Longrightarrow> AList.update k v d = d @ [(k, v)]"
  by (induction d) auto

lemma fold_update_distinct:
  "distinct (map fst (acc @ d)) \<Longrightarrow>
   fold (\<lambda>(k, v) d. AList.update k v d) d acc = acc @ d"
proof (induction d arbitrary: acc)
  case Nil
  then show ?case by simp
next
  case (Cons p d)
  obtain k v where p: "p = (k, v)" by (cases p)
  from Cons.prems p have "k \<notin> fst ` set acc" by auto
  then have u: "AList.update k v acc = acc @ [(k, v)]" by (rule update_absent)
  have "distinct (map fst ((acc @ [(k, v)]) @ d))" using Cons.prems p by simp
  from Cons.IH [OF this] show ?case using p u by simp
qed

lemma dict_of_items_distinct: "distinct (dict_keys d) \<Longrightarrow> dict_of_items d = d"
  using fold_update_distinct [of "[]" d] by (simp add: dict_of_items_def dict_keys_def)

lemma dict_eq_refl [simp]: "dict_eq d d"
  by (simp add: dict_eq_def list_all_iff)

lemma dicts_all_eq_refl [simp]: "dicts_all_eq ds ds"
  by (auto simp: dicts_all_eq_def list_all_iff set_zip)

lemma Cifti2MetaData_len: "Cifti2MetaData (if m = [] then None else Some m) = m"
  by (simp add: Cifti2MetaData_def)

lemma map_zip_snd: "length xs = length ys \<Longrightarrow> map (\<lambda>p. f (snd p)) (zip xs ys) = map f ys"
  by (induction xs ys rule: list_induct2) auto

lemma map_zip_fst: "length xs = length ys \<Longrightarrow> map (\<lambda>p. f (fst p)) (zip xs ys) = map f xs"
  by (induction xs ys rule: list_induct2) auto

lemma map_dict_of_items:
  "list_all (\<lambda>m. distinct (dict_keys m)) ms \<Longrightarrow> map dict_of_items ms = ms"
  by (induction ms) (auto simp: dict_of_items_distinct)

text \<open>
  For \<^verbatim>\<open>Series\<close>, \<^verbatim>\<open>Scalar\<close> and \<^verbatim>\<open>Label\<close> the round trip through a mapping returns
  the axis itself, which is equal to itself (the dictionaries of a \<^verbatim>\<open>Scalar\<close> or
  \<^verbatim>\<open>Label\<close> have distinct keys, as every Python dictionary has).
\<close>

lemma Series_round_trip:
  assumes "Series_init start step n u = Inr s"
  shows "from_mapping structures (Series_to_mapping s d) = Inr (AxSeries s) \<and>
         axis_eq (AxSeries s) (AxSeries s) = Inr True"
proof -
  from assms have u: "upper u \<in> set [''SECOND'', ''HERTZ'', ''METER'', ''RADIAN'']"
    and s: "s = \<lparr>series_start = start, series_step = step, series_size = n,
                 series_unit = upper u\<rparr>"
    by (auto simp: Series_init_def split: if_splits)
  have "upper (upper u) = upper u"
    using u by (auto simp: upper_def upper_char_def lowercase_letters_def uppercase_letters_def)
  then have "Series_init start step n (upper u) = Inr s"
    using u s by (simp add: Series_init_def)
  then show ?thesis
    by (simp add: from_mapping_def Series_to_mapping_def Cifti2MatrixIndicesMap_def
        Series_from_mapping_def ten_to_def Series_eq_def s)
qed

lemma Scalar_round_trip:
  assumes "Scalar_init names meta = Inr s"
    and "list_all (\<lambda>m. distinct (dict_keys m)) (sc_meta s)"
  shows "from_mapping structures (Scalar_to_mapping s d) = Inr (AxScalar s) \<and>
         axis_eq (AxScalar s) (AxScalar s) = Inr True"
proof -
  from assms(1) have len: "length (sc_meta s) = length (sc_name s)"
    by (auto simp: Scalar_init_def Let_def split: if_splits)
  have n: "map map_name (named_maps (Scalar_to_mapping s d)) = sc_name s"
    using len by (simp add: Scalar_to_mapping_def Cifti2MatrixIndicesMap_def comp_def
        case_prod_unfold)
  have m: "map (\<lambda>nm. case metadata nm of None \<Rightarrow> [] | Some d \<Rightarrow> dict_of_items d)
             (named_maps (Scalar_to_mapping s d)) = sc_meta s"
    using len map_dict_of_items [OF assms(2)]
    by (simp add: Scalar_to_mapping_def Cifti2MatrixIndicesMap_def comp_def
        case_prod_unfold Cifti2MetaData_len map_zip_snd)
  have "Scalar_from_mapping (Scalar_to_mapping s d) = Inr s"
    unfolding Scalar_from_mapping_def n m using len by (simp add: Scalar_init_def)
  then show ?thesis
    by (simp add: from_mapping_def Scalar_to_mapping_def Cifti2MatrixIndicesMap_def
        Scalar_eq_def)
qed

lemma map_zip3_fst:
  "length xs = length ys \<Longrightarrow> length ys = length zs \<Longrightarrow>
   map (\<lambda>p. f (fst p)) (zip xs (zip ys zs)) = map f xs"
  by (induction xs ys zs rule: list_induct3) auto

lemma map_zip3_mid:
  "length xs = length ys \<Longrightarrow> length ys = length zs \<Longrightarrow>
   map (\<lambda>p. f (fst (snd p))) (zip xs (zip ys zs)) = map f ys"
  by (induction xs ys zs rule: list_induct3) auto

lemma map_zip3_last:
  "length xs = length ys \<Longrightarrow> length ys = length zs \<Longrightarrow>
   map (\<lambda>p. f (snd (snd p))) (zip xs (zip ys zs)) = map f zs"
  by (induction xs ys zs rule: list_induct3) auto

lemma map_result_total:
  "(\<And>x. x \<in> set xs \<Longrightarrow> f x = Inr (g x)) \<Longrightarrow> map_result f xs = Inr (map g xs)"
  by (induction xs) auto

lemma Label_round_trip:
  assumes "Label_init names label meta = Inr l"
    and "list_all (\<lambda>m. distinct (dict_keys m)) (lb_meta l)"
    and "list_all (\<lambda>t. distinct (dict_keys t)) (lb_label l)"
  shows "from_mapping structures (Label_to_mapping l d) = Inr (AxLabel l) \<and>
         axis_eq (AxLabel l) (AxLabel l) = Inr True"
proof -
  from assms(1) have len: "length (lb_name l) = length (lb_label l)"
    "length (lb_label l) = length (lb_meta l)"
    by (auto simp: Label_init_def split: if_splits)
  let ?m = "Label_to_mapping l d"
  let ?z = "zip (lb_name l) (zip (lb_label l) (lb_meta l))"
  have nms: "named_maps ?m = map (\<lambda>p.
            \<lparr>map_name = fst p,
             metadata = Some (snd (snd p)),
             nm_label_table = Some (dict_of_items (fst (snd p)))\<rparr>) ?z"
    by (simp add: Label_to_mapping_def Cifti2MatrixIndicesMap_def case_prod_unfold
        Cifti2MetaData_len)
  have n: "map map_name (named_maps ?m) = lb_name l"
    unfolding nms using map_zip3_fst [OF len, of "\<lambda>x. x"] by (simp add: comp_def)
  have m: "map (\<lambda>nm. case metadata nm of None \<Rightarrow> [] | Some d \<Rightarrow> dict_of_items d)
      (named_maps ?m) = lb_meta l"
    unfolding nms using map_zip3_last [OF len, of dict_of_items] map_dict_of_items [OF assms(2)]
    by (simp add: comp_def)
  have tt: "map dict_of_items (map dict_of_items (lb_label l)) = lb_label l"
    using map_dict_of_items [OF assms(3)] by simp
  have tables: "map_result
             (\<lambda>nm. case nm_label_table nm of
                      None \<Rightarrow> Inl (AttributeError ''NoneType object has no attribute items'')
                    | Some t \<Rightarrow> Inr (dict_of_items t))
             (named_maps ?m) =
           Inr (map (\<lambda>nm. dict_of_items (the (nm_label_table nm))) (named_maps ?m))"
    by (rule map_result_total) (auto simp: nms)
  have t: "map (\<lambda>nm. dict_of_items (the (nm_label_table nm))) (named_maps ?m) = lb_label l"
    unfolding nms
    using map_zip3_mid [OF len, of "\<lambda>t. dict_of_items (dict_of_items t)"] tt
    by (simp add: comp_def)
  have sc: "Scalar_from_mapping ?m = Inr \<lparr>sc_name = lb_name l, sc_meta = lb_meta l\<rparr>"
    unfolding Scalar_from_mapping_def n m using len by (simp add: Scalar_init_def)
  have "Label_from_mapping ?m = Inr l"
    unfolding Label_from_mapping_def tables t sc using len
    by (simp add: to_label_def Label_init_def)
  then show ?thesis
    by (simp add: from_mapping_def Label_to_mapping_def Cifti2MatrixIndicesMap_def
        Label_eq_def)
qed

subsection \<open>Equality of \<^verbatim>\<open>Parcels\<close> axes and the round trip through a mapping\<close>

lemmas pc_eval =
  Parcels_init_def asarray_object_def affine_setter_def volume_shape_setter_def
  Parcels_to_mapping_def i4_voxels_def wrap_i4_def
  Parcels_from_mapping_def Cifti2MatrixIndicesMap_def from_mapping_def dict_of_items_def
  dict_keys_def Parcels_eq_def dict_eq_def np_ne_any_def np_ne_all_def np_ne_def
  affine_far_def

text \<open>
  Claim C7 at two axes of two parcels each that differ in the name of the second parcel
  alone (\<open>b\<close> against \<open>c\<close>): \<^verbatim>\<open>__eq__\<close> returns true. The test on the names is
  \<^verbatim>\<open>(self.name != other.name).all()\<close>, true only when every name differs.
\<close>

theorem Parcels_eq_one_name_differs:
  "Parcels_init [''a'', ''b''] (ObjectArray [VoxArray [(0, 0, 0)], VoxArray [(1, 1, 1)]])
     [[], []] (Some identity_affine) (Some [2, 2, 2]) None = Inr (two_parcels ''a'' ''b'') \<and>
   Parcels_init [''a'', ''c''] (ObjectArray [VoxArray [(0, 0, 0)], VoxArray [(1, 1, 1)]])
     [[], []] (Some identity_affine) (Some [2, 2, 2]) None = Inr (two_parcels ''a'' ''c'') \<and>
   pc_name (two_parcels ''a'' ''b'') ! 1 = ''b'' \<and>
   pc_name (two_parcels ''a'' ''c'') ! 1 = ''c'' \<and>
   axis_eq (AxParcels (two_parcels ''a'' ''b'')) (AxParcels (two_parcels ''a'' ''c'')) =
     Inr True"
  by (simp add: pc_eval two_parcels_def identity_affine_def)

text \<open>
  \<^verbatim>\<open>__eq__\<close> can also raise: one parcel of two voxels against one parcel of three voxels
  makes \<^verbatim>\<open>vox1 != vox2\<close> compare arrays of shapes \<open>(2, 3)\<close> and \<open>(3, 3)\<close>.
\<close>

lemma Parcels_eq_raises:
  "axis_eq (AxParcels (parcel_of [(0, 0, 0), (0, 0, 1)]))
     (AxParcels (parcel_of [(0, 0, 0), (0, 0, 1), (0, 1, 0)])) =
   Inl (ValueError ''operands could not be broadcast together'')"
  by (simp add: pc_eval parcel_of_def identity_affine_def)

text \<open>
  The constructor called with a nested list for the same two voxel arrays raises:
  numpy stacks the two sublists of one voxel each into an array of shape \<open>(2, 1, 3)\<close>.
  A nested list with sublists of different lengths is kept as an object array of lists.
\<close>

lemma Parcels_init_nested_list:
  "Parcels_init [''a'', ''b''] (NestedList [[(0, 0, 0)], [(1, 1, 1)]]) [[], []]
     (Some identity_affine) (Some [2, 2, 2]) None =
     Inl (ValueError ''Input has incorrect shape for Label axis'') \<and>
   map_sum id pc_voxels
     (Parcels_init [''a'', ''b''] (NestedList [[(0, 0, 0)], [(1, 1, 1), (1, 1, 0)]]) [[], []]
        (Some identity_affine) (Some [2, 2, 2]) None) =
     Inr [VoxList [(0, 0, 0)], VoxList [(1, 1, 1), (1, 1, 0)]]"
  by (simp add: pc_eval identity_affine_def)

text \<open>\<^verbatim>\<open>from_mapping\<close> stores voxel indices in 32 bits: the index \<open>2\<^sup>3\<^sup>1\<close> comes back as
  \<open>- 2\<^sup>3\<^sup>1\<close>.\<close>

lemma Parcels_from_mapping_i4:
  "from_mapping example_structures (Parcels_to_mapping (parcel_of [(2147483648, 0, 0)]) 0) =
     Inr (AxParcels (parcel_of [(- 2147483648, 0, 0)]))"
  by (simp add: pc_eval parcel_of_def identity_affine_def)

text \<open>
  Claim C1 at the Parcels axis without parcels, and at the axis of one parcel that
  lists a surface structure with an empty vertex array: \<^verbatim>\<open>to_mapping\<close> followed by
  \<^verbatim>\<open>from_mapping\<close> returns an axis with the very same content, and \<^verbatim>\<open>__eq__\<close> answers
  false, because \<^verbatim>\<open>.all()\<close> of an empty comparison is true.
\<close>

theorem Parcels_round_trip_unequal:
  "Parcels_init [] (ObjectArray []) [] None None None = Inr empty_parcels \<and>
   from_mapping example_structures (Parcels_to_mapping empty_parcels 0) =
     Inr (AxParcels empty_parcels) \<and>
   axis_eq (AxParcels empty_parcels) (AxParcels empty_parcels) = Inr False \<and>
   Parcels_init [''p''] (ObjectArray [VoxArray [(0, 0, 0)]])
     [[(''CIFTI_STRUCTURE_CORTEX_LEFT'', [])]]
     (Some identity_affine) (Some [2, 2, 2]) (Some [(''CIFTI_STRUCTURE_CORTEX_LEFT'', 5)]) =
     Inr one_parcel \<and>
   from_mapping example_structures (Parcels_to_mapping one_parcel 0) =
     Inr (AxParcels one_parcel) \<and>
   axis_eq (AxParcels one_parcel) (AxParcels one_parcel) = Inr False"
  by (simp add: pc_eval empty_parcels_def one_parcel_def identity_affine_def)

end
